(* ===== verification/Prelude.thy ===== *)
theory Prelude
  imports Complex_Main "HOL-Library.Word" "HOL-Library.AList" "HOL-Library.Sublist"
    "HOL-Library.List_Lexorder" "HOL-Library.Char_ord"
begin

text \<open>
  Shared material of the development: the exceptions a Python function can raise, results that
  are either an exception or a value, effectful computations as state passing with exceptions,
  and the invariant rules (\<open>keeps\<close>) the component proofs use.  The collections declared here are
  filled by every later theory:
  \<^item> \<open>io_simps\<close>: equations that run an effectful computation on a concrete state;
  \<^item> \<open>keeps_rules\<close>: introduction rules that push an invariant through a computation;
  \<^item> \<open>wp_simps\<close>: equations that compute weakest preconditions;
  \<^item> \<open>py_simps\<close>: equations that evaluate the Python primitives on constructors.
\<close>

named_theorems io_simps \<open>running effectful computations\<close>
named_theorems keeps_rules \<open>invariants of effectful computations\<close>
named_theorems wp_simps \<open>weakest preconditions of effectful computations\<close>
named_theorems py_simps \<open>evaluation of Python primitives\<close>

section \<open>Exceptions and results\<close>

text \<open>
  The exception classes the code raises or tells apart in its \<^verbatim>\<open>except\<close> clauses.  gRPC errors
  carry their status code.  \<^verbatim>\<open>JSONDecodeError\<close>, \<^verbatim>\<open>binascii.Error\<close> and \<^verbatim>\<open>UnicodeDecodeError\<close> are
  subclasses of \<^verbatim>\<open>ValueError\<close>.
\<close>

datatype grpc_status =
    OK | CANCELLED | UNKNOWN | INVALID_ARGUMENT | DEADLINE_EXCEEDED | NOT_FOUND | ALREADY_EXISTS
  | PERMISSION_DENIED | RESOURCE_EXHAUSTED | FAILED_PRECONDITION | ABORTED_STATUS | OUT_OF_RANGE
  | UNIMPLEMENTED | INTERNAL | UNAVAILABLE | DATA_LOSS | UNAUTHENTICATED

datatype exn_kind =
    ValueError | JSONDecodeError | BinasciiError | RuntimeError | TypeError | AttributeError
  | KeyError | IndexError | FileNotFoundError | RpcError grpc_status | OtherException string

datatype exn = Exn (exn_kind: exn_kind) (exn_str: string)

type_synonym 'a res = "exn + 'a"
type_synonym byte = "8 word"
type_synonym bytes = "byte list"

text \<open>\<^verbatim>\<open>except ValueError\<close> also catches its subclasses.\<close>

fun is_value_error :: "exn_kind \<Rightarrow> bool" where
  "is_value_error ValueError = True"
| "is_value_error JSONDecodeError = True"
| "is_value_error BinasciiError = True"
| "is_value_error (OtherException n) = (n = ''UnicodeDecodeError'')"
| "is_value_error _ = False"

text \<open>\<^verbatim>\<open>type(e).__name__\<close>.\<close>

fun exn_type_name :: "exn_kind \<Rightarrow> string" where
  "exn_type_name ValueError = ''ValueError''"
| "exn_type_name JSONDecodeError = ''JSONDecodeError''"
| "exn_type_name BinasciiError = ''Error''"
| "exn_type_name RuntimeError = ''RuntimeError''"
| "exn_type_name TypeError = ''TypeError''"
| "exn_type_name AttributeError = ''AttributeError''"
| "exn_type_name KeyError = ''KeyError''"
| "exn_type_name IndexError = ''IndexError''"
| "exn_type_name FileNotFoundError = ''FileNotFoundError''"
| "exn_type_name (RpcError _) = ''_InactiveRpcError''"
| "exn_type_name (OtherException n) = n"

definition rbind :: "'a res \<Rightarrow> ('a \<Rightarrow> 'b res) \<Rightarrow> 'b res" where
  "rbind m f = (case m of Inl e \<Rightarrow> Inl e | Inr x \<Rightarrow> f x)"

lemma rbind_Inl [simp, py_simps]: "rbind (Inl e) f = Inl e"
  by (simp add: rbind_def)

lemma rbind_Inr [simp, py_simps]: "rbind (Inr x) f = f x"
  by (simp add: rbind_def)

lemma rbind_eq_Inr [simp]: "rbind m f = Inr y \<longleftrightarrow> (\<exists>x. m = Inr x \<and> f x = Inr y)"
  by (cases m) simp_all

lemma rbind_eq_Inl: "rbind m f = Inl e \<longleftrightarrow> m = Inl e \<or> (\<exists>x. m = Inr x \<and> f x = Inl e)"
  by (cases m) simp_all

lemma rbind_assoc [simp]: "rbind (rbind m f) g = rbind m (\<lambda>x. rbind (f x) g)"
  by (cases m) simp_all

lemma rbind_cong [fundef_cong]:
  "m = m' \<Longrightarrow> (\<And>x. m' = Inr x \<Longrightarrow> f x = g x) \<Longrightarrow> rbind m f = rbind m' g"
  by (cases m') simp_all

text \<open>Mapping a fallible function over a list, left to right, stopping at the first exception.\<close>

fun rmap :: "('a \<Rightarrow> 'b res) \<Rightarrow> 'a list \<Rightarrow> 'b list res" where
  "rmap f [] = Inr []"
| "rmap f (x # xs) = rbind (f x) (\<lambda>y. rbind (rmap f xs) (\<lambda>ys. Inr (y # ys)))"

lemma rmap_Inr: "(\<And>x. x \<in> set xs \<Longrightarrow> f x = Inr (g x)) \<Longrightarrow> rmap f xs = Inr (map g xs)"
  by (induction xs) auto

lemma rmap_length: "rmap f xs = Inr ys \<Longrightarrow> length ys = length xs"
  by (induction xs arbitrary: ys) auto

section \<open>Effectful computations\<close>

text \<open>
  A computation reads and updates the state of the process and its surroundings and returns a
  result.  State changes made before an exception stay, as they do in Python.
\<close>

type_synonym ('w, 'a) io = "'w \<Rightarrow> 'a res \<times> 'w"

definition io_return :: "'a \<Rightarrow> ('w, 'a) io" where
  "io_return x = (\<lambda>w. (Inr x, w))"

definition io_raise :: "exn \<Rightarrow> ('w, 'a) io" where
  "io_raise e = (\<lambda>w. (Inl e, w))"

definition io_lift :: "'a res \<Rightarrow> ('w, 'a) io" where
  "io_lift r = (\<lambda>w. (r, w))"

definition io_bind :: "('w, 'a) io \<Rightarrow> ('a \<Rightarrow> ('w, 'b) io) \<Rightarrow> ('w, 'b) io" where
  "io_bind m f = (\<lambda>w. case m w of (Inl e, w') \<Rightarrow> (Inl e, w') | (Inr x, w') \<Rightarrow> f x w')"

definition io_get :: "('w \<Rightarrow> 'a) \<Rightarrow> ('w, 'a) io" where
  "io_get f = (\<lambda>w. (Inr (f w), w))"

definition io_modify :: "('w \<Rightarrow> 'w) \<Rightarrow> ('w, unit) io" where
  "io_modify f = (\<lambda>w. (Inr (), f w))"

text \<open>\<^verbatim>\<open>try: m except: h\<close>; the handler runs in the state the exception left behind.\<close>

definition io_catch :: "('w, 'a) io \<Rightarrow> (exn \<Rightarrow> ('w, 'a) io) \<Rightarrow> ('w, 'a) io" where
  "io_catch m h = (\<lambda>w. case m w of (Inl e, w') \<Rightarrow> h e w' | (Inr x, w') \<Rightarrow> (Inr x, w'))"

text \<open>\<^verbatim>\<open>try: m finally: c\<close>, where the cleanup itself does not raise.\<close>

definition io_finally :: "('w, 'a) io \<Rightarrow> ('w \<Rightarrow> 'w) \<Rightarrow> ('w, 'a) io" where
  "io_finally m c = (\<lambda>w. case m w of (r, w') \<Rightarrow> (r, c w'))"

lemma io_return_run [io_simps]: "io_return x w = (Inr x, w)"
  by (simp add: io_return_def)

lemma io_raise_run [io_simps]: "io_raise e w = (Inl e, w)"
  by (simp add: io_raise_def)

lemma io_lift_run [io_simps]: "io_lift r w = (r, w)"
  by (simp add: io_lift_def)

lemma io_get_run [io_simps]: "io_get f w = (Inr (f w), w)"
  by (simp add: io_get_def)

lemma io_modify_run [io_simps]: "io_modify f w = (Inr (), f w)"
  by (simp add: io_modify_def)

lemma io_bind_run [io_simps]:
  "io_bind m f w = (case m w of (Inl e, w') \<Rightarrow> (Inl e, w') | (Inr x, w') \<Rightarrow> f x w')"
  by (simp add: io_bind_def)

lemma io_catch_run [io_simps]:
  "io_catch m h w = (case m w of (Inl e, w') \<Rightarrow> h e w' | (Inr x, w') \<Rightarrow> (Inr x, w'))"
  by (simp add: io_catch_def)

lemma io_finally_run [io_simps]: "io_finally m c w = (case m w of (r, w') \<Rightarrow> (r, c w'))"
  by (simp add: io_finally_def)

text \<open>A successful run of a sequence is a successful run of each part.\<close>

lemma io_bind_InrE:
  assumes "io_bind m f w = (Inr y, w'')"
  obtains x w' where "m w = (Inr x, w')" and "f x w' = (Inr y, w'')"
  using assms by (auto simp: io_bind_def split: prod.splits sum.splits)

lemma io_bind_eq_Inr:
  "io_bind m f w = (Inr y, w'') \<longleftrightarrow> (\<exists>x w'. m w = (Inr x, w') \<and> f x w' = (Inr y, w''))"
  by (auto simp: io_bind_def split: prod.splits sum.splits)

section \<open>Invariants of computations\<close>

text \<open>
  \<open>keeps I m\<close>: whatever \<open>m\<close> returns or raises, the state afterwards satisfies \<open>I\<close> if the state
  before did.
\<close>

definition keeps :: "('w \<Rightarrow> bool) \<Rightarrow> ('w, 'a) io \<Rightarrow> bool" where
  "keeps I m \<longleftrightarrow> (\<forall>w. I w \<longrightarrow> I (snd (m w)))"

lemma keepsI: "(\<And>w. I w \<Longrightarrow> I (snd (m w))) \<Longrightarrow> keeps I m"
  by (simp add: keeps_def)

lemma keepsD: "keeps I m \<Longrightarrow> I w \<Longrightarrow> I (snd (m w))"
  by (simp add: keeps_def)

lemma keepsD_run: "keeps I m \<Longrightarrow> m w = (r, w') \<Longrightarrow> I w \<Longrightarrow> I w'"
  by (auto simp: keeps_def dest: spec [of _ w])

lemma keeps_return [keeps_rules]: "keeps I (io_return x)"
  by (simp add: keeps_def io_simps)

lemma keeps_raise [keeps_rules]: "keeps I (io_raise e)"
  by (simp add: keeps_def io_simps)

lemma keeps_lift [keeps_rules]: "keeps I (io_lift r)"
  by (simp add: keeps_def io_simps)

lemma keeps_get [keeps_rules]: "keeps I (io_get f)"
  by (simp add: keeps_def io_simps)

lemma keeps_bind [keeps_rules]:
  "keeps I m \<Longrightarrow> (\<And>x. keeps I (f x)) \<Longrightarrow> keeps I (io_bind m f)"
  by (auto simp: keeps_def io_simps split: prod.splits sum.splits)

lemma keeps_catch [keeps_rules]:
  "keeps I m \<Longrightarrow> (\<And>e. keeps I (h e)) \<Longrightarrow> keeps I (io_catch m h)"
  by (auto simp: keeps_def io_simps split: prod.splits sum.splits)

lemma keeps_modify: "(\<And>w. I w \<Longrightarrow> I (f w)) \<Longrightarrow> keeps I (io_modify f)"
  by (simp add: keeps_def io_simps)

lemma keeps_finally:
  "keeps I m \<Longrightarrow> (\<And>w. I w \<Longrightarrow> I (c w)) \<Longrightarrow> keeps I (io_finally m c)"
  by (auto simp: keeps_def io_simps split: prod.splits)

lemma keeps_if [keeps_rules]: "keeps I a \<Longrightarrow> keeps I b \<Longrightarrow> keeps I (if c then a else b)"
  by simp

lemma keeps_option [keeps_rules]:
  "keeps I a \<Longrightarrow> (\<And>x. keeps I (b x)) \<Longrightarrow> keeps I (case m of None \<Rightarrow> a | Some x \<Rightarrow> b x)"
  by (cases m) simp_all

lemma keeps_sum [keeps_rules]:
  "(\<And>e. keeps I (a e)) \<Longrightarrow> (\<And>x. keeps I (b x)) \<Longrightarrow> keeps I (case m of Inl e \<Rightarrow> a e | Inr x \<Rightarrow> b x)"
  by (cases m) simp_all

lemma keeps_prod [keeps_rules]:
  "(\<And>x y. keeps I (f x y)) \<Longrightarrow> keeps I (case p of (x, y) \<Rightarrow> f x y)"
  by (cases p) simp

lemma keeps_let [keeps_rules]: "keeps I (f x) \<Longrightarrow> keeps I (let y = x in f y)"
  by simp

section \<open>Weakest preconditions\<close>

text \<open>
  \<open>wp m Q E w\<close>: running \<open>m\<close> in \<open>w\<close> ends either normally in a state satisfying \<open>Q\<close> of the result or
  with an exception in a state satisfying \<open>E\<close> of it.  Computations are deterministic and total, so
  this is exact and every construct has an equation.
\<close>

definition wp :: "('w, 'a) io \<Rightarrow> ('a \<Rightarrow> 'w \<Rightarrow> bool) \<Rightarrow> (exn \<Rightarrow> 'w \<Rightarrow> bool) \<Rightarrow> 'w \<Rightarrow> bool" where
  "wp m Q E w = (case m w of (Inr x, w') \<Rightarrow> Q x w' | (Inl e, w') \<Rightarrow> E e w')"

lemma wp_return [wp_simps]: "wp (io_return x) Q E w = Q x w"
  by (simp add: wp_def io_simps)

lemma wp_raise [wp_simps]: "wp (io_raise e) Q E w = E e w"
  by (simp add: wp_def io_simps)

lemma wp_lift [wp_simps]: "wp (io_lift r) Q E w = (case r of Inl e \<Rightarrow> E e w | Inr x \<Rightarrow> Q x w)"
  by (simp add: wp_def io_simps)

lemma wp_get [wp_simps]: "wp (io_get f) Q E w = Q (f w) w"
  by (simp add: wp_def io_simps)

lemma wp_modify [wp_simps]: "wp (io_modify f) Q E w = Q () (f w)"
  by (simp add: wp_def io_simps)

lemma wp_bind [wp_simps]: "wp (io_bind m f) Q E w = wp m (\<lambda>x. wp (f x) Q E) E w"
  by (auto simp: wp_def io_simps split: prod.splits sum.splits)

lemma wp_catch [wp_simps]: "wp (io_catch m h) Q E w = wp m Q (\<lambda>e. wp (h e) Q E) w"
  by (auto simp: wp_def io_simps split: prod.splits sum.splits)

lemma wp_finally [wp_simps]:
  "wp (io_finally m c) Q E w = wp m (\<lambda>x w'. Q x (c w')) (\<lambda>e w'. E e (c w')) w"
  by (auto simp: wp_def io_simps split: prod.splits sum.splits)

lemma wp_if [wp_simps]: "wp (if b then m else m') Q E w = (if b then wp m Q E w else wp m' Q E w)"
  by simp

lemma wp_Let [wp_simps]: "wp (let x = v in m x) Q E w = wp (m v) Q E w"
  by simp

lemma wp_mono:
  assumes "wp m Q E w" "\<And>x w'. Q x w' \<Longrightarrow> Q' x w'" "\<And>e w'. E e w' \<Longrightarrow> E' e w'"
  shows "wp m Q' E' w"
  using assms by (auto simp: wp_def split: prod.splits sum.splits)

lemma wp_conj: "wp m Q E w \<Longrightarrow> wp m Q' E' w \<Longrightarrow> wp m (\<lambda>x w'. Q x w' \<and> Q' x w') (\<lambda>e w'. E e w' \<and> E' e w') w"
  by (auto simp: wp_def split: prod.splits sum.splits)

lemma wp_True [simp]: "wp m (\<lambda>_ _. True) (\<lambda>_ _. True) w"
  by (auto simp: wp_def split: prod.splits sum.splits)

lemma wpD: "wp m Q E w \<Longrightarrow> m w = (Inr x, w') \<Longrightarrow> Q x w'"
  by (simp add: wp_def)

lemma wpD_exn: "wp m Q E w \<Longrightarrow> m w = (Inl e, w') \<Longrightarrow> E e w'"
  by (simp add: wp_def)

lemma wp_returns: "wp m (\<lambda>x _. x = y) (\<lambda>_ _. False) w \<Longrightarrow> fst (m w) = Inr y"
  by (auto simp: wp_def split: prod.splits sum.splits)

lemma wp_run: "m w = (Inr x, w') \<Longrightarrow> wp m Q E w \<longleftrightarrow> Q x w'" "m w = (Inl e, w') \<Longrightarrow> wp m Q E w \<longleftrightarrow> E e w'"
  by (simp_all add: wp_def)

lemma keeps_wp: "keeps I m \<longleftrightarrow> (\<forall>w. I w \<longrightarrow> wp m (\<lambda>_. I) (\<lambda>_. I) w)"
proof -
  have "wp m (\<lambda>_. I) (\<lambda>_. I) w \<longleftrightarrow> I (snd (m w))" for w
    by (cases "m w"; cases "fst (m w)") (auto simp: wp_def)
  then show ?thesis by (simp add: keeps_def)
qed

lemma wp_keeps: "keeps I m \<Longrightarrow> I w \<Longrightarrow> wp m (\<lambda>_. I) (\<lambda>_. I) w"
  by (simp add: keeps_wp)

end
