(* ===== verification/PyValue.thy ===== *)
theory PyValue
  imports Prelude
begin

text \<open>
  The Python values the agent code passes around (what \<^verbatim>\<open>json.loads\<close> produces) and the built-in
  operations it applies to them: \<^verbatim>\<open>dict.get\<close>, truth, \<^verbatim>\<open>==\<close>, \<^verbatim>\<open>in\<close>, \<^verbatim>\<open>int()\<close>, \<^verbatim>\<open>str()\<close> and the string
  methods.  A \<^verbatim>\<open>str\<close> is represented by its UTF-8 encoding, so that equality, prefix, substring,
  splitting at an ASCII character and ordering agree with Python's on every text.  A \<^verbatim>\<open>dict\<close> is
  an association list in insertion order.  A \<^verbatim>\<open>float\<close> keeps the literal it was read from; its
  value is the decimal number the literal denotes.
\<close>

section \<open>Values\<close>

datatype pyval =
    PNone
  | PBool bool
  | PInt int
  | PFloat string
  | PStr string
  | PList "pyval list"
  | PDict "(string \<times> pyval) list"

type_synonym pydict = "(string \<times> pyval) list"

fun type_name :: "pyval \<Rightarrow> string" where
  "type_name PNone = ''NoneType''"
| "type_name (PBool _) = ''bool''"
| "type_name (PInt _) = ''int''"
| "type_name (PFloat _) = ''float''"
| "type_name (PStr _) = ''str''"
| "type_name (PList _) = ''list''"
| "type_name (PDict _) = ''dict''"

fun is_str :: "pyval \<Rightarrow> bool" where
  "is_str (PStr _) = True"
| "is_str _ = False"

fun is_dict :: "pyval \<Rightarrow> bool" where
  "is_dict (PDict _) = True"
| "is_dict _ = False"

fun hashable :: "pyval \<Rightarrow> bool" where
  "hashable (PList _) = False"
| "hashable (PDict _) = False"
| "hashable _ = True"

section \<open>Strings\<close>

abbreviation newline_char :: char where "newline_char \<equiv> CHR 0x0A"
abbreviation quote_char :: char where "quote_char \<equiv> CHR 0x27"
abbreviation dquote_char :: char where "dquote_char \<equiv> CHR 0x22"
abbreviation backslash_char :: char where "backslash_char \<equiv> CHR 0x5C"

definition quoted :: "string \<Rightarrow> string" where
  "quoted s = quote_char # s @ [quote_char]"

text \<open>\<^verbatim>\<open>sep.join(parts)\<close>.\<close>

fun join_str :: "string \<Rightarrow> string list \<Rightarrow> string" where
  "join_str sep [] = []"
| "join_str sep [x] = x"
| "join_str sep (x # y # ys) = x @ sep @ join_str sep (y # ys)"

text \<open>\<^verbatim>\<open>s.split(c)\<close> for a one-character separator.\<close>

fun split_on :: "char \<Rightarrow> string \<Rightarrow> string list" where
  "split_on c [] = [[]]"
| "split_on c (x # xs) =
     (if x = c then [] # split_on c xs
      else (case split_on c xs of [] \<Rightarrow> [[x]] | y # ys \<Rightarrow> (x # y) # ys))"

definition is_space :: "char \<Rightarrow> bool" where
  "is_space c \<longleftrightarrow> (let n = (of_char c :: nat) in n = 32 \<or> (9 \<le> n \<and> n \<le> 13) \<or> (28 \<le> n \<and> n \<le> 31))"

definition strip :: "string \<Rightarrow> string" where
  "strip s = rev (dropWhile is_space (rev (dropWhile is_space s)))"

definition startswith :: "string \<Rightarrow> string \<Rightarrow> bool" where
  "startswith s p \<longleftrightarrow> prefix p s"

definition str_contains :: "string \<Rightarrow> string \<Rightarrow> bool" where
  "str_contains s t \<longleftrightarrow> sublist t s"

text \<open>\<^verbatim>\<open>s.replace(a, b)\<close> for two single characters.\<close>

definition replace_char :: "char \<Rightarrow> char \<Rightarrow> string \<Rightarrow> string" where
  "replace_char a b s = map (\<lambda>c. if c = a then b else c) s"

lemma split_on_not_Nil [simp]: "split_on c s \<noteq> []"
  by (induction s) (auto split: list.splits)

lemma join_split_on: "join_str [c] (split_on c s) = s"
proof (induction s)
  case (Cons x xs)
  obtain y ys where "split_on c xs = y # ys"
    by (cases "split_on c xs") auto
  with Cons show ?case
    by (cases ys) auto
qed simp

lemma split_on_no_sep: "c \<notin> set s \<Longrightarrow> split_on c s = [s]"
  by (induction s) auto

lemma split_on_append: "c \<notin> set s \<Longrightarrow> split_on c (s @ c # t) = s # split_on c t"
  by (induction s) auto

section \<open>Numbers as text\<close>

definition is_digit :: "char \<Rightarrow> bool" where
  "is_digit c \<longleftrightarrow> (let n = (of_char c :: nat) in 48 \<le> n \<and> n \<le> 57)"

definition digit_val :: "char \<Rightarrow> nat" where
  "digit_val c = of_char c - 48"

definition digit_char :: "nat \<Rightarrow> char" where
  "digit_char n = char_of (48 + n)"

definition digits_nat :: "string \<Rightarrow> nat" where
  "digits_nat s = foldl (\<lambda>a c. 10 * a + digit_val c) 0 s"

fun nat_str :: "nat \<Rightarrow> string" where
  "nat_str n = (if n < 10 then [digit_char n] else nat_str (n div 10) @ [digit_char (n mod 10)])"

declare nat_str.simps [simp del]

definition int_str :: "int \<Rightarrow> string" where
  "int_str i = (if i < 0 then CHR ''-'' # nat_str (nat (- i)) else nat_str (nat i))"

lemma of_char_char_of_digit: "n < 10 \<Longrightarrow> (of_char (digit_char n) :: nat) = 48 + n"
  by (simp add: digit_char_def)

lemma is_digit_digit_char [simp]: "n < 10 \<Longrightarrow> is_digit (digit_char n)"
  by (simp add: is_digit_def of_char_char_of_digit)

lemma digit_val_digit_char [simp]: "n < 10 \<Longrightarrow> digit_val (digit_char n) = n"
  by (simp add: digit_val_def of_char_char_of_digit)

lemma digits_nat_snoc: "digits_nat (s @ [c]) = 10 * digits_nat s + digit_val c"
  by (simp add: digits_nat_def)

lemma digits_nat_str [simp]: "digits_nat (nat_str n) = n"
proof (induction n rule: nat_str.induct)
  case (1 n)
  show ?case
  proof (cases "n < 10")
    case True
    then show ?thesis by (subst nat_str.simps) (simp add: digits_nat_def)
  next
    case False
    with "1.IH" show ?thesis by (subst nat_str.simps) (simp add: digits_nat_snoc)
  qed
qed

lemma nat_str_digits: "list_all is_digit (nat_str n)"
proof (induction n rule: nat_str.induct)
  case (1 n)
  then show ?case by (subst nat_str.simps) simp
qed

lemma nat_str_not_Nil [simp]: "nat_str n \<noteq> []"
  by (subst nat_str.simps) simp

text \<open>No superfluous leading zero: the text of a positive number starts with another digit.\<close>

lemma hd_nat_str: "0 < n \<Longrightarrow> \<exists>d. 0 < d \<and> d < 10 \<and> hd (nat_str n) = digit_char d"
proof (induction n rule: nat_str.induct)
  case (1 n)
  show ?case
  proof (cases "n < 10")
    case True
    with "1.prems" show ?thesis by (subst nat_str.simps) auto
  next
    case False
    then have "0 < n div 10" by simp
    with False "1.IH" show ?thesis by (subst nat_str.simps) (simp add: hd_append)
  qed
qed

lemma nat_str_0: "nat_str 0 = ''0''"
  by code_simp

text \<open>
  The value of a float literal \<^verbatim>\<open>[-]digits[.digits][e[+-]digits]\<close>; \<^verbatim>\<open>NaN\<close> and the infinities
  have none.
\<close>

definition ten_power :: "int \<Rightarrow> rat" where
  "ten_power e = (if 0 \<le> e then 10 ^ nat e else 1 / 10 ^ nat (- e))"

definition signed_digits :: "string \<Rightarrow> int" where
  "signed_digits s = (case s of
     [] \<Rightarrow> 0
   | c # t \<Rightarrow> if c = CHR ''-'' then - int (digits_nat t)
              else if c = CHR ''+'' then int (digits_nat t) else int (digits_nat s))"

definition float_rat :: "string \<Rightarrow> rat option" where
  "float_rat s =
     (if s \<in> {''NaN'', ''Infinity'', ''-Infinity''} then None
      else let neg = (s \<noteq> [] \<and> hd s = CHR ''-'');
               t = (if neg then tl s else s);
               ip = takeWhile is_digit t;
               r = dropWhile is_digit t;
               fp = (if r \<noteq> [] \<and> hd r = CHR ''.'' then takeWhile is_digit (tl r) else []);
               q = (if r \<noteq> [] \<and> hd r = CHR ''.'' then dropWhile is_digit (tl r) else r);
               ex = (if q = [] then 0 else signed_digits (tl q));
               m = of_nat (digits_nat (ip @ fp)) * ten_power (ex - int (length fp))
           in Some (if neg then - m else m))"

fun py_num :: "pyval \<Rightarrow> rat option" where
  "py_num (PBool b) = Some (if b then 1 else 0)"
| "py_num (PInt i) = Some (of_int i)"
| "py_num (PFloat s) = float_rat s"
| "py_num _ = None"

section \<open>Truth, equality, membership\<close>

fun truthy :: "pyval \<Rightarrow> bool" where
  "truthy PNone = False"
| "truthy (PBool b) = b"
| "truthy (PInt i) = (i \<noteq> 0)"
| "truthy (PFloat s) = (float_rat s \<noteq> Some 0)"
| "truthy (PStr s) = (s \<noteq> [])"
| "truthy (PList xs) = (xs \<noteq> [])"
| "truthy (PDict d) = (d \<noteq> [])"

text \<open>
  \<^verbatim>\<open>a == b\<close>: numbers (bools among them) by value, the rest by structure, dicts regardless of
  order.
\<close>

definition num_eq :: "pyval \<Rightarrow> pyval \<Rightarrow> bool" where
  "num_eq a b = (case (py_num a, py_num b) of
      (Some x, Some y) \<Rightarrow> x = y
    | (None, None) \<Rightarrow> a = b \<and> a \<noteq> PFloat ''NaN'' \<and> (\<exists>s \<in> {''Infinity'', ''-Infinity''}. a = PFloat s)
    | _ \<Rightarrow> False)"

function (sequential) py_eq :: "pyval \<Rightarrow> pyval \<Rightarrow> bool"
  and py_eq_list :: "pyval list \<Rightarrow> pyval list \<Rightarrow> bool"
  and py_eq_dict :: "pydict \<Rightarrow> pydict \<Rightarrow> bool" where
  "py_eq PNone PNone = True"
| "py_eq (PStr s) (PStr t) = (s = t)"
| "py_eq (PList xs) (PList ys) = py_eq_list xs ys"
| "py_eq (PDict d) (PDict e) = (length d = length e \<and> py_eq_dict d e)"
| "py_eq a b = num_eq a b"
| "py_eq_list [] [] = True"
| "py_eq_list (x # xs) (y # ys) = (py_eq x y \<and> py_eq_list xs ys)"
| "py_eq_list _ _ = False"
| "py_eq_dict [] e = True"
| "py_eq_dict ((k, v) # d) e =
     ((case map_of e k of None \<Rightarrow> False | Some v' \<Rightarrow> py_eq v v') \<and> py_eq_dict d e)"
  by pat_completeness auto
termination
  by (relation "measure (\<lambda>x. case x of Inl (a, _) \<Rightarrow> size a
        | Inr (Inl (xs, _)) \<Rightarrow> size_list size xs
        | Inr (Inr (d, _)) \<Rightarrow> size_list (size_prod (\<lambda>_. 0) size) d)") auto

definition py_hash_in :: "pyval \<Rightarrow> pyval list \<Rightarrow> bool res" where
  "py_hash_in x xs =
     (if hashable x then Inr (\<exists>y \<in> set xs. py_eq x y)
      else Inl (Exn TypeError (''unhashable type: '' @ quoted (type_name x))))"

text \<open>\<^verbatim>\<open>x in c\<close>: an element of a list, a substring of a string, a key of a dict.\<close>

fun py_in :: "pyval \<Rightarrow> pyval \<Rightarrow> bool res" where
  "py_in x (PList ys) = Inr (\<exists>y \<in> set ys. x = y \<or> py_eq x y)"
| "py_in (PStr t) (PStr s) = Inr (str_contains s t)"
| "py_in x (PStr s) =
     Inl (Exn TypeError (quoted ''in <string>'' @ '' requires string as left operand, not '' @ type_name x))"
| "py_in x (PDict d) = py_hash_in x (map (PStr \<circ> fst) d)"
| "py_in x c = Inl (Exn TypeError (''argument of type '' @ quoted (type_name c) @ '' is not iterable''))"

section \<open>Dictionaries\<close>

definition attribute_error :: "pyval \<Rightarrow> string \<Rightarrow> exn" where
  "attribute_error v a =
     Exn AttributeError (quoted (type_name v) @ '' object has no attribute '' @ quoted a)"

text \<open>\<^verbatim>\<open>v.get(k, d)\<close>.\<close>

fun py_get :: "pyval \<Rightarrow> string \<Rightarrow> pyval \<Rightarrow> pyval res" where
  "py_get (PDict kvs) k d = Inr (case map_of kvs k of None \<Rightarrow> d | Some v \<Rightarrow> v)"
| "py_get v k d = Inl (attribute_error v ''get'')"

text \<open>\<^verbatim>\<open>d[k] = v\<close>: an existing key keeps its place.\<close>

definition dict_set :: "string \<Rightarrow> pyval \<Rightarrow> pydict \<Rightarrow> pydict" where
  "dict_set k v d = AList.update k v d"

lemma map_of_dict_set [simp]: "map_of (dict_set k v d) = (map_of d)(k \<mapsto> v)"
  by (simp add: dict_set_def update_conv')

lemma distinct_dict_set: "distinct (map fst d) \<Longrightarrow> distinct (map fst (dict_set k v d))"
  by (simp add: dict_set_def distinct_update)

lemma dict_set_fresh: "k \<notin> fst ` set d \<Longrightarrow> dict_set k v d = d @ [(k, v)]"
  unfolding dict_set_def by (induction d) auto

lemma py_get_Inr [simp]:
  "py_get v k d = Inr x \<longleftrightarrow> (\<exists>kvs. v = PDict kvs \<and> x = (case map_of kvs k of None \<Rightarrow> d | Some y \<Rightarrow> y))"
  by (cases v) auto

section \<open>Conversions to text and to integers\<close>

definition hex_char :: "nat \<Rightarrow> char" where
  "hex_char n = (if n < 10 then char_of (48 + n) else char_of (87 + n))"

text \<open>The escapes \<^verbatim>\<open>repr\<close> writes inside a string delimited by \<open>q\<close>.\<close>

definition repr_char :: "char \<Rightarrow> char \<Rightarrow> string" where
  "repr_char q c =
     (if c = q \<or> c = backslash_char then [backslash_char, c]
      else if c = newline_char then [backslash_char, CHR ''n'']
      else if c = CHR 0x0D then [backslash_char, CHR ''r'']
      else if c = CHR 0x09 then [backslash_char, CHR ''t'']
      else let n = (of_char c :: nat) in
           if n < 32 \<or> n = 127
           then [backslash_char, CHR ''x'', hex_char (n div 16), hex_char (n mod 16)] else [c])"

definition repr_str :: "string \<Rightarrow> string" where
  "repr_str s =
     (let q = (if quote_char \<in> set s \<and> dquote_char \<notin> set s then dquote_char else quote_char)
      in q # concat (map (repr_char q) s) @ [q])"

text \<open>The two infinities and \<^verbatim>\<open>nan\<close> print in lower case; any other float as its literal.\<close>

definition float_repr :: "string \<Rightarrow> string" where
  "float_repr s =
     (if s = ''NaN'' then ''nan'' else if s = ''Infinity'' then ''inf''
      else if s = ''-Infinity'' then ''-inf'' else s)"

function (sequential) py_repr :: "pyval \<Rightarrow> string"
  and py_repr_list :: "pyval list \<Rightarrow> string list"
  and py_repr_dict :: "pydict \<Rightarrow> string list" where
  "py_repr PNone = ''None''"
| "py_repr (PBool b) = (if b then ''True'' else ''False'')"
| "py_repr (PInt i) = int_str i"
| "py_repr (PFloat s) = float_repr s"
| "py_repr (PStr s) = repr_str s"
| "py_repr (PList xs) = ''['' @ join_str '', '' (py_repr_list xs) @ '']''"
| "py_repr (PDict d) = ''{'' @ join_str '', '' (py_repr_dict d) @ ''}''"
| "py_repr_list [] = []"
| "py_repr_list (x # xs) = py_repr x # py_repr_list xs"
| "py_repr_dict [] = []"
| "py_repr_dict ((k, v) # d) = (repr_str k @ '': '' @ py_repr v) # py_repr_dict d"
  by pat_completeness auto
termination
  by (relation "measure (\<lambda>x. case x of Inl a \<Rightarrow> size a
        | Inr (Inl xs) \<Rightarrow> size_list size xs
        | Inr (Inr d) \<Rightarrow> size_list (size_prod (\<lambda>_. 0) size) d)") auto

text \<open>\<^verbatim>\<open>str(v)\<close>, also what an f-string inserts.\<close>

fun py_str :: "pyval \<Rightarrow> string" where
  "py_str (PStr s) = s"
| "py_str v = py_repr v"

text \<open>
  \<^verbatim>\<open>int(s)\<close> on a string: surrounding white space, one sign, digits with single underscores
  between digits, at most 4300 of them.
\<close>

fun digits_ok :: "string \<Rightarrow> bool" where
  "digits_ok [] = False"
| "digits_ok [c] = is_digit c"
| "digits_ok (c # d # s) =
     (is_digit c \<and> (if d = CHR ''_'' then digits_ok s else digits_ok (d # s)))"

definition int_of_str :: "string \<Rightarrow> int res" where
  "int_of_str s =
     (let t = strip s;
          neg = (t \<noteq> [] \<and> hd t = CHR ''-'');
          b = (if t \<noteq> [] \<and> hd t \<in> {CHR ''-'', CHR ''+''} then tl t else t);
          ds = filter is_digit b
      in if \<not> digits_ok b
         then Inl (Exn ValueError (''invalid literal for int() with base 10: '' @ repr_str s))
         else if 4300 < length ds
         then Inl (Exn ValueError ''Exceeds the limit (4300 digits) for integer string conversion'')
         else Inr (if neg then - int (digits_nat ds) else int (digits_nat ds)))"

definition rat_trunc :: "rat \<Rightarrow> int" where
  "rat_trunc q = (if 0 \<le> q then \<lfloor>q\<rfloor> else - \<lfloor>- q\<rfloor>)"

fun py_int :: "pyval \<Rightarrow> int res" where
  "py_int (PBool b) = Inr (if b then 1 else 0)"
| "py_int (PInt i) = Inr i"
| "py_int (PFloat s) = (case float_rat s of
      Some q \<Rightarrow> Inr (rat_trunc q)
    | None \<Rightarrow> if s = ''NaN'' then Inl (Exn ValueError ''cannot convert float NaN to integer'')
              else Inl (Exn (OtherException ''OverflowError'') ''cannot convert float infinity to integer''))"
| "py_int (PStr s) = int_of_str s"
| "py_int v = Inl (Exn TypeError
      (''int() argument must be a string, a bytes-like object or a real number, not '' @ quoted (type_name v)))"

text \<open>\<^verbatim>\<open>len(v)\<close>; for a string the number of code points, that is of bytes that start one.\<close>

definition utf8_lead :: "char \<Rightarrow> bool" where
  "utf8_lead c \<longleftrightarrow> (let n = (of_char c :: nat) in n < 128 \<or> 192 \<le> n)"

fun py_len :: "pyval \<Rightarrow> int res" where
  "py_len (PStr s) = Inr (int (length (filter utf8_lead s)))"
| "py_len (PList xs) = Inr (int (length xs))"
| "py_len (PDict d) = Inr (int (length d))"
| "py_len v = Inl (Exn TypeError (''object of type '' @ quoted (type_name v) @ '' has no len()''))"

text \<open>\<^verbatim>\<open>for x in v\<close>: the items a loop over \<open>v\<close> visits.\<close>

function chars_of :: "string \<Rightarrow> string list" where
  "chars_of [] = []"
| "chars_of (c # s) = (c # takeWhile (Not \<circ> utf8_lead) s) # chars_of (dropWhile (Not \<circ> utf8_lead) s)"
  by pat_completeness auto
termination
  by (relation "measure length") (auto simp: le_imp_less_Suc length_dropWhile_le)

fun py_iter :: "pyval \<Rightarrow> pyval list res" where
  "py_iter (PStr s) = Inr (map PStr (chars_of s))"
| "py_iter (PList xs) = Inr xs"
| "py_iter (PDict d) = Inr (map (PStr \<circ> fst) d)"
| "py_iter v = Inl (Exn TypeError (quoted (type_name v) @ '' object is not iterable''))"

text \<open>\<^verbatim>\<open>sep.join(xs)\<close> on values: every item must be a string.\<close>

fun py_join_from :: "nat \<Rightarrow> pyval list \<Rightarrow> string list res" where
  "py_join_from i [] = Inr []"
| "py_join_from i (PStr s # xs) = rbind (py_join_from (Suc i) xs) (\<lambda>ss. Inr (s # ss))"
| "py_join_from i (x # xs) = Inl (Exn TypeError
      (''sequence item '' @ nat_str i @ '': expected str instance, '' @ type_name x @ '' found''))"

definition py_join :: "string \<Rightarrow> pyval list \<Rightarrow> string res" where
  "py_join sep xs = rbind (py_join_from 0 xs) (\<lambda>ss. Inr (join_str sep ss))"

text \<open>\<^verbatim>\<open>frozenset(xs)\<close>: the items in the order met, without repetitions; all must be hashable.\<close>

fun py_set_from :: "pyval list \<Rightarrow> pyval list \<Rightarrow> pyval list res" where
  "py_set_from acc [] = Inr (rev acc)"
| "py_set_from acc (x # xs) =
     rbind (py_hash_in x acc) (\<lambda>b. py_set_from (if b then acc else x # acc) xs)"

definition py_frozenset :: "pyval list \<Rightarrow> pyval list res" where
  "py_frozenset xs = py_set_from [] xs"

section \<open>Facts about the primitives\<close>

lemma py_eq_PStr_iff [simp]:
  "py_eq (PStr s) v \<longleftrightarrow> v = PStr s" "py_eq v (PStr s) \<longleftrightarrow> v = PStr s"
  by (cases v; auto simp: num_eq_def split: option.splits)+

lemma py_eq_PNone_iff [simp]: "py_eq v PNone \<longleftrightarrow> v = PNone" "py_eq PNone v \<longleftrightarrow> v = PNone"
  by (cases v; auto simp: num_eq_def split: option.splits)+

lemma num_eq_PInt [simp]: "num_eq (PInt a) (PInt b) \<longleftrightarrow> a = b"
  by (simp add: num_eq_def)

lemma num_eq_PBool [simp]: "num_eq (PBool a) (PBool b) \<longleftrightarrow> a = b"
  by (simp add: num_eq_def)

lemma py_eq_PBool [simp]: "py_eq (PBool a) (PBool b) \<longleftrightarrow> a = b"
  by (auto simp: num_eq_def)

lemma py_eq_PInt [simp]: "py_eq (PInt a) (PInt b) \<longleftrightarrow> a = b"
  by (auto simp: num_eq_def)

lemma py_hash_in_PStr [simp]: "py_hash_in (PStr s) xs = Inr (PStr s \<in> set xs)"
  by (auto simp: py_hash_in_def)

lemma py_set_from_strs:
  "\<exists>us. py_set_from acc (map PStr ss) = Inr us \<and> set us = set acc \<union> PStr ` set ss \<and>
        (distinct acc \<longrightarrow> distinct us)"
proof (induction ss arbitrary: acc)
  case (Cons s ss)
  let ?acc = "if PStr s \<in> set acc then acc else PStr s # acc"
  from Cons.IH [of ?acc] obtain us where
    "py_set_from ?acc (map PStr ss) = Inr us" "set us = set ?acc \<union> PStr ` set ss"
    "distinct ?acc \<longrightarrow> distinct us"
    by blast
  then show ?case by (auto split: if_splits)
qed simp

lemma py_frozenset_strs:
  obtains us where "py_frozenset (map PStr ss) = Inr us" "set us = PStr ` set ss" "distinct us"
  using py_set_from_strs [of "[]" ss] by (auto simp: py_frozenset_def)

lemma py_set_from_hashable:
  "py_set_from acc xs = Inr us \<Longrightarrow> list_all hashable acc \<Longrightarrow> list_all hashable us"
proof (induction xs arbitrary: acc)
  case (Cons x xs)
  then show ?case by (cases "hashable x") (auto simp: py_hash_in_def split: if_splits)
qed (auto simp: list_all_iff)

end
