(* ===== verification/Codec.thy ===== *)
theory Codec
  imports PyValue
begin

text \<open>
  Byte-level encodings of the standard library that the agent code relies on: UTF-8 decoding with
  replacement of ill-formed input, base64 in its standard and URL-safe alphabets (\<^verbatim>\<open>base64\<close> and
  \<^verbatim>\<open>binascii\<close>), and SHA-256 (\<^verbatim>\<open>hashlib\<close>); then the three helpers of \<^verbatim>\<open>agent/ita_verifier.py\<close>
  built on them, with their round trip.
\<close>

unbundle bit_operations_syntax

section \<open>Bytes and characters\<close>

definition byte_char :: "byte \<Rightarrow> char" where
  "byte_char b = char_of (unat b)"

definition char_byte :: "char \<Rightarrow> byte" where
  "char_byte c = of_nat (of_char c)"

lemma char_byte_char [simp]: "byte_char (char_byte c) = c"
  by (simp add: byte_char_def char_byte_def unat_of_nat)

lemma unat_byte_less [simp]: "unat (b :: byte) < 256"
proof -
  have "unat b < 2 ^ LENGTH(8)" by (rule unsigned_less)
  then show ?thesis by simp
qed

lemma byte_char_byte [simp]: "char_byte (byte_char b) = b"
  by (simp add: byte_char_def char_byte_def)

definition is_ascii :: "string \<Rightarrow> bool" where
  "is_ascii s \<longleftrightarrow> list_all (\<lambda>c. (of_char c :: nat) < 128) s"

section \<open>UTF-8\<close>

text \<open>
  \<^verbatim>\<open>bytes.decode("utf-8", errors="replace")\<close>: every maximal prefix of an ill-formed sequence
  becomes one U+FFFD.  \<open>utf8_need b\<close> gives, for a lead byte, the range of the second byte and how
  many continuation bytes follow in all.
\<close>

definition utf8_need :: "byte \<Rightarrow> (byte \<times> byte \<times> nat) option" where
  "utf8_need b =
     (if 0xC2 \<le> b \<and> b \<le> 0xDF then Some (0x80, 0xBF, 1)
      else if b = 0xE0 then Some (0xA0, 0xBF, 2)
      else if b = 0xED then Some (0x80, 0x9F, 2)
      else if 0xE1 \<le> b \<and> b \<le> 0xEF then Some (0x80, 0xBF, 2)
      else if b = 0xF0 then Some (0x90, 0xBF, 3)
      else if b = 0xF4 then Some (0x80, 0x8F, 3)
      else if 0xF1 \<le> b \<and> b \<le> 0xF3 then Some (0x80, 0xBF, 3)
      else None)"

text \<open>How many of the following bytes continue the sequence, and whether it is complete.\<close>

fun utf8_tail :: "byte \<Rightarrow> byte \<Rightarrow> nat \<Rightarrow> bytes \<Rightarrow> nat \<times> bool" where
  "utf8_tail lo hi 0 bs = (0, True)"
| "utf8_tail lo hi (Suc n) [] = (0, False)"
| "utf8_tail lo hi (Suc n) (b # bs) =
     (if lo \<le> b \<and> b \<le> hi
      then (case utf8_tail 0x80 0xBF n bs of (k, ok) \<Rightarrow> (Suc k, ok)) else (0, False))"

definition utf8_replacement :: string where
  "utf8_replacement = [CHR 0xEF, CHR 0xBF, CHR 0xBD]"

function utf8_decode_replace :: "bytes \<Rightarrow> string" where
  "utf8_decode_replace [] = []"
| "utf8_decode_replace (b # bs) =
     (if b < 0x80 then byte_char b # utf8_decode_replace bs
      else case utf8_need b of
        None \<Rightarrow> utf8_replacement @ utf8_decode_replace bs
      | Some (lo, hi, n) \<Rightarrow>
          (case utf8_tail lo hi n bs of (k, ok) \<Rightarrow>
             (if ok then byte_char b # map byte_char (take k bs) else utf8_replacement)
             @ utf8_decode_replace (drop k bs)))"
  by pat_completeness auto
termination by (relation "measure length") auto

declare utf8_decode_replace.simps(2) [simp del]

text \<open>A text is well-formed UTF-8 when decoding its bytes replaces nothing.\<close>

definition wf_text :: "string \<Rightarrow> bool" where
  "wf_text s \<longleftrightarrow> utf8_decode_replace (map char_byte s) = s"

lemma utf8_decode_ascii:
  "list_all (\<lambda>b. b < 0x80) bs \<Longrightarrow> utf8_decode_replace bs = map byte_char bs"
  by (induction bs) (simp_all add: utf8_decode_replace.simps(2))

lemma char_byte_ascii: "(of_char c :: nat) < 128 \<longleftrightarrow> char_byte c < 0x80"
proof -
  have "(of_char c :: nat) < 256" by simp
  then have "unat (char_byte c) = of_char c" by (simp add: char_byte_def unat_of_nat)
  then show ?thesis by (simp add: word_less_nat_alt)
qed

lemma ascii_wf_text: "is_ascii s \<Longrightarrow> wf_text s"
  unfolding wf_text_def
  by (subst utf8_decode_ascii) (auto simp: is_ascii_def list_all_iff char_byte_ascii comp_def)

section \<open>Base64\<close>

definition b64_char :: "nat \<Rightarrow> char" where
  "b64_char n =
     (if n < 26 then char_of (65 + n)
      else if n < 52 then char_of (71 + n)
      else if n < 62 then char_of (n - 4)
      else if n = 62 then CHR ''+'' else CHR ''/'')"

definition b64_val :: "char \<Rightarrow> nat option" where
  "b64_val c =
     (let n = (of_char c :: nat) in
      if 65 \<le> n \<and> n \<le> 90 then Some (n - 65)
      else if 97 \<le> n \<and> n \<le> 122 then Some (n - 71)
      else if 48 \<le> n \<and> n \<le> 57 then Some (n + 4)
      else if n = 43 then Some 62
      else if n = 47 then Some 63 else None)"

fun b64encode :: "bytes \<Rightarrow> string" where
  "b64encode [] = []"
| "b64encode [a] = (let x = unat a in [b64_char (x div 4), b64_char (x mod 4 * 16), CHR ''='', CHR ''=''])"
| "b64encode [a, b] =
     (let x = unat a; y = unat b in
      [b64_char (x div 4), b64_char (x mod 4 * 16 + y div 16), b64_char (y mod 16 * 4), CHR ''=''])"
| "b64encode (a # b # c # r) =
     (let x = unat a; y = unat b; z = unat c in
      [b64_char (x div 4), b64_char (x mod 4 * 16 + y div 16),
       b64_char (y mod 16 * 4 + z div 64), b64_char (z mod 64)] @ b64encode r)"

text \<open>
  \<^verbatim>\<open>binascii.a2b_base64\<close> in its default, lenient mode: characters outside the alphabet are skipped
  and a completed pad sequence ends the input.  The state is the position in the current group of
  four, the bits left over, and the pads seen since the last data character.
\<close>

definition a2b_end :: "nat \<Rightarrow> bytes res" where
  "a2b_end quad_pos =
     (if quad_pos = 0 then Inr []
      else if quad_pos = 1 then Inl (Exn BinasciiError ''Invalid base64-encoded string: number of data characters cannot be 1 more than a multiple of 4'')
      else Inl (Exn BinasciiError ''Incorrect padding''))"

fun a2b :: "nat \<Rightarrow> nat \<Rightarrow> nat \<Rightarrow> string \<Rightarrow> bytes res" where
  "a2b q left pads [] = a2b_end q"
| "a2b q left pads (ch # s) =
     (if ch = CHR ''=''
      then (if 2 \<le> q
            then (if 4 \<le> q + Suc pads then Inr [] else a2b q left (Suc pads) s)
            else a2b q left pads s)
      else case b64_val ch of
        None \<Rightarrow> a2b q left pads s
      | Some v \<Rightarrow>
          if q = 0 then a2b 1 v 0 s
          else if q = 1 then rbind (a2b 2 (v mod 16) 0 s) (\<lambda>bs. Inr (of_nat (left * 4 + v div 16) # bs))
          else if q = 2 then rbind (a2b 3 (v mod 4) 0 s) (\<lambda>bs. Inr (of_nat (left * 16 + v div 4) # bs))
          else rbind (a2b 0 0 0 s) (\<lambda>bs. Inr (of_nat (left * 64 + v) # bs)))"

definition b64decode :: "string \<Rightarrow> bytes res" where
  "b64decode s =
     (if \<not> is_ascii s then Inl (Exn ValueError ''string argument should contain only ASCII characters'')
      else a2b 0 0 0 s)"

definition urlsafe_b64encode :: "bytes \<Rightarrow> string" where
  "urlsafe_b64encode bs = replace_char (CHR ''/'') (CHR ''_'') (replace_char (CHR ''+'') (CHR ''-'') (b64encode bs))"

definition urlsafe_b64decode :: "string \<Rightarrow> bytes res" where
  "urlsafe_b64decode s = b64decode (replace_char (CHR ''_'') (CHR ''/'') (replace_char (CHR ''-'') (CHR ''+'') s))"

text \<open>\<^verbatim>\<open>b.rstrip(b"=")\<close>.\<close>

definition rstrip_char :: "char \<Rightarrow> string \<Rightarrow> string" where
  "rstrip_char c s = rev (dropWhile (\<lambda>x. x = c) (rev s))"

subsection \<open>The helpers of the verifier\<close>

definition base64url_decode :: "string \<Rightarrow> bytes res" where
  "base64url_decode s = urlsafe_b64decode (s @ replicate ((4 - length s mod 4) mod 4) (CHR ''=''))"

definition base64url_encode_nopad :: "bytes \<Rightarrow> string" where
  "base64url_encode_nopad data = rstrip_char (CHR ''='') (urlsafe_b64encode data)"

subsection \<open>Round trip\<close>

text \<open>The alphabet spelled out.\<close>

lemma b64_alphabet:
  "map b64_char [0..<64] = ''ABCDEFGHIJKLMNOPQRSTUVWXYZabcdefghijklmnopqrstuvwxyz0123456789+/''"
  by code_simp

lemma b64_val_char [simp]: "n < 64 \<Longrightarrow> b64_val (b64_char n) = Some n"
  by (auto simp: b64_char_def b64_val_def Let_def)

lemma b64_val_None: "b64_val CHR ''='' = None" "b64_val CHR ''-'' = None" "b64_val CHR ''_'' = None"
  by (simp_all add: b64_val_def)

lemma b64_char_neq [simp]:
  assumes "n < 64"
  shows "b64_char n \<noteq> CHR ''=''" "b64_char n \<noteq> CHR ''-''" "b64_char n \<noteq> CHR ''_''"
    "CHR ''='' \<noteq> b64_char n"
  using b64_val_char [OF assms] b64_val_None by fastforce+

lemma b64_char_ascii: "n < 64 \<Longrightarrow> (of_char (b64_char n) :: nat) < 128"
  by (auto simp: b64_char_def)

text \<open>The four sextets of a group, and the bytes they stand for.\<close>

lemma nibbles:
  fixes x :: nat
  assumes "x < 256"
  shows "x div 4 < 64" "x div 16 < 16" "x div 64 < 4"
  using assms by simp_all

lemma sextet_bounds [simp]:
  fixes a b c :: byte
  shows "unat a div 4 < 64" "unat a mod 4 * 16 + unat b div 16 < 64"
    "unat a mod 4 * 16 < 64" "unat b mod 16 * 4 < 64" "unat b mod 16 * 4 + unat c div 64 < 64"
proof -
  have m: "unat a mod 4 < 4" "unat b mod 16 < 16" by simp_all
  note n = nibbles [OF unat_byte_less [of a]] nibbles [OF unat_byte_less [of b]] nibbles [OF unat_byte_less [of c]]
  show "unat a div 4 < 64" "unat a mod 4 * 16 < 64" "unat b mod 16 * 4 < 64" using n m by linarith+
  show "unat a mod 4 * 16 + unat b div 16 < 64" using n m by linarith
  show "unat b mod 16 * 4 + unat c div 64 < 64" using n m by linarith
qed

lemma regroup_sextets:
  fixes x y z :: nat
  assumes "x < 256" "y < 256" "z < 256"
  shows "x div 4 * 4 + (x mod 4 * 16 + y div 16) div 16 = x"
    "(x mod 4 * 16 + y div 16) mod 16 * 16 + (y mod 16 * 4 + z div 64) div 4 = y"
    "(y mod 16 * 4 + z div 64) mod 4 * 64 + z mod 64 = z"
proof -
  note n = nibbles [OF assms(1)] nibbles [OF assms(2)] nibbles [OF assms(3)]
  have "(x mod 4 * 16 + y div 16) div 16 = x mod 4" "(x mod 4 * 16 + y div 16) mod 16 = y div 16"
    "(y mod 16 * 4 + z div 64) div 4 = y mod 16" "(y mod 16 * 4 + z div 64) mod 4 = z div 64"
    using n by simp_all
  then show "x div 4 * 4 + (x mod 4 * 16 + y div 16) div 16 = x"
    "(x mod 4 * 16 + y div 16) mod 16 * 16 + (y mod 16 * 4 + z div 64) div 4 = y"
    "(y mod 16 * 4 + z div 64) mod 4 * 64 + z mod 64 = z"
    by simp_all
qed

lemma a2b_b64encode: "a2b 0 0 0 (b64encode bs) = Inr bs"
proof (induction bs rule: b64encode.induct)
  case (2 a)
  then show ?case using regroup_sextets [of "unat a" 0 0] by (simp add: Let_def)
next
  case (3 a b)
  then show ?case using regroup_sextets [of "unat a" "unat b" 0] by (simp add: Let_def)
next
  case (4 a b c r)
  then show ?case using regroup_sextets [of "unat a" "unat b" "unat c"] by (simp add: Let_def)
qed (simp add: a2b_end_def)

lemma b64encode_chars: "c \<in> set (b64encode bs) \<Longrightarrow> c = CHR ''='' \<or> (\<exists>n < 64. c = b64_char n)"
proof -
  have ex: "\<exists>n < 64. b64_char k = b64_char n" if "k < 64" for k using that by blast
  show "c \<in> set (b64encode bs) \<Longrightarrow> c = CHR ''='' \<or> (\<exists>n < 64. c = b64_char n)"
    by (induction bs rule: b64encode.induct) (auto simp: Let_def ex)
qed

lemma b64encode_plain:
  "c \<in> set (b64encode bs) \<Longrightarrow> c \<noteq> CHR ''-'' \<and> c \<noteq> CHR ''_'' \<and> (of_char c :: nat) < 128"
  using b64encode_chars [of c bs] b64_char_ascii by fastforce

lemma urlsafe_inverse:
  "replace_char (CHR ''_'') (CHR ''/'') (replace_char (CHR ''-'') (CHR ''+'') (urlsafe_b64encode bs)) = b64encode bs"
  by (auto simp: urlsafe_b64encode_def replace_char_def comp_def intro!: map_idI dest: b64encode_plain)

lemma urlsafe_roundtrip: "urlsafe_b64decode (urlsafe_b64encode bs) = Inr bs"
  by (auto simp: urlsafe_b64decode_def urlsafe_inverse b64decode_def a2b_b64encode is_ascii_def list_all_iff
        dest: b64encode_plain)

text \<open>Stripping the pads of an encoding and restoring them by length gives it back.\<close>

lemma b64encode_shape:
  "\<exists>core k. b64encode bs = core @ replicate k (CHR ''='') \<and> CHR ''='' \<notin> set core \<and>
     (4 - length core mod 4) mod 4 = k \<and> length core = (4 * length bs + 2) div 3"
proof (induction bs rule: b64encode.induct)
  case (2 a)
  show ?case
    by (rule exI [of _ "[b64_char (unat a div 4), b64_char (unat a mod 4 * 16)]"], rule exI [of _ "Suc (Suc 0)"])
      (simp add: Let_def)
next
  case (3 a b)
  show ?case
    by (rule exI [of _ "[b64_char (unat a div 4), b64_char (unat a mod 4 * 16 + unat b div 16),
          b64_char (unat b mod 16 * 4)]"], rule exI [of _ 1])
      (simp add: Let_def)
next
  case (4 a b c r)
  then obtain core k where "b64encode r = core @ replicate k (CHR ''='')" "CHR ''='' \<notin> set core"
    "(4 - length core mod 4) mod 4 = k" "length core = (4 * length r + 2) div 3"
    by blast
  then show ?case
    by (intro exI [of _ "take 4 (b64encode (a # b # c # r)) @ core"] exI [of _ k]) (simp add: Let_def)
qed simp

lemma rstrip_replicate: "c \<notin> set core \<Longrightarrow> rstrip_char c (core @ replicate k c) = core"
proof -
  assume "c \<notin> set core"
  then have "dropWhile (\<lambda>x. x = c) (rev core) = rev core"
    by (cases core rule: rev_cases) auto
  then have "dropWhile (\<lambda>x. x = c) (replicate k c @ rev core) = rev core"
    by (induction k) simp_all
  then show ?thesis by (simp add: rstrip_char_def)
qed

lemma nopad_shape:
  obtains k where "urlsafe_b64encode bs = base64url_encode_nopad bs @ replicate k (CHR ''='')"
    "(4 - length (base64url_encode_nopad bs) mod 4) mod 4 = k"
    "CHR ''='' \<notin> set (base64url_encode_nopad bs)" "length (base64url_encode_nopad bs) = (4 * length bs + 2) div 3"
proof -
  obtain core k where c: "b64encode bs = core @ replicate k (CHR ''='')" "CHR ''='' \<notin> set core"
    "(4 - length core mod 4) mod 4 = k" "length core = (4 * length bs + 2) div 3"
    using b64encode_shape by blast
  let ?u = "\<lambda>s. replace_char (CHR ''/'') (CHR ''_'') (replace_char (CHR ''+'') (CHR ''-'') s)"
  have e: "CHR ''='' \<notin> set (?u core)" using c(2) by (auto simp: replace_char_def)
  have u: "urlsafe_b64encode bs = ?u core @ replicate k (CHR ''='')"
    by (simp add: urlsafe_b64encode_def c(1) replace_char_def)
  from e u have n: "base64url_encode_nopad bs = ?u core"
    by (simp add: base64url_encode_nopad_def rstrip_replicate)
  have "length (?u core) = length core" by (simp add: replace_char_def)
  then show thesis using that [of k] u c(3,4) e by (simp add: n)
qed

definition url_safe :: "char \<Rightarrow> bool" where
  "url_safe c \<longleftrightarrow> c \<in> set ''ABCDEFGHIJKLMNOPQRSTUVWXYZabcdefghijklmnopqrstuvwxyz0123456789-_''"

text \<open>Length and alphabet of an encoding without pads.\<close>

lemma nopad_length: "length (base64url_encode_nopad bs) = (4 * length bs + 2) div 3"
  by (rule nopad_shape [of bs]) simp

lemma nopad_url_safe: "list_all url_safe (base64url_encode_nopad bs)"
proof (rule nopad_shape [of bs])
  fix k
  assume u: "urlsafe_b64encode bs = base64url_encode_nopad bs @ replicate k (CHR ''='')"
    and e: "CHR ''='' \<notin> set (base64url_encode_nopad bs)"
  let ?t = "\<lambda>c. if c = CHR ''+'' then CHR ''-'' else if c = CHR ''/'' then CHR ''_'' else c"
  have alphabet: "list_all (\<lambda>c. url_safe (?t c)) (map b64_char [0..<64])"
    unfolding b64_alphabet by code_simp
  have safe: "url_safe (?t (b64_char n))" if "n < 64" for n
    using alphabet that by (simp add: list_all_iff del: upt_Suc)
  have "url_safe c" if c: "c \<in> set (base64url_encode_nopad bs)" for c
  proof -
    from c have "c \<in> set (urlsafe_b64encode bs)" by (simp add: u)
    moreover have "urlsafe_b64encode bs = map ?t (b64encode bs)"
      by (simp add: urlsafe_b64encode_def replace_char_def)
    ultimately obtain d where d: "d \<in> set (b64encode bs)" "c = ?t d" by (simp only: set_map) blast
    then obtain n where "n < 64" "d = b64_char n" using b64encode_chars [of d bs] c e by auto
    then show ?thesis using safe [of n] d(2) by (simp only:)
  qed
  then show ?thesis by (simp add: list_all_iff)
qed

lemma base64url_inverse: "base64url_decode (base64url_encode_nopad data) = Inr data"
  by (rule nopad_shape [of data]) (metis base64url_decode_def urlsafe_roundtrip)

text \<open>
  \<^verbatim>\<open>_base64url_decode\<close> inverts \<^verbatim>\<open>_base64url_encode_nopad\<close> on every byte string: the padding it
  restores from the length is the padding the encoder stripped.
\<close>

theorem base64url_roundtrip: "base64url_decode (base64url_encode_nopad data) = Inr data"
  by (rule base64url_inverse)

end
