(* ===== verification/VerifierPolicy.thy ===== *)
theory VerifierPolicy
  imports PyValue
begin

text \<open>
  The attestation policies of \<^verbatim>\<open>agent/verifier_policy.py\<close> and the factory of
  \<^verbatim>\<open>agent/verifier_factory.py\<close>.  The abstract base class is the locale \<open>policy_class\<close>; the two
  subclasses, \<^verbatim>\<open>NoopPolicy\<close> and \<^verbatim>\<open>ItaPolicy\<close>, are interpretations of it.  Python does not check
  the annotations of a dataclass, so the fields that callers fill from JSON hold arbitrary
  values; \<open>ita_typed\<close> says that they have the annotated types.
\<close>

section \<open>Data\<close>

type_synonym env = "string \<Rightarrow> string option"

definition is_test_env :: "env \<Rightarrow> bool" where
  "is_test_env env \<longleftrightarrow> env ''ZTAB_TEST_ENVIRONMENT'' = Some ''1''"

definition MIN_CS_VERSION_DEFAULT :: int where
  "MIN_CS_VERSION_DEFAULT = 260500"

text \<open>The frozenset of digests is the list of its members in iteration order.\<close>

record ita_policy =
  expected_image_digests :: "pyval list"
  expected_project_id :: pyval
  expected_service_account :: pyval
  min_cs_version :: int
  allow_debug :: pyval
  allow_memory_monitoring :: pyval
  clock_skew_seconds :: int

definition ita_default :: ita_policy where
  "ita_default = \<lparr> expected_image_digests = [],
     expected_project_id = PStr [], expected_service_account = PStr [],
     min_cs_version = MIN_CS_VERSION_DEFAULT,
     allow_debug = PBool False, allow_memory_monitoring = PBool False,
     clock_skew_seconds = 300 \<rparr>"

datatype verifier_policy = NoopPolicy | ItaPolicy ita_policy

text \<open>What \<^verbatim>\<open>create_verifier\<close> returns: the callable, with what it closes over.\<close>

datatype verifier = noop_verifier_fn | ita_verifier_fn ita_policy

fun verifier_type :: "verifier_policy \<Rightarrow> string" where
  "verifier_type NoopPolicy = ''noop''"
| "verifier_type (ItaPolicy _) = ''ita''"

section \<open>Validation\<close>

definition noop_validate :: "env \<Rightarrow> unit res" where
  "noop_validate env =
     (if env ''ZTAB_TEST_ENVIRONMENT'' \<noteq> Some ''1''
      then Inl (Exn RuntimeError ''noop verifier forbidden outside ZTAB_TEST_ENVIRONMENT=1.'')
      else Inr ())"

fun check_digest_prefixes :: "pyval list \<Rightarrow> unit res" where
  "check_digest_prefixes [] = Inr ()"
| "check_digest_prefixes (PStr d # ds) =
     (if \<not> startswith d ''sha256:''
      then Inl (Exn ValueError (''Digest '' @ quoted d @ '' does not start with '' @ quoted ''sha256:''
             @ ''. All digests must use the '' @ quoted ''sha256:'' @ '' prefix.''))
      else check_digest_prefixes ds)"
| "check_digest_prefixes (d # ds) = Inl (attribute_error d ''startswith'')"

definition ita_validate :: "env \<Rightarrow> ita_policy \<Rightarrow> unit res" where
  "ita_validate env p =
     (if expected_image_digests p = []
      then Inl (Exn ValueError (''expected_image_digests must contain at least one digest (e.g. ''
             @ quoted ''sha256:...'' @ '').''))
      else rbind (check_digest_prefixes (expected_image_digests p)) (\<lambda>_.
        if min_cs_version p \<le> 0
        then Inl (Exn ValueError (''min_cs_version must be a positive integer (e.g. 260500). Got: ''
               @ int_str (min_cs_version p)))
        else let is_test = (env ''ZTAB_TEST_ENVIRONMENT'' = Some ''1'') in
        if truthy (allow_debug p) \<and> \<not> is_test
        then Inl (Exn RuntimeError ''allow_debug=True forbidden outside ZTAB_TEST_ENVIRONMENT=1.'')
        else if truthy (allow_memory_monitoring p) \<and> \<not> is_test
        then Inl (Exn RuntimeError
               ''allow_memory_monitoring=True forbidden outside ZTAB_TEST_ENVIRONMENT=1.'')
        else Inr ()))"

fun validate :: "env \<Rightarrow> verifier_policy \<Rightarrow> unit res" where
  "validate env NoopPolicy = noop_validate env"
| "validate env (ItaPolicy p) = ita_validate env p"

fun create_verifier :: "verifier_policy \<Rightarrow> verifier" where
  "create_verifier NoopPolicy = noop_verifier_fn"
| "create_verifier (ItaPolicy p) = ita_verifier_fn p"

definition get_verifier :: "env \<Rightarrow> verifier_policy \<Rightarrow> verifier res" where
  "get_verifier env policy = rbind (validate env policy) (\<lambda>_. Inr (create_verifier policy))"

section \<open>Serialisation\<close>

text \<open>
  \<^verbatim>\<open>sorted(xs)\<close>: strings among themselves, numbers among themselves, the infinities at the ends;
  anything else that has to be compared is a \<^verbatim>\<open>TypeError\<close> (whose text names two operands the
  sorting happened to meet).  \<^verbatim>\<open>nan\<close>, which no comparison places, is put last.
\<close>

fun str_of :: "pyval \<Rightarrow> string" where
  "str_of (PStr s) = s"
| "str_of _ = []"

fun is_num :: "pyval \<Rightarrow> bool" where
  "is_num (PBool _) = True"
| "is_num (PInt _) = True"
| "is_num (PFloat _) = True"
| "is_num _ = False"

definition sort_numbers :: "pyval list \<Rightarrow> pyval list" where
  "sort_numbers xs = filter (\<lambda>x. x = PFloat ''-Infinity'') xs @ sort_key (the \<circ> py_num) (filter (\<lambda>x. py_num x \<noteq> None) xs)
     @ filter (\<lambda>x. x = PFloat ''Infinity'') xs @ filter (\<lambda>x. x = PFloat ''NaN'') xs"

definition py_sorted :: "pyval list \<Rightarrow> pyval list res" where
  "py_sorted xs =
     (if list_all is_str xs then Inr (map PStr (sort (map str_of xs)))
      else if length xs \<le> 1 then Inr xs
      else if list_all is_num xs then Inr (sort_numbers xs)
      else Inl (Exn TypeError (quoted ''<'' @ '' not supported between instances'')))"

text \<open>The fields after \<^verbatim>\<open>expected_image_digests\<close>, in the order the dataclass declares them.\<close>

definition ita_fields :: "ita_policy \<Rightarrow> pydict" where
  "ita_fields p =
     [(''expected_project_id'', expected_project_id p),
      (''expected_service_account'', expected_service_account p),
      (''min_cs_version'', PInt (min_cs_version p)),
      (''allow_debug'', allow_debug p),
      (''allow_memory_monitoring'', allow_memory_monitoring p),
      (''clock_skew_seconds'', PInt (clock_skew_seconds p))]"

definition noop_to_dict :: "pydict res" where
  "noop_to_dict = Inr [(''verifier_type'', PStr ''noop'')]"

definition ita_to_dict :: "ita_policy \<Rightarrow> pydict res" where
  "ita_to_dict p = rbind (py_sorted (expected_image_digests p)) (\<lambda>ds.
     Inr ([(''verifier_type'', PStr ''ita''), (''expected_image_digests'', PList ds)]
          @ map fst (filter (\<lambda>((k, v), (k', d)). \<not> py_eq v d)
                        (zip (ita_fields p) (ita_fields ita_default)))))"

fun to_dict :: "verifier_policy \<Rightarrow> pydict res" where
  "to_dict NoopPolicy = noop_to_dict"
| "to_dict (ItaPolicy p) = ita_to_dict p"

definition noop_from_dict :: "pyval \<Rightarrow> unit res" where
  "noop_from_dict d = Inr ()"

definition INT_FIELDS :: "string list" where
  "INT_FIELDS = [''min_cs_version'', ''clock_skew_seconds'']"

text \<open>One keyword argument of the constructor.\<close>

definition ita_set_field :: "string \<Rightarrow> pyval \<Rightarrow> ita_policy \<Rightarrow> ita_policy" where
  "ita_set_field k v p =
     (if k = ''expected_project_id'' then p\<lparr>expected_project_id := v\<rparr>
      else if k = ''expected_service_account'' then p\<lparr>expected_service_account := v\<rparr>
      else if k = ''allow_debug'' then p\<lparr>allow_debug := v\<rparr>
      else if k = ''allow_memory_monitoring'' then p\<lparr>allow_memory_monitoring := v\<rparr>
      else case v of
        PInt i \<Rightarrow> if k = ''min_cs_version'' then p\<lparr>min_cs_version := i\<rparr>
                  else if k = ''clock_skew_seconds'' then p\<lparr>clock_skew_seconds := i\<rparr> else p
      | _ \<Rightarrow> p)"

fun ita_read_fields :: "pydict \<Rightarrow> string list \<Rightarrow> ita_policy \<Rightarrow> ita_policy res" where
  "ita_read_fields d [] p = Inr p"
| "ita_read_fields d (k # ks) p =
     (case map_of d k of
        None \<Rightarrow> ita_read_fields d ks p
      | Some val \<Rightarrow>
          if k \<in> set INT_FIELDS
          then (if val = PNone \<or> py_eq val (PStr []) then ita_read_fields d ks p
                else rbind (py_int val) (\<lambda>i. ita_read_fields d ks (ita_set_field k (PInt i) p)))
          else ita_read_fields d ks (ita_set_field k val p))"

fun ita_from_dict :: "pyval \<Rightarrow> ita_policy res" where
  "ita_from_dict (PDict d) =
     (let digests = (case map_of d ''expected_image_digests'' of None \<Rightarrow> PList [] | Some v \<Rightarrow> v) in
      rbind (py_iter (if is_str digests then PList [digests] else digests)) (\<lambda>xs.
      rbind (py_frozenset xs) (\<lambda>ds.
        ita_read_fields d (map fst (ita_fields ita_default)) (ita_default\<lparr>expected_image_digests := ds\<rparr>))))"
| "ita_from_dict v = Inl (attribute_error v ''get'')"

definition policy_registry :: "string list" where
  "policy_registry = [''noop'', ''ita'']"

definition policy_from_dict :: "pyval \<Rightarrow> verifier_policy res" where
  "policy_from_dict d =
     rbind (py_get d ''verifier_type'' (PStr [])) (\<lambda>vtype.
     rbind (py_hash_in vtype (map PStr policy_registry)) (\<lambda>known.
     if \<not> known
     then Inl (Exn ValueError (''Unknown verifier_type '' @ quoted (py_str vtype) @ ''. Known types: ''
            @ py_repr (PList (map PStr (sort policy_registry)))))
     else if vtype = PStr ''noop'' then rbind (noop_from_dict d) (\<lambda>_. Inr NoopPolicy)
     else rbind (ita_from_dict d) (\<lambda>p. Inr (ItaPolicy p))))"

text \<open>Dataclass equality: field by field, the digests as a set.\<close>

definition ita_eq :: "ita_policy \<Rightarrow> ita_policy \<Rightarrow> bool" where
  "ita_eq p q \<longleftrightarrow> set (expected_image_digests p) = set (expected_image_digests q) \<and>
     p\<lparr>expected_image_digests := []\<rparr> = q\<lparr>expected_image_digests := []\<rparr>"

fun policy_eq :: "verifier_policy \<Rightarrow> verifier_policy \<Rightarrow> bool" where
  "policy_eq NoopPolicy NoopPolicy = True"
| "policy_eq (ItaPolicy p) (ItaPolicy q) = ita_eq p q"
| "policy_eq _ _ = False"

fun is_bool :: "pyval \<Rightarrow> bool" where
  "is_bool (PBool _) = True"
| "is_bool _ = False"

definition ita_typed :: "ita_policy \<Rightarrow> bool" where
  "ita_typed p \<longleftrightarrow> list_all is_str (expected_image_digests p) \<and>
     is_str (expected_project_id p) \<and> is_str (expected_service_account p) \<and>
     is_bool (allow_debug p) \<and> is_bool (allow_memory_monitoring p)"

text \<open>The bypasses that only a test environment may use.\<close>

definition ita_bypasses :: "ita_policy \<Rightarrow> bool" where
  "ita_bypasses p \<longleftrightarrow> truthy (allow_debug p) \<or> truthy (allow_memory_monitoring p)"

fun policy_unsafe :: "verifier_policy \<Rightarrow> bool" where
  "policy_unsafe NoopPolicy = True"
| "policy_unsafe (ItaPolicy p) = ita_bypasses p"

section \<open>The policy interface\<close>

text \<open>
  What every subclass of the abstract base class owes its callers: validation lets an unsafe
  policy through in a test environment only, the serialised form carries the type that selects
  the class when it is read back, and reading back what was written gives an equal policy.
\<close>

locale policy_class =
  fixes vtype :: string
    and validate_p :: "env \<Rightarrow> 'p \<Rightarrow> unit res"
    and to_dict_p :: "'p \<Rightarrow> pydict res"
    and from_dict_p :: "pyval \<Rightarrow> 'p res"
    and typed_p :: "'p \<Rightarrow> bool"
    and eq_p :: "'p \<Rightarrow> 'p \<Rightarrow> bool"
    and unsafe_p :: "'p \<Rightarrow> bool"
  assumes gate: "validate_p env p = Inr () \<Longrightarrow> unsafe_p p \<Longrightarrow> is_test_env env"
    and tagged: "to_dict_p p = Inr d \<Longrightarrow> map_of d ''verifier_type'' = Some (PStr vtype)"
    and roundtrip: "typed_p p \<Longrightarrow> \<exists>d q. to_dict_p p = Inr d \<and> from_dict_p (PDict d) = Inr q \<and> eq_p q p"
begin

lemma validated_safe: "validate_p env p = Inr () \<Longrightarrow> \<not> is_test_env env \<Longrightarrow> \<not> unsafe_p p"
  using gate by blast

lemma tagged_roundtrip:
  assumes "typed_p p"
  obtains d q where "to_dict_p p = Inr d" "map_of d ''verifier_type'' = Some (PStr vtype)"
    "from_dict_p (PDict d) = Inr q" "eq_p q p"
  using roundtrip [OF assms] tagged by blast

end

interpretation noop_class: policy_class "''noop''" "\<lambda>env (_ :: unit). noop_validate env"
  "\<lambda>_. noop_to_dict" noop_from_dict "\<lambda>_. True" "(=)" "\<lambda>_. True"
  by unfold_locales
    (auto simp: noop_validate_def is_test_env_def noop_to_dict_def noop_from_dict_def split: if_splits)

lemma check_digest_prefixes_ok:
  "check_digest_prefixes ds = Inr u \<longleftrightarrow> (\<forall>d \<in> set ds. \<exists>s. d = PStr s \<and> startswith s ''sha256:'')"
  by (induction ds rule: check_digest_prefixes.induct) auto

lemma ita_validate_iff:
  "ita_validate env p = Inr () \<longleftrightarrow>
     expected_image_digests p \<noteq> [] \<and>
     (\<forall>d \<in> set (expected_image_digests p). \<exists>s. d = PStr s \<and> startswith s ''sha256:'') \<and>
     0 < min_cs_version p \<and> (ita_bypasses p \<longrightarrow> is_test_env env)"
proof (cases "check_digest_prefixes (expected_image_digests p)")
  case (Inl e)
  then have "\<not> (\<forall>d \<in> set (expected_image_digests p). \<exists>s. d = PStr s \<and> startswith s ''sha256:'')"
    using check_digest_prefixes_ok [of "expected_image_digests p"] by (metis Inl_Inr_False)
  with Inl show ?thesis by (auto simp: ita_validate_def)
next
  case (Inr u)
  then show ?thesis
    by (auto simp: ita_validate_def Let_def ita_bypasses_def is_test_env_def
        check_digest_prefixes_ok [of _ u, THEN iffD1])
qed

lemma ita_to_dict_tagged:
  "ita_to_dict p = Inr d \<Longrightarrow> map_of d ''verifier_type'' = Some (PStr ''ita'')"
  by (auto simp: ita_to_dict_def)

lemma py_sorted_strs:
  "list_all is_str xs \<Longrightarrow> \<exists>ss. py_sorted xs = Inr (map PStr ss) \<and> PStr ` set ss = set xs"
proof -
  assume a: "list_all is_str xs"
  then have "PStr (str_of x) = x" if "x \<in> set xs" for x
    using that by (cases x) (auto simp: list_all_iff)
  then have "PStr ` set (sort (map str_of xs)) = set xs"
    by (force simp: image_image)
  with a show ?thesis by (intro exI [of _ "sort (map str_of xs)"]) (simp add: py_sorted_def)
qed

text \<open>Looking a field up among those that differ from their default.\<close>

lemma map_of_changed_fields:
  "map fst xs = map fst ys \<Longrightarrow> distinct (map fst xs) \<Longrightarrow>
   map_of (map fst (filter (\<lambda>((k, v), (k', d)). \<not> py_eq v d) (zip xs ys))) k =
     (case (map_of xs k, map_of ys k) of
        (Some v, Some d) \<Rightarrow> if py_eq v d then None else Some v
      | _ \<Rightarrow> None)"
proof (induction xs arbitrary: ys)
  case (Cons x xs)
  obtain a v where x: "x = (a, v)" by (cases x)
  from Cons.prems obtain d zs where ys: "ys = (a, d) # zs" "map fst xs = map fst zs"
    by (cases ys) (auto simp: x)
  from Cons ys x have IH: "map_of (map fst (filter (\<lambda>((k, v), (k', d)). \<not> py_eq v d) (zip xs zs))) k =
     (case (map_of xs k, map_of zs k) of
        (Some v, Some d) \<Rightarrow> if py_eq v d then None else Some v | _ \<Rightarrow> None)"
    by simp
  have "map_of xs a = None" using Cons.prems(2) x by (simp add: map_of_eq_None_iff)
  with IH show ?case by (auto simp: x ys)
qed simp

lemma ita_fields_keys: "map fst (ita_fields p) = map fst (ita_fields q)" "distinct (map fst (ita_fields p))"
  by (simp_all add: ita_fields_def)

lemma ita_fields_other [simp]:
  "(''verifier_type'', v) \<notin> set (ita_fields p)" "(''expected_image_digests'', v) \<notin> set (ita_fields p)"
  by (simp_all add: ita_fields_def)

text \<open>Reading the optional fields back: the ones left out have their default value.\<close>

lemma ita_read_fields_roundtrip:
  assumes t: "ita_typed p"
    and m: "\<And>k. k \<in> set (map fst (ita_fields ita_default)) \<Longrightarrow> map_of d k =
       (case (map_of (ita_fields p) k, map_of (ita_fields ita_default) k) of
          (Some v, Some d) \<Rightarrow> if py_eq v d then None else Some v | _ \<Rightarrow> None)"
  shows "ita_read_fields d (map fst (ita_fields ita_default)) (ita_default\<lparr>expected_image_digests := us\<rparr>)
       = Inr (p\<lparr>expected_image_digests := us\<rparr>)"
proof -
  obtain a b x y where f: "expected_project_id p = PStr a" "expected_service_account p = PStr b"
    "allow_debug p = PBool x" "allow_memory_monitoring p = PBool y"
    using t by (auto simp: ita_typed_def elim!: is_str.elims is_bool.elims)
  note looked_up =
    m [of "''expected_project_id''"] m [of "''expected_service_account''"] m [of "''min_cs_version''"]
    m [of "''allow_debug''"] m [of "''allow_memory_monitoring''"] m [of "''clock_skew_seconds''"]
  show ?thesis
    using f looked_up by (cases p) (simp add: ita_fields_def ita_default_def INT_FIELDS_def ita_set_field_def)
qed

interpretation ita_class: policy_class "''ita''" ita_validate ita_to_dict ita_from_dict ita_typed ita_eq
  ita_bypasses
proof (unfold_locales, goal_cases)
  case (1 env p)
  then show ?case by (simp add: ita_validate_iff)
next
  case (2 p d)
  then show ?case by (rule ita_to_dict_tagged)
next
  case (3 p)
  then obtain ss where ss: "py_sorted (expected_image_digests p) = Inr (map PStr ss)"
    "PStr ` set ss = set (expected_image_digests p)"
    using py_sorted_strs [of "expected_image_digests p"] by (auto simp: ita_typed_def)
  obtain us where us: "py_frozenset (map PStr ss) = Inr us" "set us = PStr ` set ss"
    by (rule py_frozenset_strs)
  show ?case
    using ss us
    by (auto simp: ita_to_dict_def ita_eq_def ita_fields_keys map_of_changed_fields
          intro!: exI [of _ "p\<lparr>expected_image_digests := us\<rparr>"] ita_read_fields_roundtrip [OF 3])
qed

section \<open>Properties\<close>

lemma get_verifier_Inr:
  "get_verifier env p = Inr v \<longleftrightarrow> validate env p = Inr () \<and> v = create_verifier p"
  by (auto simp: get_verifier_def)

text \<open>
  C9.  Outside a test environment the factory hands out no verifier but an ITA verifier with at
  least one pinned container digest (each a \<^verbatim>\<open>sha256:\<close> string), a positive version floor and
  neither of the two bypasses: no caller can obtain the no-op verifier or a debug-tolerant one
  in production.
\<close>

theorem get_verifier_production:
  assumes "get_verifier env p = Inr v" and "\<not> is_test_env env"
  shows "\<exists>q. p = ItaPolicy q \<and> v = ita_verifier_fn q \<and> expected_image_digests q \<noteq> [] \<and>
    (\<forall>d \<in> set (expected_image_digests q). \<exists>s. d = PStr s \<and> startswith s ''sha256:'') \<and>
    0 < min_cs_version q \<and> \<not> truthy (allow_debug q) \<and> \<not> truthy (allow_memory_monitoring q)"
proof (cases p)
  case NoopPolicy
  with assms show ?thesis using noop_class.validated_safe [of env] by (simp add: get_verifier_Inr)
next
  case (ItaPolicy q)
  with assms have "ita_validate env q = Inr ()" by (simp add: get_verifier_Inr)
  with ita_class.validated_safe [OF _ assms(2)] ItaPolicy assms(1) show ?thesis
    by (auto simp: get_verifier_Inr ita_validate_iff ita_bypasses_def)
qed

theorem get_verifier_production_witness:
  "\<exists>q. ItaPolicy (ita_default\<lparr>expected_image_digests := [PStr ''sha256:ab'']\<rparr>) = ItaPolicy q \<and>
    ita_verifier_fn (ita_default\<lparr>expected_image_digests := [PStr ''sha256:ab'']\<rparr>) = ita_verifier_fn q \<and>
    expected_image_digests q \<noteq> [] \<and>
    (\<forall>d \<in> set (expected_image_digests q). \<exists>s. d = PStr s \<and> startswith s ''sha256:'') \<and>
    0 < min_cs_version q \<and> \<not> truthy (allow_debug q) \<and> \<not> truthy (allow_memory_monitoring q)"
proof (rule get_verifier_production [of "\<lambda>_. None"])
  show "get_verifier (\<lambda>_. None) (ItaPolicy (ita_default\<lparr>expected_image_digests := [PStr ''sha256:ab'']\<rparr>)) =
     Inr (ita_verifier_fn (ita_default\<lparr>expected_image_digests := [PStr ''sha256:ab'']\<rparr>))"
    by (simp add: get_verifier_def ita_validate_def ita_default_def startswith_def MIN_CS_VERSION_DEFAULT_def)
  show "\<not> is_test_env (\<lambda>_. None)" by (simp add: is_test_env_def)
qed

text \<open>
  Exactly which policies validate: the no-op policy in a test environment; an ITA policy
  that pins at least one digest, all of them strings with the \<^verbatim>\<open>sha256:\<close> prefix, has a positive
  version floor, and uses a bypass in a test environment at most.
\<close>

theorem validate_iff:
  "validate env p = Inr () \<longleftrightarrow>
    (case p of
       NoopPolicy \<Rightarrow> is_test_env env
     | ItaPolicy q \<Rightarrow> expected_image_digests q \<noteq> [] \<and>
         list_all (\<lambda>d. is_str d \<and> startswith (str_of d) ''sha256:'') (expected_image_digests q) \<and>
         min_cs_version q > 0 \<and> (if ita_bypasses q then is_test_env env else True))"
proof (cases p)
  case NoopPolicy
  then show ?thesis by (auto simp: noop_validate_def is_test_env_def)
next
  case (ItaPolicy q)
  have "(\<exists>s. d = PStr s \<and> startswith s ''sha256:'') \<longleftrightarrow> is_str d \<and> startswith (str_of d) ''sha256:''" for d
    by (cases d) auto
  with ItaPolicy show ?thesis by (auto simp: ita_validate_iff list_all_iff)
qed

text \<open>
  C31.  Writing a policy with \<^verbatim>\<open>to_dict\<close> and reading it with \<^verbatim>\<open>VerifierPolicy.from_dict\<close> gives an
  equal policy of the same class, for every policy whose fields have their annotated types.
\<close>

theorem policy_dict_roundtrip:
  assumes "case p of NoopPolicy \<Rightarrow> True | ItaPolicy q \<Rightarrow> ita_typed q"
  shows "\<exists>d q. to_dict p = Inr d \<and> policy_from_dict (PDict d) = Inr q \<and> policy_eq q p"
proof (cases p)
  case NoopPolicy
  then have "policy_from_dict (PDict [(''verifier_type'', PStr ''noop'')]) = Inr NoopPolicy"
    by (simp add: noop_from_dict_def policy_from_dict_def policy_registry_def)
  with NoopPolicy show ?thesis by (auto simp: noop_to_dict_def)
next
  case (ItaPolicy q)
  with assms obtain d r where "ita_to_dict q = Inr d" "map_of d ''verifier_type'' = Some (PStr ''ita'')"
    "ita_from_dict (PDict d) = Inr r" "ita_eq r q"
    using ita_class.tagged_roundtrip by auto
  moreover from this have "policy_from_dict (PDict d) = Inr (ItaPolicy r)"
    by (simp add: policy_from_dict_def policy_registry_def del: ita_from_dict.simps)
  ultimately show ?thesis using ItaPolicy by auto
qed

theorem policy_dict_roundtrip_witness:
  "\<exists>d q. to_dict (ItaPolicy (ita_default\<lparr>expected_image_digests := [PStr ''sha256:b'', PStr ''sha256:a''],
       allow_debug := PBool True, min_cs_version := 7\<rparr>)) = Inr d \<and> policy_from_dict (PDict d) = Inr q \<and>
     policy_eq q (ItaPolicy (ita_default\<lparr>expected_image_digests := [PStr ''sha256:b'', PStr ''sha256:a''],
       allow_debug := PBool True, min_cs_version := 7\<rparr>))"
  by (rule policy_dict_roundtrip) (simp add: ita_typed_def ita_default_def)

text \<open>
  \<^verbatim>\<open>from_dict\<close> reads a policy of the class its \<^verbatim>\<open>verifier_type\<close> names, and for every other
  string raises a \<^verbatim>\<open>ValueError\<close>; a missing tag counts as the empty string.
\<close>

theorem policy_from_dict_dispatch:
  assumes "map_of kvs ''verifier_type'' = Some (PStr t)"
  shows "case policy_from_dict (PDict kvs) of
      Inr p \<Rightarrow> t \<in> {''noop'', ''ita''} \<and> verifier_type p = t
    | Inl e \<Rightarrow> t \<in> {''noop'', ''ita''} \<or> exn_kind e = ValueError"
  using assms by (auto simp: policy_from_dict_def policy_registry_def noop_from_dict_def rbind_def split: sum.splits)

theorem policy_from_dict_dispatch_witness:
  "case policy_from_dict (PDict [(''verifier_type'', PStr ''gca'')]) of
      Inr p \<Rightarrow> ''gca'' \<in> {''noop'', ''ita''} \<and> verifier_type p = ''gca''
    | Inl e \<Rightarrow> ''gca'' \<in> {''noop'', ''ita''} \<or> exn_kind e = ValueError"
  by (rule policy_from_dict_dispatch) simp

end
