(* ===== verification/World.thy ===== *)
theory World
  imports VerifierPolicy
begin

text \<open>
  The surroundings of the agent process.  A \<open>world\<close> holds the environment variables, the answers
  the outside gives (clock, web, TLS peers, broker RPCs, files, random identifiers), each indexed
  by the number of interactions so far, so that two questions asked at different times may be
  answered differently, and what the process has done: the lines it printed, the gRPC channels
  it opened, its network actions in order.  The module-level JWKS cache of
  \<^verbatim>\<open>agent/ita_verifier.py\<close> is part of it.  The generated protobuf messages are the datatypes of
  \<^verbatim>\<open>tee/session_manager.proto\<close>.

  Third-party packages (PyJWT, cryptography, the protobuf runtime) are the fields of \<open>ext\<close>, an
  argument of every definition that calls them.
\<close>

section \<open>Messages\<close>

record session_policy =
  sp_class :: string
  sp_input_schema :: string
  sp_output_schema :: string
  sp_participants :: int
  sp_timeout :: int

text \<open>Enums are open in proto3: a response may carry a number without a name.\<close>

definition SESSION_STATES :: "(int \<times> string) list" where
  "SESSION_STATES = [(0, ''SESSION_STATE_UNSPECIFIED''), (1, ''OPEN''), (2, ''SEALED''),
     (3, ''CALCULATING''), (4, ''CLOSED''), (5, ''ABORTED'')]"

definition SESSION_ERRORS :: "(int \<times> string) list" where
  "SESSION_ERRORS = [(0, ''SESSION_ERROR_UNSPECIFIED''), (1, ''SESSION_NOT_FOUND''), (2, ''SESSION_FULL''),
     (3, ''SESSION_SEALED''), (4, ''INPUT_SCHEMA_VIOLATION''), (5, ''JOIN_TIMEOUT''), (6, ''INPUT_TIMEOUT''),
     (7, ''LLM_GENERATION_FAILED''), (8, ''OUTPUT_LEAKAGE_DETECTED''), (9, ''OUTPUT_SCHEMA_VIOLATION''),
     (10, ''RESOURCE_EXHAUSTED''), (11, ''INVALID_PARTICIPANT_TOKEN'')]"

abbreviation SEALED :: int where "SEALED \<equiv> 2"
abbreviation CLOSED :: int where "CLOSED \<equiv> 4"
abbreviation ABORTED :: int where "ABORTED \<equiv> 5"

definition enum_name :: "string \<Rightarrow> (int \<times> string) list \<Rightarrow> int \<Rightarrow> string res" where
  "enum_name ty names i = (case map_of names i of
      Some s \<Rightarrow> Inr s
    | None \<Rightarrow> Inl (Exn ValueError (''Enum '' @ ty @ '' has no name defined for value '' @ int_str i)))"

abbreviation SessionState_Name :: "int \<Rightarrow> string res" where
  "SessionState_Name \<equiv> enum_name ''SessionState'' SESSION_STATES"

abbreviation SessionError_Name :: "int \<Rightarrow> string res" where
  "SessionError_Name \<equiv> enum_name ''SessionError'' SESSION_ERRORS"

text \<open>The name of a gRPC status code.\<close>

fun status_name :: "grpc_status \<Rightarrow> string" where
  "status_name OK = ''OK''"
| "status_name CANCELLED = ''CANCELLED''"
| "status_name UNKNOWN = ''UNKNOWN''"
| "status_name INVALID_ARGUMENT = ''INVALID_ARGUMENT''"
| "status_name DEADLINE_EXCEEDED = ''DEADLINE_EXCEEDED''"
| "status_name NOT_FOUND = ''NOT_FOUND''"
| "status_name ALREADY_EXISTS = ''ALREADY_EXISTS''"
| "status_name PERMISSION_DENIED = ''PERMISSION_DENIED''"
| "status_name RESOURCE_EXHAUSTED = ''RESOURCE_EXHAUSTED''"
| "status_name FAILED_PRECONDITION = ''FAILED_PRECONDITION''"
| "status_name ABORTED_STATUS = ''ABORTED''"
| "status_name OUT_OF_RANGE = ''OUT_OF_RANGE''"
| "status_name UNIMPLEMENTED = ''UNIMPLEMENTED''"
| "status_name INTERNAL = ''INTERNAL''"
| "status_name UNAVAILABLE = ''UNAVAILABLE''"
| "status_name DATA_LOSS = ''DATA_LOSS''"
| "status_name UNAUTHENTICATED = ''UNAUTHENTICATED''"

record create_response =
  cr_invitation :: string
  cr_state :: int
  cr_token :: string

record join_response =
  jr_state :: int
  jr_policy :: session_policy
  jr_token :: string

record submit_response =
  sr_state :: int
  sr_remaining :: int

record result_response =
  rr_state :: int
  rr_json :: string
  rr_error :: int
  rr_detail :: string

record status_response =
  st_state :: int
  st_joined :: int
  st_accepted :: int
  st_inputs :: int

datatype rpc_request =
    EchoRequest string
  | CreateSessionRequest session_policy string
  | JoinSessionRequest string string string
  | AcceptPolicyRequest string
  | SubmitInputRequest string string
  | GetResultRequest string
  | GetSessionStatusRequest string

type_synonym metadata = "(string \<times> pyval) list option"

section \<open>Channels, output, events\<close>

record grpc_chan =
  gc_target :: string
  gc_root :: bytes
  gc_override :: string
  gc_open :: bool

datatype stream = Stdout | Stderr

text \<open>
  The trace: requests to the outside, channels opened and closed, and each return of an
  attestation verifier called by the client, with the token and certificate it was given and
  its answer.
\<close>

datatype event =
    HttpGet string
  | TlsConnect pyval int
  | VerifierReturned verifier string bytes bool
  | ChannelOpened nat
  | ChannelClosed nat
  | RpcSent nat rpc_request metadata

text \<open>What a broker answers to each method; the request has passed the message constructor.\<close>

record broker =
  b_echo :: "string \<Rightarrow> string res"
  b_create :: "metadata \<Rightarrow> session_policy \<Rightarrow> string \<Rightarrow> create_response res"
  b_join :: "string \<Rightarrow> string \<Rightarrow> string \<Rightarrow> join_response res"
  b_accept :: "string \<Rightarrow> int res"
  b_submit :: "string \<Rightarrow> string \<Rightarrow> submit_response res"
  b_result :: "string \<Rightarrow> result_response res"
  b_status :: "string \<Rightarrow> status_response res"

record world =
  w_env :: env
  w_tick :: nat
  w_clock :: "nat \<Rightarrow> rat"
  w_http :: "nat \<Rightarrow> string \<Rightarrow> bytes res"
  w_tls :: "nat \<Rightarrow> pyval \<Rightarrow> int \<Rightarrow> bytes option res"
  w_broker :: "nat \<Rightarrow> grpc_chan \<Rightarrow> broker"
  w_stat :: "nat \<Rightarrow> string \<Rightarrow> int res"
  w_file :: "nat \<Rightarrow> string \<Rightarrow> string res"
  w_uuid :: "nat \<Rightarrow> string"
  w_sys_stdout :: stream
  w_out :: "(stream \<times> string) list"
  w_events :: "event list"
  w_chans :: "grpc_chan list"
  jwks_data :: "pyval option"
  jwks_timestamp :: rat

section \<open>Third-party packages\<close>

text \<open>
  \<^item> \<open>pem_extension\<close>: loading a PEM certificate and looking up an extension by its object identifier;
    \<open>None\<close> is \<^verbatim>\<open>ExtensionNotFound\<close>;
  \<^item> \<open>pem_spki\<close>: the DER encoding of a PEM certificate's SubjectPublicKeyInfo;
  \<^item> \<open>der_to_pem\<close>, \<open>der_validity\<close>: a DER certificate as PEM, and its validity dates as text;
  \<^item> \<open>jwks_from_dict\<close>: \<^verbatim>\<open>PyJWKSet.from_dict(d).keys\<close> as pairs of \<^verbatim>\<open>key_id\<close> and key;
  \<^item> \<open>jwt_header\<close>: \<^verbatim>\<open>jwt.get_unverified_header\<close>;
  \<^item> \<open>jwt_decode\<close>: \<^verbatim>\<open>jwt.decode\<close> with the accepted algorithms, the audience and the leeway, at a time;
  \<^item> \<open>pb_string\<close>, \<open>pb_int32\<close>: what a message constructor makes of a value for a \<^verbatim>\<open>string\<close> or \<^verbatim>\<open>int32\<close> field.
\<close>

record ext =
  pem_extension :: "bytes \<Rightarrow> string \<Rightarrow> bytes option res"
  pem_spki :: "bytes \<Rightarrow> bytes res"
  der_to_pem :: "bytes \<Rightarrow> bytes res"
  der_validity :: "bytes \<Rightarrow> (string \<times> string) res"
  jwks_from_dict :: "pyval \<Rightarrow> (pyval \<times> pyval) list res"
  jwt_header :: "string \<Rightarrow> pyval res"
  jwt_decode :: "string \<Rightarrow> pyval \<Rightarrow> string list \<Rightarrow> string \<Rightarrow> int \<Rightarrow> rat \<Rightarrow> pyval res"
  pb_string :: "pyval \<Rightarrow> string res"
  pb_int32 :: "pyval \<Rightarrow> int res"

section \<open>Surroundings that refuse everything\<close>

text \<open>The starting point of the concrete instances below: no package answers, nothing is reachable.\<close>

definition refused :: exn where
  "refused = Exn (OtherException ''ConnectionRefusedError'') ''refused''"

definition null_ext :: ext where
  "null_ext = \<lparr>pem_extension = \<lambda>_ _. Inl refused, pem_spki = \<lambda>_. Inl refused, der_to_pem = \<lambda>_. Inl refused,
     der_validity = \<lambda>_. Inl refused, jwks_from_dict = \<lambda>_. Inl refused, jwt_header = \<lambda>_. Inl refused,
     jwt_decode = \<lambda>_ _ _ _ _ _. Inl refused, pb_string = \<lambda>_. Inl refused, pb_int32 = \<lambda>_. Inl refused\<rparr>"

definition null_broker :: broker where
  "null_broker = \<lparr>b_echo = \<lambda>_. Inl refused, b_create = \<lambda>_ _ _. Inl refused, b_join = \<lambda>_ _ _. Inl refused,
     b_accept = \<lambda>_. Inl refused, b_submit = \<lambda>_ _. Inl refused, b_result = \<lambda>_. Inl refused,
     b_status = \<lambda>_. Inl refused\<rparr>"

definition null_world :: world where
  "null_world = \<lparr>w_env = \<lambda>_. None, w_tick = 0, w_clock = \<lambda>_. 0, w_http = \<lambda>_ _. Inl refused,
     w_tls = \<lambda>_ _ _. Inl refused, w_broker = \<lambda>_ _. null_broker, w_stat = \<lambda>_ _. Inl refused,
     w_file = \<lambda>_ _. Inl refused, w_uuid = \<lambda>_. [], w_sys_stdout = Stdout, w_out = [], w_events = [],
     w_chans = [], jwks_data = None, jwks_timestamp = 0\<rparr>"

section \<open>Leaving the process\<close>

text \<open>\<^verbatim>\<open>sys.exit\<close> is the exception \<^verbatim>\<open>SystemExit\<close>, which \<^verbatim>\<open>except Exception\<close> does not catch.\<close>

definition SystemExit :: "nat \<Rightarrow> exn" where
  "SystemExit n = Exn (OtherException ''SystemExit'') (nat_str n)"

definition is_exit :: "exn \<Rightarrow> bool" where
  "is_exit e \<longleftrightarrow> exn_kind e = OtherException ''SystemExit''"

section \<open>Primitive actions\<close>

definition env_get :: "string \<Rightarrow> ('a world_scheme, string option) io" where
  "env_get k = io_get (\<lambda>w. w_env w k)"

definition tick :: "('a world_scheme, nat) io" where
  "tick = io_bind (io_get w_tick) (\<lambda>n. io_bind (io_modify (w_tick_update Suc)) (\<lambda>_. io_return n))"

definition emit :: "event \<Rightarrow> ('a world_scheme, unit) io" where
  "emit e = io_modify (w_events_update (\<lambda>es. es @ [e]))"

definition write_line :: "stream \<Rightarrow> string \<Rightarrow> ('a world_scheme, unit) io" where
  "write_line st s = io_modify (w_out_update (\<lambda>ls. ls @ [(st, s)]))"

text \<open>\<^verbatim>\<open>print(s)\<close> goes to whatever \<^verbatim>\<open>sys.stdout\<close> is bound to.\<close>

definition py_print :: "string \<Rightarrow> ('a world_scheme, unit) io" where
  "py_print s = io_bind (io_get w_sys_stdout) (\<lambda>st. write_line st s)"

definition print_stderr :: "string \<Rightarrow> ('a world_scheme, unit) io" where
  "print_stderr s = write_line Stderr s"

definition time_time :: "('a world_scheme, rat) io" where
  "time_time = io_bind tick (\<lambda>n. io_get (\<lambda>w. w_clock w n))"

definition http_get :: "string \<Rightarrow> ('a world_scheme, bytes) io" where
  "http_get url = io_bind tick (\<lambda>n. io_bind (emit (HttpGet url)) (\<lambda>_.
     io_bind (io_get (\<lambda>w. w_http w n url)) io_lift))"

definition tls_peer_cert :: "pyval \<Rightarrow> int \<Rightarrow> ('a world_scheme, bytes option) io" where
  "tls_peer_cert host port = io_bind tick (\<lambda>n. io_bind (emit (TlsConnect host port)) (\<lambda>_.
     io_bind (io_get (\<lambda>w. w_tls w n host port)) io_lift))"

definition uuid4 :: "('a world_scheme, string) io" where
  "uuid4 = io_bind tick (\<lambda>n. io_get (\<lambda>w. w_uuid w n))"

definition os_stat :: "string \<Rightarrow> ('a world_scheme, int) io" where
  "os_stat path = io_bind tick (\<lambda>n. io_bind (io_get (\<lambda>w. w_stat w n path)) io_lift)"

definition read_file :: "string \<Rightarrow> ('a world_scheme, string) io" where
  "read_file path = io_bind tick (\<lambda>n. io_bind (io_get (\<lambda>w. w_file w n path)) io_lift)"

text \<open>\<^verbatim>\<open>grpc.secure_channel\<close>: a fresh channel object; nothing is sent yet.\<close>

definition secure_channel :: "string \<Rightarrow> bytes \<Rightarrow> string \<Rightarrow> ('a world_scheme, nat) io" where
  "secure_channel target cert override = io_bind (io_get (\<lambda>w. length (w_chans w))) (\<lambda>c.
     io_bind (io_modify (w_chans_update (\<lambda>cs. cs @
       [\<lparr>gc_target = target, gc_root = cert, gc_override = override, gc_open = True\<rparr>]))) (\<lambda>_.
     io_bind (emit (ChannelOpened c)) (\<lambda>_. io_return c)))"

definition shut :: "nat \<Rightarrow> grpc_chan list \<Rightarrow> grpc_chan list" where
  "shut c cs = (if c < length cs then cs[c := (cs ! c)\<lparr>gc_open := False\<rparr>] else cs)"

definition close_channel :: "nat \<Rightarrow> ('a world_scheme, unit) io" where
  "close_channel c = io_bind (io_modify (w_chans_update (shut c))) (\<lambda>_. emit (ChannelClosed c))"

text \<open>A unary call on a channel; a closed channel refuses it, an open one reaches the broker behind it.\<close>

definition rpc_send :: "nat \<Rightarrow> rpc_request \<Rightarrow> metadata \<Rightarrow> ('a world_scheme, broker) io" where
  "rpc_send c req md = io_bind tick (\<lambda>n.
     io_bind (io_get w_chans) (\<lambda>cs.
     if c < length cs \<and> gc_open (cs ! c)
     then io_bind (emit (RpcSent c req md)) (\<lambda>_. io_get (\<lambda>w. w_broker w n (cs ! c)))
     else io_raise (Exn ValueError ''Cannot invoke RPC on closed channel!'')))"

definition rpc_call :: "nat \<Rightarrow> rpc_request \<Rightarrow> metadata \<Rightarrow> (broker \<Rightarrow> 'r res) \<Rightarrow> ('a world_scheme, 'r) io" where
  "rpc_call c req md answer = io_bind (rpc_send c req md) (\<lambda>b. io_lift (answer b))"

lemmas world_defs = env_get_def tick_def emit_def write_line_def py_print_def print_stderr_def time_time_def
  http_get_def tls_peer_cert_def uuid4_def os_stat_def read_file_def secure_channel_def close_channel_def
  rpc_send_def rpc_call_def

section \<open>Preconditions of the primitive actions\<close>

lemma wp_tick [wp_simps]: "wp tick Q E w = Q (w_tick w) (w_tick_update Suc w)"
  by (simp add: tick_def wp_simps)

lemma wp_emit [wp_simps]: "wp (emit e) Q E w = Q () (w_events_update (\<lambda>es. es @ [e]) w)"
  by (simp add: emit_def wp_simps)

lemma wp_env_get [wp_simps]: "wp (env_get k) Q E w = Q (w_env w k) w"
  by (simp add: env_get_def wp_simps)

lemma wp_write_line [wp_simps]: "wp (write_line st s) Q E w = Q () (w_out_update (\<lambda>ls. ls @ [(st, s)]) w)"
  by (simp add: write_line_def wp_simps)

lemma wp_py_print [wp_simps]:
  "wp (py_print s) Q E w = Q () (w_out_update (\<lambda>ls. ls @ [(w_sys_stdout w, s)]) w)"
  by (simp add: py_print_def wp_simps)

lemma wp_print_stderr [wp_simps]: "wp (print_stderr s) Q E w = Q () (w_out_update (\<lambda>ls. ls @ [(Stderr, s)]) w)"
  by (simp add: print_stderr_def wp_simps)

lemma wp_time_time [wp_simps]: "wp time_time Q E w = Q (w_clock w (w_tick w)) (w_tick_update Suc w)"
  by (simp add: time_time_def wp_simps)

lemma wp_http_get [wp_simps]:
  "wp (http_get url) Q E w =
     (let w' = w_events_update (\<lambda>es. es @ [HttpGet url]) (w_tick_update Suc w)
      in case w_http w (w_tick w) url of Inl e \<Rightarrow> E e w' | Inr b \<Rightarrow> Q b w')"
  by (simp add: http_get_def wp_simps Let_def)

lemma wp_tls_peer_cert [wp_simps]:
  "wp (tls_peer_cert host port) Q E w =
     (let w' = w_events_update (\<lambda>es. es @ [TlsConnect host port]) (w_tick_update Suc w)
      in case w_tls w (w_tick w) host port of Inl e \<Rightarrow> E e w' | Inr b \<Rightarrow> Q b w')"
  by (simp add: tls_peer_cert_def wp_simps Let_def)

lemma wp_uuid4 [wp_simps]: "wp uuid4 Q E w = Q (w_uuid w (w_tick w)) (w_tick_update Suc w)"
  by (simp add: uuid4_def wp_simps)

lemma wp_os_stat [wp_simps]:
  "wp (os_stat path) Q E w =
     (case w_stat w (w_tick w) path of Inl e \<Rightarrow> E e (w_tick_update Suc w) | Inr t \<Rightarrow> Q t (w_tick_update Suc w))"
  by (simp add: os_stat_def wp_simps)

lemma wp_read_file [wp_simps]:
  "wp (read_file path) Q E w =
     (case w_file w (w_tick w) path of Inl e \<Rightarrow> E e (w_tick_update Suc w) | Inr t \<Rightarrow> Q t (w_tick_update Suc w))"
  by (simp add: read_file_def wp_simps)

lemma wp_secure_channel [wp_simps]:
  "wp (secure_channel target cert override) Q E w =
     Q (length (w_chans w))
       (w_events_update (\<lambda>es. es @ [ChannelOpened (length (w_chans w))])
         (w_chans_update (\<lambda>cs. cs @
           [\<lparr>gc_target = target, gc_root = cert, gc_override = override, gc_open = True\<rparr>]) w))"
  by (simp add: secure_channel_def wp_simps)

lemma wp_close_channel [wp_simps]:
  "wp (close_channel c) Q E w =
     Q () (w_events_update (\<lambda>es. es @ [ChannelClosed c]) (w_chans_update (shut c) w))"
  by (simp add: close_channel_def wp_simps)

lemma wp_rpc_send [wp_simps]:
  "wp (rpc_send c req md) Q E w =
     (let w' = w_tick_update Suc w in
      if c < length (w_chans w) \<and> gc_open (w_chans w ! c)
      then Q (w_broker w (w_tick w) (w_chans w ! c)) (w_events_update (\<lambda>es. es @ [RpcSent c req md]) w')
      else E (Exn ValueError ''Cannot invoke RPC on closed channel!'') w')"
  by (simp add: rpc_send_def wp_simps Let_def)

lemma wp_rpc_call [wp_simps]:
  "wp (rpc_call c req md answer) Q E w =
     (let w' = w_tick_update Suc w; w'' = w_events_update (\<lambda>es. es @ [RpcSent c req md]) w' in
      if c < length (w_chans w) \<and> gc_open (w_chans w ! c)
      then (case answer (w_broker w (w_tick w) (w_chans w ! c)) of Inl e \<Rightarrow> E e w'' | Inr r \<Rightarrow> Q r w'')
      else E (Exn ValueError ''Cannot invoke RPC on closed channel!'') w')"
  by (simp add: rpc_call_def wp_simps Let_def)

lemma length_shut [simp]: "length (shut c cs) = length cs"
  by (simp add: shut_def)

lemma nth_shut: "i < length cs \<Longrightarrow> shut c cs ! i = (if i = c then (cs ! i)\<lparr>gc_open := False\<rparr> else cs ! i)"
  by (simp add: shut_def)

end
