(* ===== verification/Attestation.thy ===== *)
theory Attestation
  imports Codec World
begin

text \<open>
  \<^verbatim>\<open>agent/attestation.py\<close>: reading the attestation token out of the certificate extension the broker
  put it in.  The broker wraps the token in a DER OCTET STRING; \<open>der_octet_string\<close> is that encoding,
  in its short and its long length form, and the round trip shows that the client's header
  stripping inverts it.
\<close>

unbundle bit_operations_syntax

definition ATTESTATION_OID :: string where
  "ATTESTATION_OID = ''1.3.6.1.4.1.99999.1''"

text \<open>The part after the certificate lookup: from the raw extension value to the token.\<close>

definition token_of_extension :: "bytes \<Rightarrow> string option" where
  "token_of_extension raw =
     (if length raw < 2 then None
      else if raw ! 0 \<noteq> 0x04 then Some (utf8_decode_replace raw)
      else if raw ! 1 < 0x80 then Some (utf8_decode_replace (drop 2 raw))
      else let num_length_bytes = unat (raw ! 1 AND 0x7F)
           in Some (utf8_decode_replace (drop (2 + num_length_bytes) raw)))"

definition extract_attestation_token :: "ext \<Rightarrow> bytes \<Rightarrow> string option res" where
  "extract_attestation_token ext cert_pem =
     rbind (pem_extension ext cert_pem ATTESTATION_OID) (\<lambda>found. Inr (case found of
       None \<Rightarrow> None
     | Some raw \<Rightarrow> token_of_extension raw))"

section \<open>The encoding the broker writes\<close>

fun be_bytes :: "nat \<Rightarrow> bytes" where
  "be_bytes n = (if n < 256 then [of_nat n] else be_bytes (n div 256) @ [of_nat (n mod 256)])"

declare be_bytes.simps [simp del]

definition der_length :: "nat \<Rightarrow> bytes" where
  "der_length n = (if n < 128 then [of_nat n] else of_nat (128 + length (be_bytes n)) # be_bytes n)"

definition der_octet_string :: "bytes \<Rightarrow> bytes" where
  "der_octet_string content = 0x04 # der_length (length content) @ content"

lemma length_be_bytes: "n < 256 ^ k \<Longrightarrow> 0 < k \<Longrightarrow> length (be_bytes n) \<le> k"
proof (induction n arbitrary: k rule: be_bytes.induct)
  case (1 n)
  show ?case
  proof (cases "n < 256")
    case True
    with 1 show ?thesis by (subst be_bytes.simps) simp
  next
    case False
    with "1.prems" obtain j where k: "k = Suc j" "0 < j" by (cases k; cases "k - 1") auto
    have "n div 256 < 256 ^ j" using "1.prems" k(1) by (simp add: less_mult_imp_div_less mult.commute)
    with "1.IH" [OF False this] k False show ?thesis by (subst be_bytes.simps) simp
  qed
qed

lemma long_form_count:
  assumes "k < 128"
  shows "\<not> (of_nat (128 + k) :: byte) < 0x80" "unat ((of_nat (128 + k) :: byte) AND 0x7F) = k"
proof -
  have u: "unat (of_nat (128 + k) :: byte) = 128 + k" using assms by (simp add: unat_of_nat take_bit_nat_eq_self del: of_nat_add)
  then show "\<not> (of_nat (128 + k) :: byte) < 0x80" by (simp add: word_less_nat_alt)
  have "(0x7F :: byte) = mask 7" by (simp add: mask_eq_exp_minus_1)
  then have "unat ((of_nat (128 + k) :: byte) AND 0x7F) = take_bit 7 (unat (of_nat (128 + k) :: byte))"
    by (simp only: take_bit_eq_mask [symmetric] unsigned_take_bit_eq)
  also have "\<dots> = k" using assms unfolding u by (simp add: take_bit_eq_mod)
  finally show "unat ((of_nat (128 + k) :: byte) AND 0x7F) = k" .
qed

text \<open>Every content shorter than \<open>256 ^ 127\<close> bytes has such an encoding, and stripping inverts it.\<close>

lemma token_of_der:
  assumes "length content < 256 ^ 127" "content \<noteq> []"
  shows "token_of_extension (der_octet_string content) = Some (utf8_decode_replace content)"
proof (cases "length content < 128")
  case True
  then have "(of_nat (length content) :: byte) < 0x80"
    by (simp add: word_less_nat_alt unat_of_nat take_bit_nat_eq_self)
  with True show ?thesis by (simp add: token_of_extension_def der_octet_string_def der_length_def)
next
  case False
  let ?k = "length (be_bytes (length content))"
  have k: "?k < 128" using length_be_bytes [OF assms(1)] by simp
  have "drop (2 + ?k) (der_octet_string content) = content"
    using False by (simp add: der_octet_string_def der_length_def)
  moreover have "der_octet_string content ! 1 = of_nat (128 + ?k)" "der_octet_string content ! 0 = 4"
    "\<not> length (der_octet_string content) < 2"
    using False by (simp_all add: der_octet_string_def der_length_def)
  ultimately show ?thesis
    unfolding token_of_extension_def Let_def using long_form_count [OF k] by (simp del: of_nat_add)
qed

section \<open>Properties\<close>

text \<open>
  C32.  The client recovers exactly the token the broker embedded: when the certificate carries the
  extension with the DER OCTET STRING of a non-empty well-formed UTF-8 token (short or long
  length form), \<^verbatim>\<open>extract_attestation_token\<close> returns that token.
\<close>

theorem extract_embedded_token:
  assumes "pem_extension ext cert ATTESTATION_OID = Inr (Some (der_octet_string (map char_byte token)))"
    and "wf_text token" and "token \<noteq> []" and "length token < 256 ^ 127"
  shows "extract_attestation_token ext cert = Inr (Some token)"
  using assms token_of_der [of "map char_byte token"] by (simp add: extract_attestation_token_def wf_text_def)

theorem extract_embedded_token_witness:
  "extract_attestation_token
     (null_ext\<lparr>pem_extension := \<lambda>_ _. Inr (Some (der_octet_string (map char_byte ''eyJ.eyJ.sig'')))\<rparr>) [1, 2]
   = Inr (Some ''eyJ.eyJ.sig'')"
proof (rule extract_embedded_token)
  show "wf_text ''eyJ.eyJ.sig''" by (intro ascii_wf_text) (simp add: is_ascii_def)
  have "length ''eyJ.eyJ.sig'' < 256 ^ 2" by simp
  also have "(256 :: nat) ^ 2 \<le> 256 ^ 127" by (rule power_increasing) simp_all
  finally show "length ''eyJ.eyJ.sig'' < 256 ^ 127" .
qed simp_all

end
