(* ===== verification/Json.thy ===== *)
theory Json
  imports Codec
begin

text \<open>
  The parts of the standard library's \<^verbatim>\<open>json\<close> module that the agent uses: \<^verbatim>\<open>json.loads\<close> on text and on
  bytes, and \<^verbatim>\<open>json.dumps\<close> with and without \<^verbatim>\<open>indent=2\<close>.  The parser is fuelled by the length of
  its input; \<open>json_value_enough\<close> shows that more fuel changes nothing, so the fuel is never the
  reason for a result.  The round trip shows that what the server writes, a JSON client reads
  back as the same value.  Error texts carry no position.
\<close>

section \<open>Code points\<close>

definition utf8_enc :: "nat \<Rightarrow> string" where
  "utf8_enc n =
     (if n < 0x80 then [char_of n]
      else if n < 0x800 then [char_of (192 + n div 64), char_of (128 + n mod 64)]
      else if n < 0x10000
      then [char_of (224 + n div 4096), char_of (128 + n div 64 mod 64), char_of (128 + n mod 64)]
      else [char_of (240 + n div 262144), char_of (128 + n div 4096 mod 64),
            char_of (128 + n div 64 mod 64), char_of (128 + n mod 64)])"

definition utf8_text :: "nat list \<Rightarrow> string" where
  "utf8_text ns = concat (map utf8_enc ns)"

text \<open>The payload bits of a continuation byte.\<close>

definition cont_bits :: "char \<Rightarrow> nat" where
  "cont_bits c = of_char c mod 64"

fun utf8_points :: "string \<Rightarrow> nat list" where
  "utf8_points [] = []"
| "utf8_points (c # s) =
     (let n = of_char c in
      if n < 0x80 then n # utf8_points s
      else case s of
        [] \<Rightarrow> []
      | d # t \<Rightarrow>
          if n < 0xE0 then ((n - 192) * 64 + cont_bits d) # utf8_points t
          else case t of
            [] \<Rightarrow> []
          | e # u \<Rightarrow>
              if n < 0xF0 then ((n - 224) * 4096 + cont_bits d * 64 + cont_bits e) # utf8_points u
              else case u of
                [] \<Rightarrow> []
              | f # v \<Rightarrow> ((n - 240) * 262144 + cont_bits d * 4096 + cont_bits e * 64 + cont_bits f)
                         # utf8_points v)"

definition is_scalar :: "nat \<Rightarrow> bool" where
  "is_scalar n \<longleftrightarrow> n < 0x110000 \<and> \<not> (0xD800 \<le> n \<and> n \<le> 0xDFFF)"

text \<open>A text all of whose characters are Unicode scalar values: no lone surrogates.\<close>

definition scalar_text :: "string \<Rightarrow> bool" where
  "scalar_text s \<longleftrightarrow> s = utf8_text (utf8_points s) \<and> list_all is_scalar (utf8_points s)"

section \<open>Writing\<close>

definition hex4 :: "nat \<Rightarrow> string" where
  "hex4 n = [hex_char (n div 4096), hex_char (n div 256 mod 16), hex_char (n div 16 mod 16), hex_char (n mod 16)]"

definition u_escape :: "nat \<Rightarrow> string" where
  "u_escape n = backslash_char # CHR ''u'' # hex4 n"

definition json_esc :: "nat \<Rightarrow> string" where
  "json_esc n =
     (if n = 34 then [backslash_char, dquote_char]
      else if n = 92 then [backslash_char, backslash_char]
      else if n = 10 then [backslash_char, CHR ''n'']
      else if n = 13 then [backslash_char, CHR ''r'']
      else if n = 9 then [backslash_char, CHR ''t'']
      else if n = 12 then [backslash_char, CHR ''f'']
      else if n = 8 then [backslash_char, CHR ''b'']
      else if 32 \<le> n \<and> n \<le> 126 then [char_of n]
      else if n < 0x10000 then u_escape n
      else u_escape (0xD800 + (n - 0x10000) div 1024) @ u_escape (0xDC00 + (n - 0x10000) mod 1024))"

definition json_str :: "string \<Rightarrow> string" where
  "json_str s = dquote_char # concat (map json_esc (utf8_points s)) @ [dquote_char]"

text \<open>The line break before an item at a nesting level, when indenting by two.\<close>

definition json_nl :: "bool \<Rightarrow> nat \<Rightarrow> string" where
  "json_nl ind l = (if ind then newline_char # replicate (2 * l) (CHR '' '') else [])"

definition json_sep :: "bool \<Rightarrow> nat \<Rightarrow> string" where
  "json_sep ind l = CHR '','' # (if ind then json_nl ind l else '' '')"

function (sequential) json_dump :: "bool \<Rightarrow> nat \<Rightarrow> pyval \<Rightarrow> string"
  and json_dump_list :: "bool \<Rightarrow> nat \<Rightarrow> pyval list \<Rightarrow> string list"
  and json_dump_dict :: "bool \<Rightarrow> nat \<Rightarrow> pydict \<Rightarrow> string list" where
  "json_dump ind l PNone = ''null''"
| "json_dump ind l (PBool b) = (if b then ''true'' else ''false'')"
| "json_dump ind l (PInt i) = int_str i"
| "json_dump ind l (PFloat s) = s"
| "json_dump ind l (PStr s) = json_str s"
| "json_dump ind l (PList []) = ''[]''"
| "json_dump ind l (PList (x # xs)) =
     ''['' @ json_nl ind (Suc l) @ join_str (json_sep ind (Suc l)) (json_dump_list ind (Suc l) (x # xs))
     @ json_nl ind l @ '']''"
| "json_dump ind l (PDict []) = ''{}''"
| "json_dump ind l (PDict (kv # d)) =
     ''{'' @ json_nl ind (Suc l) @ join_str (json_sep ind (Suc l)) (json_dump_dict ind (Suc l) (kv # d))
     @ json_nl ind l @ ''}''"
| "json_dump_list ind l [] = []"
| "json_dump_list ind l (x # xs) = json_dump ind l x # json_dump_list ind l xs"
| "json_dump_dict ind l [] = []"
| "json_dump_dict ind l ((k, v) # d) = (json_str k @ '': '' @ json_dump ind l v) # json_dump_dict ind l d"
  by pat_completeness auto
termination
  by (relation "measure (\<lambda>x. case x of Inl (_, _, v) \<Rightarrow> size v
        | Inr (Inl (_, _, xs)) \<Rightarrow> size_list size xs
        | Inr (Inr (_, _, d)) \<Rightarrow> size_list (size_prod (\<lambda>_. 0) size) d)") auto

definition json_dumps :: "pyval \<Rightarrow> string" where
  "json_dumps v = json_dump False 0 v"

definition json_dumps_indent :: "pyval \<Rightarrow> string" where
  "json_dumps_indent v = json_dump True 0 v"

section \<open>Reading\<close>

abbreviation json_error :: "string \<Rightarrow> 'a res" where
  "json_error m \<equiv> Inl (Exn JSONDecodeError m)"

definition is_json_ws :: "char \<Rightarrow> bool" where
  "is_json_ws c \<longleftrightarrow> c \<in> {CHR '' '', CHR 0x09, CHR 0x0A, CHR 0x0D}"

definition skip_ws :: "string \<Rightarrow> string" where
  "skip_ws s = dropWhile is_json_ws s"

definition hex_val :: "char \<Rightarrow> nat option" where
  "hex_val c =
     (let n = (of_char c :: nat) in
      if 48 \<le> n \<and> n \<le> 57 then Some (n - 48)
      else if 97 \<le> n \<and> n \<le> 102 then Some (n - 87)
      else if 65 \<le> n \<and> n \<le> 70 then Some (n - 55) else None)"

fun hex4_val :: "string \<Rightarrow> (nat \<times> string) option" where
  "hex4_val (a # b # c # d # s) =
     (case (hex_val a, hex_val b, hex_val c, hex_val d) of
        (Some w, Some x, Some y, Some z) \<Rightarrow> Some (w * 4096 + x * 256 + y * 16 + z, s)
      | _ \<Rightarrow> None)"
| "hex4_val _ = None"

text \<open>A low surrogate escape right after a high one.\<close>

fun low_escape :: "string \<Rightarrow> (nat \<times> string) option" where
  "low_escape (a # b # s) =
     (if a = backslash_char \<and> b = CHR ''u''
      then (case hex4_val s of
              Some (m, r) \<Rightarrow> if 0xDC00 \<le> m \<and> m \<le> 0xDFFF then Some (m, r) else None
            | None \<Rightarrow> None)
      else None)"
| "low_escape _ = None"

definition simple_escape :: "char \<Rightarrow> char option" where
  "simple_escape c =
     (if c = dquote_char \<or> c = backslash_char \<or> c = CHR ''/'' then Some c
      else if c = CHR ''b'' then Some (CHR 0x08)
      else if c = CHR ''f'' then Some (CHR 0x0C)
      else if c = CHR ''n'' then Some (CHR 0x0A)
      else if c = CHR ''r'' then Some (CHR 0x0D)
      else if c = CHR ''t'' then Some (CHR 0x09) else None)"

text \<open>What follows a backslash: the text it stands for and the rest of the input.\<close>

fun json_escape :: "string \<Rightarrow> (string \<times> string) res" where
  "json_escape [] = json_error ''Unterminated string starting at''"
| "json_escape (e # r) =
     (if e = CHR ''u''
      then (case hex4_val r of
              None \<Rightarrow> json_error (''Invalid '' @ [backslash_char] @ ''uXXXX escape'')
            | Some (n, r') \<Rightarrow>
                if 0xD800 \<le> n \<and> n \<le> 0xDBFF
                then (case low_escape r' of
                        Some (m, r'') \<Rightarrow> Inr (utf8_enc (0x10000 + (n - 0xD800) * 1024 + (m - 0xDC00)), r'')
                      | None \<Rightarrow> Inr (utf8_enc n, r'))
                else Inr (utf8_enc n, r'))
      else case simple_escape e of
        None \<Rightarrow> json_error (''Invalid '' @ [backslash_char] @ ''escape'')
      | Some c \<Rightarrow> Inr ([c], r))"

lemma hex4_val_length: "hex4_val s = Some (n, r) \<Longrightarrow> length r < length s"
  by (induction s rule: hex4_val.induct) (auto split: option.splits)

lemma low_escape_length: "low_escape s = Some (n, r) \<Longrightarrow> length r < length s"
  by (induction s rule: low_escape.induct) (auto split: option.splits if_splits dest!: hex4_val_length)

lemma json_escape_length: "json_escape s = Inr (x, r) \<Longrightarrow> length r < length s"
  by (cases s)
    (fastforce split: option.splits if_splits dest: hex4_val_length low_escape_length)+

function json_string :: "string \<Rightarrow> (string \<times> string) res" where
  "json_string s =
     (case s of
        [] \<Rightarrow> json_error ''Unterminated string starting at''
      | c # t \<Rightarrow>
          if c = dquote_char then Inr ([], t)
          else if c = backslash_char
          then rbind (json_escape t) (\<lambda>(x, r). rbind (json_string r) (\<lambda>(y, r'). Inr (x @ y, r')))
          else if (of_char c :: nat) < 32 then json_error ''Invalid control character at''
          else rbind (json_string t) (\<lambda>(y, r). Inr (c # y, r)))"
  by pat_completeness auto
termination
  by (relation "measure length") (auto dest!: json_escape_length)

declare json_string.simps [simp del]

text \<open>
  A number: the integer part without leading zeros, then a fraction and an exponent when at
  least one digit follows.  Integers of more than 4300 digits raise a plain \<^verbatim>\<open>ValueError\<close>.
\<close>

definition json_frac :: "string \<Rightarrow> string \<times> string" where
  "json_frac s = (case s of
      c # d # t \<Rightarrow> if c = CHR ''.'' \<and> is_digit d
                   then (c # takeWhile is_digit (d # t), dropWhile is_digit (d # t)) else ([], s)
    | _ \<Rightarrow> ([], s))"

definition json_exp :: "string \<Rightarrow> string \<times> string" where
  "json_exp s = (case s of
      c # t \<Rightarrow>
        (let sg = (if t \<noteq> [] \<and> hd t \<in> {CHR ''+'', CHR ''-''} then [hd t] else []);
             u = (if sg = [] then t else tl t)
         in if c \<in> {CHR ''e'', CHR ''E''} \<and> u \<noteq> [] \<and> is_digit (hd u)
            then (c # sg @ takeWhile is_digit u, dropWhile is_digit u) else ([], s))
    | [] \<Rightarrow> ([], s))"

definition json_int_part :: "string \<Rightarrow> string \<times> string" where
  "json_int_part t =
     (if hd t = CHR ''0'' then (''0'', tl t) else (takeWhile is_digit t, dropWhile is_digit t))"

definition json_number :: "string \<Rightarrow> (pyval \<times> string) res" where
  "json_number s =
     (let neg = (s \<noteq> [] \<and> hd s = CHR ''-'');
          t = (if neg then tl s else s)
      in if t = [] \<or> \<not> is_digit (hd t) then json_error ''Expecting value''
         else case json_int_part t of (ip, r) \<Rightarrow>
              case json_frac r of (fp, r') \<Rightarrow>
              case json_exp r' of (ep, r'') \<Rightarrow>
                if fp = [] \<and> ep = []
                then (if 4300 < length ip
                      then Inl (Exn ValueError ''Exceeds the limit (4300 digits) for integer string conversion'')
                      else Inr (PInt (if neg then - int (digits_nat ip) else int (digits_nat ip)), r''))
                else Inr (PFloat ((if neg then ''-'' else []) @ ip @ fp @ ep), r''))"

definition json_constants :: "(string \<times> pyval) list" where
  "json_constants =
     [(''null'', PNone), (''true'', PBool True), (''false'', PBool False), (''NaN'', PFloat ''NaN''),
      (''Infinity'', PFloat ''Infinity''), (''-Infinity'', PFloat ''-Infinity'')]"

fun json_constant :: "(string \<times> pyval) list \<Rightarrow> string \<Rightarrow> (pyval \<times> string) option" where
  "json_constant [] s = None"
| "json_constant ((w, v) # cs) s = (if prefix w s then Some (v, drop (length w) s) else json_constant cs s)"

definition json_scalar :: "string \<Rightarrow> (pyval \<times> string) res" where
  "json_scalar s = (case json_constant json_constants s of Some r \<Rightarrow> Inr r | None \<Rightarrow> json_number s)"

text \<open>A key, the colon and the white space around it.\<close>

definition json_key :: "string \<Rightarrow> (string \<times> string) res" where
  "json_key s = (case s of
      c # t \<Rightarrow>
        if c \<noteq> dquote_char then json_error ''Expecting property name enclosed in double quotes''
        else rbind (json_string t) (\<lambda>(k, r).
          case skip_ws r of
            d # u \<Rightarrow> if d = CHR '':'' then Inr (k, skip_ws u)
                     else json_error (''Expecting '' @ quoted '':'' @ '' delimiter'')
          | [] \<Rightarrow> json_error (''Expecting '' @ quoted '':'' @ '' delimiter''))
    | [] \<Rightarrow> json_error ''Expecting property name enclosed in double quotes'')"

definition json_fuel_error :: exn where
  "json_fuel_error = Exn (OtherException ''RecursionError'') ''maximum recursion depth exceeded''"

text \<open>
  \<open>json_value\<close> reads one value; \<open>json_items\<close> and \<open>json_members\<close> go on after an item of a list or
  of an object.  Every call consumes input before the next.
\<close>

fun json_value :: "nat \<Rightarrow> string \<Rightarrow> (pyval \<times> string) res"
  and json_items :: "nat \<Rightarrow> pyval list \<Rightarrow> string \<Rightarrow> (pyval \<times> string) res"
  and json_members :: "nat \<Rightarrow> pydict \<Rightarrow> string \<Rightarrow> (pyval \<times> string) res" where
  "json_value 0 s = Inl json_fuel_error"
| "json_value (Suc n) s =
     (case s of
        [] \<Rightarrow> json_error ''Expecting value''
      | c # t \<Rightarrow>
          if c = dquote_char then rbind (json_string t) (\<lambda>(x, r). Inr (PStr x, r))
          else if c = CHR ''['' then
            (case skip_ws t of
               d # u \<Rightarrow> if d = CHR '']'' then Inr (PList [], u)
                        else rbind (json_value n (d # u)) (\<lambda>(v, r). json_items n [v] (skip_ws r))
             | [] \<Rightarrow> json_error ''Expecting value'')
          else if c = CHR ''{'' then
            (case skip_ws t of
               d # u \<Rightarrow> if d = CHR ''}'' then Inr (PDict [], u)
                        else rbind (json_key (d # u)) (\<lambda>(k, r).
                             rbind (json_value n r) (\<lambda>(v, r'). json_members n [(k, v)] (skip_ws r')))
             | [] \<Rightarrow> json_error ''Expecting property name enclosed in double quotes'')
          else json_scalar s)"
| "json_items 0 acc s = Inl json_fuel_error"
| "json_items (Suc n) acc s =
     (case s of
        c # t \<Rightarrow>
          if c = CHR '']'' then Inr (PList acc, t)
          else if c = CHR '','' then
            rbind (json_value n (skip_ws t)) (\<lambda>(v, r). json_items n (acc @ [v]) (skip_ws r))
          else json_error (''Expecting '' @ quoted '','' @ '' delimiter'')
      | [] \<Rightarrow> json_error (''Expecting '' @ quoted '','' @ '' delimiter''))"
| "json_members 0 acc s = Inl json_fuel_error"
| "json_members (Suc n) acc s =
     (case s of
        c # t \<Rightarrow>
          if c = CHR ''}'' then Inr (PDict acc, t)
          else if c = CHR '','' then
            rbind (json_key (skip_ws t)) (\<lambda>(k, r).
            rbind (json_value n r) (\<lambda>(v, r'). json_members n (dict_set k v acc) (skip_ws r')))
          else json_error (''Expecting '' @ quoted '','' @ '' delimiter'')
      | [] \<Rightarrow> json_error (''Expecting '' @ quoted '','' @ '' delimiter''))"

declare json_value.simps(2) [simp del] json_items.simps(2) [simp del] json_members.simps(2) [simp del]

definition json_bom :: string where
  "json_bom = [CHR 0xEF, CHR 0xBB, CHR 0xBF]"

definition json_loads :: "string \<Rightarrow> pyval res" where
  "json_loads s =
     (if prefix json_bom s then json_error ''Unexpected UTF-8 BOM (decode using utf-8-sig)''
      else rbind (json_value (Suc (length s)) (skip_ws s)) (\<lambda>(v, r).
        if skip_ws r = [] then Inr v else json_error ''Extra data''))"

text \<open>
  On bytes, \<^verbatim>\<open>json.loads\<close> guesses the encoding from the first bytes and decodes strictly, except
  that encoded surrogates pass.
\<close>

function utf8_decode_pass :: "bytes \<Rightarrow> string option" where
  "utf8_decode_pass [] = Some []"
| "utf8_decode_pass (b # bs) =
     (if b < 0x80 then map_option ((#) (byte_char b)) (utf8_decode_pass bs)
      else case (if b = 0xED then Some (0x80, 0xBF, 2) else utf8_need b) of
        None \<Rightarrow> None
      | Some (lo, hi, n) \<Rightarrow>
          (case utf8_tail lo hi n bs of (k, ok) \<Rightarrow>
             if ok then map_option ((@) (byte_char b # map byte_char (take k bs))) (utf8_decode_pass (drop k bs))
             else None))"
  by pat_completeness auto
termination by (relation "measure length") auto

fun utf16_units :: "bool \<Rightarrow> bytes \<Rightarrow> nat list option" where
  "utf16_units be [] = Some []"
| "utf16_units be [a] = None"
| "utf16_units be (a # b # bs) =
     map_option ((#) (if be then unat a * 256 + unat b else unat b * 256 + unat a)) (utf16_units be bs)"

fun utf16_join :: "nat list \<Rightarrow> nat list" where
  "utf16_join (h # l # us) =
     (if 0xD800 \<le> h \<and> h \<le> 0xDBFF \<and> 0xDC00 \<le> l \<and> l \<le> 0xDFFF
      then (0x10000 + (h - 0xD800) * 1024 + (l - 0xDC00)) # utf16_join us
      else h # utf16_join (l # us))"
| "utf16_join us = us"

fun utf32_units :: "bool \<Rightarrow> bytes \<Rightarrow> nat list option" where
  "utf32_units be [] = Some []"
| "utf32_units be (a # b # c # d # bs) =
     (let n = (if be then ((unat a * 256 + unat b) * 256 + unat c) * 256 + unat d
               else ((unat d * 256 + unat c) * 256 + unat b) * 256 + unat a)
      in if 0x110000 \<le> n then None else map_option ((#) n) (utf32_units be bs))"
| "utf32_units be _ = None"

definition utf16_decode :: "bool \<Rightarrow> bytes \<Rightarrow> string option" where
  "utf16_decode be bs = map_option (utf8_text \<circ> utf16_join) (utf16_units be bs)"

definition utf32_decode :: "bool \<Rightarrow> bytes \<Rightarrow> string option" where
  "utf32_decode be bs = map_option utf8_text (utf32_units be bs)"

definition json_decode_bytes :: "bytes \<Rightarrow> string option" where
  "json_decode_bytes b =
     (if prefix [0, 0, 0xFE, 0xFF] b then utf32_decode True (drop 4 b)
      else if prefix [0xFF, 0xFE, 0, 0] b then utf32_decode False (drop 4 b)
      else if prefix [0xFE, 0xFF] b then utf16_decode True (drop 2 b)
      else if prefix [0xFF, 0xFE] b then utf16_decode False (drop 2 b)
      else if prefix [0xEF, 0xBB, 0xBF] b then utf8_decode_pass (drop 3 b)
      else if 4 \<le> length b \<and> b ! 0 = 0
      then (if b ! 1 \<noteq> 0 then utf16_decode True b else utf32_decode True b)
      else if 4 \<le> length b \<and> b ! 1 = 0
      then (if b ! 2 \<noteq> 0 \<or> b ! 3 \<noteq> 0 then utf16_decode False b else utf32_decode False b)
      else if length b = 2 \<and> b ! 0 = 0 then utf16_decode True b
      else if length b = 2 \<and> b ! 1 = 0 then utf16_decode False b
      else utf8_decode_pass b)"

definition json_loads_bytes :: "bytes \<Rightarrow> pyval res" where
  "json_loads_bytes b = (case json_decode_bytes b of
      None \<Rightarrow> Inl (Exn (OtherException ''UnicodeDecodeError'') ''cannot decode input'')
    | Some s \<Rightarrow> json_loads s)"

section \<open>The fuel is enough\<close>

lemma skip_ws_length: "length (skip_ws s) \<le> length s"
  by (simp add: skip_ws_def length_dropWhile_le)

lemma skip_ws_Cons_length: "skip_ws s = c # t \<Longrightarrow> length t < length s"
  using skip_ws_length [of s] by simp

lemma json_string_Nil: "json_string [] = json_error ''Unterminated string starting at''"
  by (subst json_string.simps) simp

lemma json_string_quote [simp]: "json_string (dquote_char # t) = Inr ([], t)"
  by (subst json_string.simps) simp

lemma json_string_escape:
  "json_string (backslash_char # t) =
     rbind (json_escape t) (\<lambda>(x, r). rbind (json_string r) (\<lambda>(y, r'). Inr (x @ y, r')))"
  by (subst json_string.simps) simp

lemma json_string_char:
  "c \<noteq> dquote_char \<Longrightarrow> c \<noteq> backslash_char \<Longrightarrow> json_string (c # t) =
     (if (of_char c :: nat) < 32 then json_error ''Invalid control character at''
      else rbind (json_string t) (\<lambda>(y, r). Inr (c # y, r)))"
  by (subst json_string.simps) simp

lemma json_string_length: "json_string s = Inr (x, r) \<Longrightarrow> length r < length s"
proof (induction "length s" arbitrary: s x r rule: less_induct)
  case less
  show ?case
  proof (cases s)
    case Nil
    with less.prems show ?thesis by (simp add: json_string_Nil)
  next
    case (Cons c t)
    consider "c = dquote_char" | "c = backslash_char" | "c \<noteq> dquote_char" "c \<noteq> backslash_char" by blast
    then show ?thesis
    proof cases
      case 1
      with less.prems Cons show ?thesis by simp
    next
      case 2
      with less.prems Cons obtain y r1 z where
        e: "json_escape t = Inr (y, r1)" "json_string r1 = Inr (z, r)"
        by (auto simp: json_string_escape)
      from json_escape_length [OF e(1)] less.hyps [OF _ e(2)] Cons show ?thesis by simp
    next
      case 3
      with less.prems Cons obtain y where e: "json_string t = Inr (y, r)"
        by (auto simp: json_string_char split: if_splits)
      from less.hyps [OF _ e] Cons show ?thesis by simp
    qed
  qed
qed

lemma json_frac_length: "json_frac s = (x, r) \<Longrightarrow> length r \<le> length s"
  by (auto simp: json_frac_def length_dropWhile_le le_SucI split: list.splits if_splits)

lemma json_exp_length: "json_exp s = (x, r) \<Longrightarrow> length r \<le> length s"
  by (cases s; cases "tl s")
    (auto simp: json_exp_def Let_def length_dropWhile_le le_SucI split: if_splits)

lemma json_int_part_length: "json_int_part t = (x, r) \<Longrightarrow> is_digit (hd t) \<Longrightarrow> t \<noteq> [] \<Longrightarrow> length r < length t"
  by (cases t) (auto simp: json_int_part_def length_dropWhile_le le_imp_less_Suc split: if_splits)

lemma json_number_length: "json_number s = Inr (v, r) \<Longrightarrow> length r < length s"
proof -
  assume a: "json_number s = Inr (v, r)"
  define t where "t = (if s \<noteq> [] \<and> hd s = CHR ''-'' then tl s else s)"
  obtain i q f r1 e r2 where f: "json_int_part t = (i, q)" "json_frac q = (f, r1)" "json_exp r1 = (e, r2)"
    by (meson surj_pair)
  from a have t: "t \<noteq> []" "is_digit (hd t)"
    by (auto simp: json_number_def Let_def t_def [symmetric] split: if_splits)
  from a t f have "r = r2"
    by (auto simp: json_number_def Let_def t_def [symmetric] split: if_splits)
  moreover have "length t \<le> length s" by (simp add: t_def)
  ultimately show ?thesis
    using json_int_part_length [OF f(1) t(2,1)] json_frac_length [OF f(2)] json_exp_length [OF f(3)] by simp
qed

lemma json_constant_length:
  "json_constant cs s = Some (v, r) \<Longrightarrow> (\<forall>(w, _) \<in> set cs. w \<noteq> []) \<Longrightarrow> length r < length s"
  by (induction cs s rule: json_constant.induct) (auto split: if_splits simp: prefix_def)

lemma json_scalar_length:
  assumes "json_scalar s = Inr (v, r)"
  shows "length r < length s"
proof (cases "json_constant json_constants s")
  case None
  with assms show ?thesis by (simp add: json_scalar_def json_number_length)
next
  case (Some p)
  with assms have "json_constant json_constants s = Some (v, r)" by (simp add: json_scalar_def)
  then show ?thesis by (rule json_constant_length) (simp add: json_constants_def)
qed

lemma json_key_length:
  assumes "json_key s = Inr (k, r)"
  shows "length r < length s"
proof -
  from assms obtain t k' r1 where e: "s = dquote_char # t" "json_string t = Inr (k', r1)"
    by (cases s) (auto simp: json_key_def split: if_splits)
  with assms obtain c u where u: "skip_ws r1 = c # u" "r = skip_ws u"
    by (cases "skip_ws r1") (auto simp: json_key_def split: if_splits)
  show ?thesis
    using json_string_length [OF e(2)] skip_ws_Cons_length [OF u(1)] skip_ws_length [of u] e(1) u(2) by simp
qed

text \<open>The ways a value, a list tail or an object tail can be read.\<close>

lemma json_value_cases:
  assumes "json_value (Suc n) s = Inr (v, r)"
  obtains t x where "s = dquote_char # t" "json_string t = Inr (x, r)"
  | t u where "s = CHR ''['' # t" "skip_ws t = CHR '']'' # u" "r = u"
  | t w q where "s = CHR ''['' # t" "json_value n (skip_ws t) = Inr (w, q)"
      "json_items n [w] (skip_ws q) = Inr (v, r)"
  | t u where "s = CHR ''{'' # t" "skip_ws t = CHR ''}'' # u" "r = u"
  | t k p w q where "s = CHR ''{'' # t" "json_key (skip_ws t) = Inr (k, p)" "json_value n p = Inr (w, q)"
      "json_members n [(k, w)] (skip_ws q) = Inr (v, r)"
  | "json_scalar s = Inr (v, r)"
proof (cases s)
  case (Cons c t)
  then show thesis
    using assms that by (cases "skip_ws t") (auto simp: json_value.simps split: if_splits)
qed (use assms in \<open>simp add: json_value.simps\<close>)

lemma json_items_cases:
  assumes "json_items (Suc n) vs s = Inr (v, r)"
  obtains "s = CHR '']'' # r"
  | t w q where "s = CHR '','' # t" "json_value n (skip_ws t) = Inr (w, q)"
      "json_items n (vs @ [w]) (skip_ws q) = Inr (v, r)"
  using assms by (cases s) (auto simp: json_items.simps split: if_splits)

lemma json_members_cases:
  assumes "json_members (Suc n) d s = Inr (v, r)"
  obtains "s = CHR ''}'' # r"
  | t k p w q where "s = CHR '','' # t" "json_key (skip_ws t) = Inr (k, p)" "json_value n p = Inr (w, q)"
      "json_members n (dict_set k w d) (skip_ws q) = Inr (v, r)"
  using assms by (cases s) (auto simp: json_members.simps split: if_splits)

lemma skip_ws_trans: "length q < length (skip_ws t) \<Longrightarrow> length q < length t"
  using skip_ws_length [of t] by simp

lemma json_value_length_all:
  "(\<forall>s v r. json_value n s = Inr (v, r) \<longrightarrow> length r < length s) \<and>
   (\<forall>vs s v r. json_items n vs s = Inr (v, r) \<longrightarrow> length r < length s) \<and>
   (\<forall>d s v r. json_members n d s = Inr (v, r) \<longrightarrow> length r < length s)"
proof (induction n)
  case (Suc n)
  then have IH: "json_value n s = Inr (v, r) \<Longrightarrow> length r < length s"
    "json_items n vs s = Inr (v, r) \<Longrightarrow> length r < length s"
    "json_members n d s = Inr (v, r) \<Longrightarrow> length r < length s" for s v r vs d
    by blast+
  note IH_ws = IH [THEN skip_ws_trans] and key_ws = json_key_length [THEN skip_ws_trans]
  have "length r < length s" if "json_value (Suc n) s = Inr (v, r)" for s v r
    using that
  proof (cases rule: json_value_cases)
    case (1 t x)
    then show ?thesis using json_string_length [of t] by fastforce
  next
    case (2 t u)
    then show ?thesis using skip_ws_Cons_length [of t] by fastforce
  next
    case (3 t w q)
    then show ?thesis using IH_ws(2) [OF 3(3)] IH_ws(1) [OF 3(2)] by simp
  next
    case (4 t u)
    then show ?thesis using skip_ws_Cons_length [of t] by fastforce
  next
    case (5 t k p w q)
    then show ?thesis using IH_ws(3) [OF 5(4)] IH(1) [OF 5(3)] key_ws [OF 5(2)] by simp
  qed (rule json_scalar_length)
  moreover have "length r < length s" if "json_items (Suc n) vs s = Inr (v, r)" for vs s v r
    using that
  proof (cases rule: json_items_cases)
    case (2 t w q)
    then show ?thesis using IH_ws(2) [OF 2(3)] IH_ws(1) [OF 2(2)] by simp
  qed simp
  moreover have "length r < length s" if "json_members (Suc n) d s = Inr (v, r)" for d s v r
    using that
  proof (cases rule: json_members_cases)
    case (2 t k p w q)
    then show ?thesis using IH_ws(3) [OF 2(4)] IH(1) [OF 2(3)] key_ws [OF 2(2)] by simp
  qed simp
  ultimately show ?case by blast
qed simp

lemmas json_value_length = json_value_length_all [THEN conjunct1, rule_format]

lemma json_fuel_all:
  "(\<forall>s. length s < n \<longrightarrow> json_value (Suc n) s = json_value n s) \<and>
   (\<forall>vs s. length s < n \<longrightarrow> json_items (Suc n) vs s = json_items n vs s) \<and>
   (\<forall>d s. length s < n \<longrightarrow> json_members (Suc n) d s = json_members n d s)"
proof (induction n)
  case (Suc n)
  then have IH: "length s < n \<Longrightarrow> json_value (Suc n) s = json_value n s"
    "length s < n \<Longrightarrow> json_items (Suc n) vs s = json_items n vs s"
    "length s < n \<Longrightarrow> json_members (Suc n) d s = json_members n d s" for s vs d
    by blast+
  have items: "rbind (json_value (Suc n) s) (\<lambda>(v, r). json_items (Suc n) (f v) (skip_ws r)) =
      rbind (json_value n s) (\<lambda>(v, r). json_items n (f v) (skip_ws r))" if "length s < n" for s f
    using that by (intro rbind_cong)
      (auto simp: IH(1) dest!: json_value_length intro!: IH(2) le_less_trans [OF skip_ws_length])
  have members: "rbind (json_value (Suc n) s) (\<lambda>(v, r). json_members (Suc n) (f v) (skip_ws r)) =
      rbind (json_value n s) (\<lambda>(v, r). json_members n (f v) (skip_ws r))" if "length s < n" for s f
    using that by (intro rbind_cong)
      (auto simp: IH(1) dest!: json_value_length intro!: IH(3) le_less_trans [OF skip_ws_length])
  have keyed: "rbind (json_key s) (\<lambda>(k, r). rbind (json_value (Suc n) r) (\<lambda>(v, r'). json_members (Suc n) (f k v) (skip_ws r'))) =
      rbind (json_key s) (\<lambda>(k, r). rbind (json_value n r) (\<lambda>(v, r'). json_members n (f k v) (skip_ws r')))"
    if "length s \<le> n" for s f
    using that by (intro rbind_cong) (auto dest!: json_key_length intro!: members)
  have sh: "length (skip_ws t) < n" if "length s < Suc n" "s = c # t" for s c t
    using that skip_ws_length [of t] by simp
  have "json_value (Suc (Suc n)) s = json_value (Suc n) s" if l: "length s < Suc n" for s
  proof (cases s)
    case (Cons c t)
    with sh [OF l Cons] show ?thesis
      by (subst json_value.simps(2) [of "Suc n" s], subst json_value.simps(2) [of n s])
        (cases "skip_ws t"; simp add: items keyed)
  qed (simp add: json_value.simps)
  moreover have "json_items (Suc (Suc n)) vs s = json_items (Suc n) vs s" if l: "length s < Suc n" for vs s
  proof (cases s)
    case (Cons c t)
    with sh [OF l Cons] show ?thesis
      by (subst json_items.simps(2) [of "Suc n"], subst json_items.simps(2) [of n vs s]) (simp add: items)
  qed (simp add: json_items.simps)
  moreover have "json_members (Suc (Suc n)) d s = json_members (Suc n) d s" if l: "length s < Suc n" for d s
  proof (cases s)
    case (Cons c t)
    with sh [OF l Cons] show ?thesis
      by (subst json_members.simps(2) [of "Suc n"], subst json_members.simps(2) [of n d s]) (simp add: keyed)
  qed (simp add: json_members.simps)
  ultimately show ?case by blast
qed simp

text \<open>With fuel beyond the length of the input, more fuel changes nothing.\<close>

lemma json_value_enough:
  assumes "length s < n" "n \<le> m"
  shows "json_value m s = json_value n s"
  using assms(2,1) by (induction m rule: dec_induct) (use json_fuel_all in fastforce)+

section \<open>What parsing can raise\<close>

definition json_exn :: "exn \<Rightarrow> bool" where
  "json_exn e \<longleftrightarrow> exn_kind e \<in> {JSONDecodeError, ValueError}"

lemma json_exn_simps [simp]: "json_exn (Exn JSONDecodeError m)" "json_exn (Exn ValueError m)"
  by (simp_all add: json_exn_def)

lemma json_string_exn: "json_string s = Inl e \<Longrightarrow> json_exn e"
proof (induction "length s" arbitrary: s rule: less_induct)
  case less
  show ?case
  proof (cases s)
    case (Cons c t)
    have esc: "json_escape t = Inl e \<Longrightarrow> json_exn e" by (cases t) (auto split: option.splits if_splits)
    have IH: "length r \<le> length t \<Longrightarrow> json_string r = Inl e \<Longrightarrow> json_exn e" for r
      using less.hyps [of r] Cons by simp
    from less.prems Cons show ?thesis
      by (cases "c = dquote_char"; cases "c = backslash_char")
        (auto simp: json_string_escape json_string_char rbind_eq_Inl split: if_splits
          dest: esc json_escape_length [THEN less_imp_le] intro: IH)
  qed (use less.prems in \<open>auto simp: json_string_Nil\<close>)
qed

lemma json_key_exn: "json_key s = Inl e \<Longrightarrow> json_exn e"
proof (cases s)
  case (Cons c t)
  assume "json_key s = Inl e"
  with Cons show ?thesis
    by (cases "json_string t") (auto simp: json_key_def json_string_exn split: list.splits if_splits)
qed (auto simp: json_key_def)

lemma json_scalar_exn: "json_scalar s = Inl e \<Longrightarrow> json_exn e"
  by (auto simp: json_scalar_def json_number_def Let_def split: option.splits if_splits prod.splits)

lemma json_value_exn_all:
  "(\<forall>s. length s < n \<longrightarrow> json_value n s = Inl e \<longrightarrow> json_exn e) \<and>
   (\<forall>vs s. length s < n \<longrightarrow> json_items n vs s = Inl e \<longrightarrow> json_exn e) \<and>
   (\<forall>d s. length s < n \<longrightarrow> json_members n d s = Inl e \<longrightarrow> json_exn e)"
proof (induction n)
  case (Suc n)
  then have IH: "length s < n \<Longrightarrow> json_value n s = Inl e \<Longrightarrow> json_exn e"
    "length s < n \<Longrightarrow> json_items n vs s = Inl e \<Longrightarrow> json_exn e"
    "length s < n \<Longrightarrow> json_members n d s = Inl e \<Longrightarrow> json_exn e" for s vs d
    by blast+
  have IHw: "length s < n \<Longrightarrow> json_items n vs (skip_ws s) = Inl e \<Longrightarrow> json_exn e"
    "length s < n \<Longrightarrow> json_members n d (skip_ws s) = Inl e \<Longrightarrow> json_exn e" for s vs d
    using IH(2) [of "skip_ws s"] IH(3) [of "skip_ws s"] skip_ws_length [of s] by simp_all
  have items: "rbind (json_value n s) (\<lambda>(v, r). json_items n (f v) (skip_ws r)) = Inl e \<Longrightarrow> json_exn e"
    if "length s < n" for s f
    using that by (auto simp: rbind_eq_Inl dest!: json_value_length
          intro: IH IHw(1) [OF less_trans])
  have keyed: "rbind (json_key s) (\<lambda>(k, r). rbind (json_value n r) (\<lambda>(v, r'). json_members n (f k v) (skip_ws r'))) = Inl e
      \<Longrightarrow> json_exn e" if "length s \<le> n" for s f
    using that by (auto simp: rbind_eq_Inl json_key_exn dest!: json_value_length json_key_length
          intro: IH(1) [OF less_le_trans] IHw(2) [OF less_trans [OF _ less_le_trans]])
  have sh: "length (skip_ws t) < n" if "length s < Suc n" "s = c # t" for s c t
    using that skip_ws_length [of t] by simp
  have "json_exn e" if "length s < Suc n" "json_value (Suc n) s = Inl e" for s
  proof (cases s)
    case (Cons c t)
    have key: "length (skip_ws t) \<le> n" using sh [OF that(1) Cons] by simp
    from that Cons show ?thesis
      using items [OF sh [OF that(1) Cons], of "\<lambda>v. [v]"] keyed [OF key, of "\<lambda>k v. [(k, v)]"]
      by (cases "skip_ws t")
        (auto simp: json_value.simps rbind_eq_Inl json_string_exn json_scalar_exn split: if_splits prod.splits)
  qed (use that in \<open>auto simp: json_value.simps\<close>)
  moreover have "json_exn e" if "length s < Suc n" "json_items (Suc n) vs s = Inl e" for vs s
  proof (cases s)
    case (Cons c t)
    with that show ?thesis using items [OF sh [OF that(1) Cons]]
      by (auto simp: json_items.simps split: if_splits)
  qed (use that in \<open>auto simp: json_items.simps\<close>)
  moreover have "json_exn e" if "length s < Suc n" "json_members (Suc n) d s = Inl e" for d s
  proof (cases s)
    case (Cons c t)
    with that show ?thesis using keyed [OF less_imp_le [OF sh [OF that(1) Cons]]]
      by (auto simp: json_members.simps split: if_splits)
  qed (use that in \<open>auto simp: json_members.simps\<close>)
  ultimately show ?case by blast
qed simp

text \<open>
  Parsing ends with a value, a \<^verbatim>\<open>JSONDecodeError\<close>, or (an integer of more than 4300 digits) a plain
  \<^verbatim>\<open>ValueError\<close>; the fuel never runs out.
\<close>

lemma json_loads_exn: "json_loads s = Inl e \<Longrightarrow> json_exn e"
proof -
  assume a: "json_loads s = Inl e"
  have "length (skip_ws s) < Suc (length s)" using skip_ws_length [of s] by simp
  with json_value_exn_all [of "Suc (length s)" e]
  have "json_value (Suc (length s)) (skip_ws s) = Inl e \<Longrightarrow> json_exn e" by blast
  with a show ?thesis by (auto simp: json_loads_def rbind_eq_Inl split: if_splits)
qed

section \<open>Round trip\<close>

text \<open>
  The values the round trip covers: no floats (their spelling is not canonical), integers within
  the conversion limit, texts without lone surrogates, objects without repeated keys.
\<close>

fun json_plain :: "pyval \<Rightarrow> bool" where
  "json_plain (PInt i) = (length (nat_str (nat \<bar>i\<bar>)) \<le> 4300)"
| "json_plain (PFloat s) = False"
| "json_plain (PStr s) = scalar_text s"
| "json_plain (PList xs) = list_all json_plain xs"
| "json_plain (PDict d) = (distinct (map fst d) \<and> list_all (\<lambda>kv. scalar_text (fst kv) \<and> json_plain (snd kv)) d)"
| "json_plain _ = True"

lemma hex_val_hex_char [simp]: "n < 16 \<Longrightarrow> hex_val (hex_char n) = Some n"
  by (auto simp: hex_val_def hex_char_def Let_def)

lemma hex4_digits: "(n :: nat) div 4096 * 4096 + n div 256 mod 16 * 256 + n div 16 mod 16 * 16 + n mod 16 = n"
proof -
  have "n div 4096 = n div 256 div 16" "n div 256 = n div 16 div 16" by (simp_all add: div_mult2_eq [symmetric])
  then show ?thesis
    using mult_div_mod_eq [of 16 n] mult_div_mod_eq [of 16 "n div 16"] mult_div_mod_eq [of 16 "n div 256"]
    by linarith
qed

lemma hex4_val_hex4 [simp]: "n < 65536 \<Longrightarrow> hex4_val (hex4 n @ s) = Some (n, s)"
  by (simp add: hex4_def hex4_digits)

lemma json_escape_u:
  "n < 65536 \<Longrightarrow> \<not> (0xD800 \<le> n \<and> n \<le> 0xDBFF) \<Longrightarrow> json_escape (CHR ''u'' # hex4 n @ s) = Inr (utf8_enc n, s)"
  by auto

lemma json_escape_pair:
  assumes "0x10000 \<le> n" "n < 0x110000"
  shows "json_escape (CHR ''u'' # hex4 (0xD800 + (n - 0x10000) div 1024)
      @ u_escape (0xDC00 + (n - 0x10000) mod 1024) @ s) = Inr (utf8_enc n, s)"
proof -
  define m where "m = n - 0x10000"
  have "m div 1024 < 1024" "m mod 1024 < 1024" using assms by (auto simp: m_def)
  moreover have "65536 + m div 1024 * 1024 + m mod 1024 = n" using assms by (simp add: m_def)
  ultimately show ?thesis by (simp add: m_def [symmetric] u_escape_def)
qed

lemma char_of_neq [simp]:
  "n < 256 \<Longrightarrow> n \<noteq> 34 \<Longrightarrow> char_of n \<noteq> dquote_char" "n < 256 \<Longrightarrow> n \<noteq> 92 \<Longrightarrow> char_of n \<noteq> backslash_char" for n :: nat
  by (auto dest!: arg_cong [where f = "of_char :: char \<Rightarrow> nat"])

lemma escaped_chars:
  "char_of (34 :: nat) = dquote_char" "char_of (92 :: nat) = backslash_char" "char_of (10 :: nat) = newline_char"
  "char_of (13 :: nat) = CHR 0x0D" "char_of (9 :: nat) = CHR 0x09" "char_of (12 :: nat) = CHR 0x0C"
  "char_of (8 :: nat) = CHR 0x08"
  by code_simp+

lemma json_string_esc:
  assumes "is_scalar n"
  shows "json_string (json_esc n @ s) = rbind (json_string s) (\<lambda>(y, r). Inr (utf8_enc n @ y, r))"
proof -
  consider "n \<in> {34, 92, 10, 13, 9, 12, 8}" | "n \<notin> {34, 92, 10, 13, 9, 12, 8}" "32 \<le> n" "n \<le> 126"
    | "n \<notin> {34, 92, 10, 13, 9, 12, 8}" "\<not> (32 \<le> n \<and> n \<le> 126)" "n < 0x10000" | "0x10000 \<le> n" by linarith
  then show ?thesis
  proof cases
    case 1
    then show ?thesis by (auto simp: json_esc_def json_string_escape simple_escape_def utf8_enc_def escaped_chars)
  next
    case 2
    then show ?thesis by (simp add: json_esc_def json_string_char utf8_enc_def)
  next
    case 3
    with assms have "json_escape (CHR ''u'' # hex4 n @ s) = Inr (utf8_enc n, s)"
      by (intro json_escape_u) (auto simp: is_scalar_def)
    moreover from 3 have "json_esc n = u_escape n" by (auto simp: json_esc_def)
    ultimately show ?thesis by (simp add: u_escape_def json_string_escape del: json_escape.simps)
  next
    case 4
    with assms have "json_escape (CHR ''u'' # hex4 (0xD800 + (n - 0x10000) div 1024)
      @ u_escape (0xDC00 + (n - 0x10000) mod 1024) @ s) = Inr (utf8_enc n, s)"
      by (intro json_escape_pair) (auto simp: is_scalar_def)
    with 4 show ?thesis by (simp add: json_esc_def u_escape_def json_string_escape del: json_escape.simps)
  qed
qed

lemma json_string_points:
  "list_all is_scalar ns \<Longrightarrow> json_string (concat (map json_esc ns) @ dquote_char # s) = Inr (utf8_text ns, s)"
  by (induction ns) (simp_all add: json_string_esc utf8_text_def)

lemma json_string_str:
  "scalar_text s \<Longrightarrow> json_string (concat (map json_esc (utf8_points s)) @ dquote_char # r) = Inr (s, r)"
  using json_string_points [of "utf8_points s" r] by (simp add: scalar_text_def)

text \<open>What may follow a value: nothing that a number could swallow.\<close>

definition json_ends :: "string \<Rightarrow> bool" where
  "json_ends s \<longleftrightarrow> (case s of [] \<Rightarrow> True | c # _ \<Rightarrow> \<not> is_digit c \<and> c \<noteq> CHR ''.'' \<and> c \<noteq> CHR ''e'' \<and> c \<noteq> CHR ''E'')"

lemma json_ends_no_frac_exp: "json_ends s \<Longrightarrow> json_frac s = ([], s) \<and> json_exp s = ([], s)"
  by (auto simp: json_ends_def json_frac_def json_exp_def Let_def split: list.splits)

lemma takeWhile_digits:
  "list_all is_digit ds \<Longrightarrow> json_ends s \<Longrightarrow> takeWhile is_digit (ds @ s) = ds \<and> dropWhile is_digit (ds @ s) = s"
  by (cases s) (auto simp: json_ends_def list_all_iff)

lemma hd_nat_str_digit: "is_digit (hd (nat_str n))" "hd (nat_str n) \<noteq> CHR ''-''"
proof -
  show d: "is_digit (hd (nat_str n))"
    using nat_str_digits [of n] nat_str_not_Nil [of n] by (cases "nat_str n") auto
  show "hd (nat_str n) \<noteq> CHR ''-''" using d by (auto simp: is_digit_def)
qed

lemma json_int_part_nat_str:
  assumes "json_ends s"
  shows "json_int_part (nat_str n @ s) = (nat_str n, s)"
proof (cases "n = 0")
  case True
  then show ?thesis by (simp add: nat_str_0 json_int_part_def)
next
  case False
  then obtain d where d: "0 < d" "d < 10" "hd (nat_str n) = digit_char d" using hd_nat_str by blast
  then have "hd (nat_str n) \<noteq> CHR ''0''"
    using of_char_char_of_digit [of d] by (auto dest!: arg_cong [where f = "of_char :: char \<Rightarrow> nat"])
  then show ?thesis using takeWhile_digits [OF nat_str_digits assms] by (simp add: json_int_part_def)
qed

lemma json_number_int:
  assumes "json_ends s" "length (nat_str (nat \<bar>i\<bar>)) \<le> 4300"
  shows "json_number (int_str i @ s) = Inr (PInt i, s)"
  using assms json_ends_no_frac_exp [OF assms(1)] json_int_part_nat_str [OF assms(1)] hd_nat_str_digit
  by (cases "i < 0") (simp_all add: json_number_def int_str_def Let_def)

lemma int_str_cases:
  obtains d u where "int_str i = d # u" "is_digit d"
  | d u where "int_str i = CHR ''-'' # d # u" "is_digit d"
proof -
  obtain d u where "nat_str (nat \<bar>i\<bar>) = d # u" "is_digit d"
    using hd_nat_str_digit(1) [of "nat \<bar>i\<bar>"] nat_str_not_Nil [of "nat \<bar>i\<bar>"]
    by (cases "nat_str (nat \<bar>i\<bar>)") auto
  with that show thesis by (cases "i < 0") (auto simp: int_str_def)
qed

lemma is_digit_neq:
  "is_digit c \<Longrightarrow> c \<notin> {CHR ''n'', CHR ''t'', CHR ''f'', CHR ''N'', CHR ''I'', CHR ''-'', dquote_char, CHR ''['', CHR ''{'',
     CHR '']'', CHR ''}'', CHR '' '', CHR 0x09, CHR 0x0A, CHR 0x0D, CHR 0xEF}"
  by (auto simp: is_digit_def)

lemma json_scalar_int:
  assumes "json_ends s" "length (nat_str (nat \<bar>i\<bar>)) \<le> 4300"
  shows "json_scalar (int_str i @ s) = Inr (PInt i, s)"
proof -
  have "json_constant json_constants (int_str i @ s) = None"
    by (rule int_str_cases [of i]) (auto simp: json_constants_def dest!: is_digit_neq)
  then show ?thesis by (simp add: json_scalar_def json_number_int [OF assms])
qed

text \<open>A dumped value starts with a character that neither is white space nor closes anything.\<close>

definition json_starts :: "string \<Rightarrow> bool" where
  "json_starts s \<longleftrightarrow> (case s of [] \<Rightarrow> False | c # _ \<Rightarrow> \<not> is_json_ws c \<and> c \<noteq> CHR '']'' \<and> c \<noteq> CHR ''}'' \<and> c \<noteq> CHR 0xEF)"

lemma json_starts_append: "json_starts s \<Longrightarrow> json_starts (s @ t)"
  by (cases s) (auto simp: json_starts_def)

lemma json_starts_int: "json_starts (int_str i)"
  by (rule int_str_cases [of i]) (auto simp: json_starts_def is_json_ws_def dest!: is_digit_neq)

lemma json_starts_str: "json_starts (json_str k @ t)"
  by (simp add: json_starts_def json_str_def is_json_ws_def)

lemma json_starts_dump: "json_plain v \<Longrightarrow> json_starts (json_dump ind l v)"
proof (cases v)
  case (PList xs)
  then show ?thesis by (cases xs) (simp_all add: json_starts_def is_json_ws_def)
next
  case (PDict d)
  then show ?thesis by (cases d) (simp_all add: json_starts_def is_json_ws_def)
next
  case (PStr s)
  then show ?thesis using json_starts_str [of s "[]"] by simp
qed (auto simp: json_starts_int, auto simp: json_starts_def is_json_ws_def)

lemma skip_ws_starts [simp]: "json_starts s \<Longrightarrow> skip_ws s = s"
  by (cases s) (simp_all add: json_starts_def skip_ws_def)

lemma skip_ws_replicate [simp]: "skip_ws (replicate n (CHR '' '') @ s) = skip_ws s"
  by (induction n) (simp_all add: skip_ws_def is_json_ws_def)

lemma skip_ws_Cons: "skip_ws (c # s) = (if is_json_ws c then skip_ws s else c # s)"
  by (simp add: skip_ws_def)

lemma skip_ws_nl [simp]: "skip_ws (json_nl ind l @ s) = skip_ws s"
  by (simp add: json_nl_def skip_ws_Cons is_json_ws_def)

lemma json_sep_Cons: "\<exists>w. json_sep ind l = CHR '','' # w \<and> (\<forall>s. skip_ws (w @ s) = skip_ws s)"
  by (cases ind) (auto simp: json_sep_def skip_ws_nl, simp add: skip_ws_def is_json_ws_def)

lemma join_str_Cons: "join_str sep (x # xs) = x @ concat (map (\<lambda>y. sep @ y) xs)"
  by (induction xs arbitrary: x) simp_all

lemma json_key_str:
  "scalar_text k \<Longrightarrow> json_starts s \<Longrightarrow> json_key (json_str k @ '': '' @ s) = Inr (k, s)"
  by (simp add: json_key_def json_str_def json_string_str)
    (simp add: skip_ws_def is_json_ws_def, simp add: skip_ws_def [symmetric])

lemma json_items_tail:
  assumes "\<And>v r m. v \<in> set vs \<Longrightarrow> json_ends r \<Longrightarrow> length (f v @ r) < m \<Longrightarrow> json_value m (f v @ r) = Inr (v, r)"
    and "\<And>v. v \<in> set vs \<Longrightarrow> json_starts (f v)"
    and "length (concat (map (\<lambda>v. json_sep ind l @ f v) vs) @ json_nl ind l' @ CHR '']'' # rest) < n"
  shows "json_items n acc (skip_ws (concat (map (\<lambda>v. json_sep ind l @ f v) vs) @ json_nl ind l' @ CHR '']'' # rest))
    = Inr (PList (acc @ vs), rest)"
  using assms
proof (induction vs arbitrary: n acc)
  case Nil
  then obtain m where "n = Suc m" by (cases n) auto
  then show ?case by (simp add: skip_ws_Cons is_json_ws_def json_items.simps)
next
  case (Cons v vs)
  let ?tail = "concat (map (\<lambda>v. json_sep ind l @ f v) vs) @ json_nl ind l' @ CHR '']'' # rest"
  obtain w where w: "json_sep ind l = CHR '','' # w" "\<And>s. skip_ws (w @ s) = skip_ws s"
    using json_sep_Cons by blast
  from Cons.prems(3) obtain m where m: "n = Suc m" by (cases n) auto
  have st: "json_starts (f v @ ?tail)" by (simp add: Cons.prems(2) json_starts_append)
  have en: "json_ends ?tail"
    by (cases vs) (auto simp: json_ends_def w(1) json_nl_def is_digit_def)
  have len: "length (f v @ ?tail) < m" "length ?tail < m" using Cons.prems(3) by (simp_all add: m w(1))
  have "json_value m (f v @ ?tail) = Inr (v, ?tail)"
    using Cons.prems(1) [OF _ en len(1)] by simp
  moreover have "json_items m (acc @ [v]) (skip_ws ?tail) = Inr (PList ((acc @ [v]) @ vs), rest)"
    using Cons.prems len(2) by (intro Cons.IH) auto
  ultimately show ?case
    using skip_ws_starts [OF st] by (simp add: m w skip_ws_Cons is_json_ws_def json_items.simps)
qed

lemma json_members_tail:
  assumes "\<And>k v r m. (k, v) \<in> set d \<Longrightarrow> json_ends r \<Longrightarrow> length (f v @ r) < m \<Longrightarrow> json_value m (f v @ r) = Inr (v, r)"
    and "\<forall>(k, v) \<in> set d. json_starts (f v) \<and> scalar_text k"
    and "distinct (map fst (acc @ d))"
    and "length (concat (map (\<lambda>(k, v). json_sep ind l @ json_str k @ '': '' @ f v) d) @ json_nl ind l' @ CHR ''}'' # rest) < n"
  shows "json_members n acc
      (skip_ws (concat (map (\<lambda>(k, v). json_sep ind l @ json_str k @ '': '' @ f v) d) @ json_nl ind l' @ CHR ''}'' # rest))
    = Inr (PDict (acc @ d), rest)"
  using assms
proof (induction d arbitrary: n acc)
  case Nil
  then obtain m where "n = Suc m" by (cases n) auto
  then show ?case by (simp add: skip_ws_Cons is_json_ws_def json_members.simps)
next
  case (Cons kv d)
  obtain k v where kv: "kv = (k, v)" by (cases kv)
  let ?tail = "concat (map (\<lambda>(k, v). json_sep ind l @ json_str k @ '': '' @ f v) d) @ json_nl ind l' @ CHR ''}'' # rest"
  obtain w where w: "json_sep ind l = CHR '','' # w" "\<And>s. skip_ws (w @ s) = skip_ws s"
    using json_sep_Cons by blast
  from Cons.prems(4) obtain m where m: "n = Suc m" by (cases n) auto
  have st: "json_starts (f v @ ?tail)" "scalar_text k"
    using Cons.prems(2) kv by (simp_all add: json_starts_append)
  have en: "json_ends ?tail"
    by (cases d) (auto simp: json_ends_def w(1) json_nl_def is_digit_def split: prod.splits)
  have len: "length (f v @ ?tail) < m" "length ?tail < m" using Cons.prems(4) by (simp_all add: m w(1) kv)
  have "json_value m (f v @ ?tail) = Inr (v, ?tail)"
    using Cons.prems(1) [OF _ en len(1), of k] kv by simp
  moreover have "json_members m (acc @ [(k, v)]) (skip_ws ?tail) = Inr (PDict ((acc @ [(k, v)]) @ d), rest)"
    using Cons.prems len(2) kv by (intro Cons.IH) auto
  moreover have "dict_set k v acc = acc @ [(k, v)]"
    using Cons.prems(3) kv by (intro dict_set_fresh) auto
  moreover have "json_key (json_str k @ '': '' @ f v @ ?tail) = Inr (k, f v @ ?tail)"
    by (rule json_key_str [OF st(2,1)])
  moreover have "skip_ws (json_str k @ '': '' @ f v @ ?tail) = json_str k @ '': '' @ f v @ ?tail"
    by (simp add: json_starts_str)
  ultimately show ?case
    by (simp add: m w kv skip_ws_Cons is_json_ws_def json_members.simps)
qed

lemma json_dump_list_map: "json_dump_list ind l xs = map (json_dump ind l) xs"
  by (induction xs) simp_all

lemma json_dump_dict_map: "json_dump_dict ind l d = map (\<lambda>(k, v). json_str k @ '': '' @ json_dump ind l v) d"
  by (induction d) auto

lemma json_value_list:
  assumes "\<And>v r m. v \<in> set (x # xs) \<Longrightarrow> json_ends r \<Longrightarrow> length (f v @ r) < m \<Longrightarrow> json_value m (f v @ r) = Inr (v, r)"
    and "\<And>v. v \<in> set (x # xs) \<Longrightarrow> json_starts (f v)"
    and "length (CHR ''['' # json_nl ind l @ join_str (json_sep ind l) (map f (x # xs)) @ json_nl ind l' @ CHR '']'' # rest) < n"
  shows "json_value n (CHR ''['' # json_nl ind l @ join_str (json_sep ind l) (map f (x # xs)) @ json_nl ind l' @ CHR '']'' # rest)
    = Inr (PList (x # xs), rest)"
proof -
  let ?tail = "concat (map (\<lambda>v. json_sep ind l @ f v) xs) @ json_nl ind l' @ CHR '']'' # rest"
  from assms(3) obtain m where m: "n = Suc m" by (cases n) auto
  have st: "json_starts (f x @ ?tail)" by (simp add: assms(2) json_starts_append)
  obtain w where w: "json_sep ind l = CHR '','' # w" using json_sep_Cons by blast
  have en: "json_ends ?tail" by (cases xs) (auto simp: json_ends_def w json_nl_def is_digit_def)
  have len: "length (f x @ ?tail) < m" "length ?tail < m"
    using assms(3) by (simp_all add: m join_str_Cons comp_def)
  have v: "json_value m (f x @ ?tail) = Inr (x, ?tail)" using assms(1) [OF _ en len(1)] by simp
  have i: "json_items m [x] (skip_ws ?tail) = Inr (PList ([x] @ xs), rest)"
    using assms len(2) by (intro json_items_tail) auto
  from st obtain c u where c: "f x @ ?tail = c # u" "c \<noteq> CHR '']''"
    by (cases "f x @ ?tail") (auto simp: json_starts_def)
  have "skip_ws (json_nl ind l @ join_str (json_sep ind l) (map f (x # xs)) @ json_nl ind l' @ CHR '']'' # rest) = c # u"
    using skip_ws_starts [OF st] c(1) by (simp add: join_str_Cons comp_def)
  with v i c show ?thesis by (simp add: m json_value.simps)
qed

lemma json_value_dict:
  assumes "\<And>k v r m. (k, v) \<in> set (x # d) \<Longrightarrow> json_ends r \<Longrightarrow> length (f v @ r) < m \<Longrightarrow> json_value m (f v @ r) = Inr (v, r)"
    and "\<forall>(k, v) \<in> set (x # d). json_starts (f v) \<and> scalar_text k"
    and "distinct (map fst (x # d))"
    and "length (CHR ''{'' # json_nl ind l @ join_str (json_sep ind l) (map (\<lambda>(k, v). json_str k @ '': '' @ f v) (x # d))
           @ json_nl ind l' @ CHR ''}'' # rest) < n"
  shows "json_value n (CHR ''{'' # json_nl ind l @ join_str (json_sep ind l) (map (\<lambda>(k, v). json_str k @ '': '' @ f v) (x # d))
           @ json_nl ind l' @ CHR ''}'' # rest)
    = Inr (PDict (x # d), rest)"
proof -
  obtain k v where x: "x = (k, v)" by (cases x)
  let ?tail = "concat (map (\<lambda>(k, v). json_sep ind l @ json_str k @ '': '' @ f v) d) @ json_nl ind l' @ CHR ''}'' # rest"
  from assms(4) obtain m where m: "n = Suc m" by (cases n) auto
  have st: "json_starts (f v @ ?tail)" "scalar_text k"
    using assms(2) x by (simp_all add: json_starts_append)
  obtain w where w: "json_sep ind l = CHR '','' # w" using json_sep_Cons by blast
  have en: "json_ends ?tail"
    by (cases d) (auto simp: json_ends_def w json_nl_def is_digit_def split: prod.splits)
  have joined: "join_str (json_sep ind l) (map (\<lambda>(k, v). json_str k @ '': '' @ f v) (x # d)) @ json_nl ind l' @ CHR ''}'' # rest
      = json_str k @ '': '' @ f v @ ?tail"
    by (simp add: join_str_Cons x comp_def split_def)
  have len: "length (f v @ ?tail) < m" "length ?tail < m" using assms(4) unfolding joined by (simp_all add: m)
  have val: "json_value m (f v @ ?tail) = Inr (v, ?tail)" using assms(1) [OF _ en len(1), of k] x by simp
  have i: "json_members m [(k, v)] (skip_ws ?tail) = Inr (PDict ([(k, v)] @ d), rest)"
    using assms len(2) x by (intro json_members_tail) auto
  obtain u where c: "json_str k @ '': '' @ f v @ ?tail = dquote_char # u" by (simp add: json_str_def)
  have "skip_ws (json_nl ind l @ json_str k @ '': '' @ f v @ ?tail) = dquote_char # u"
    using c skip_ws_starts [OF json_starts_str, of k "'': '' @ f v @ ?tail"] by simp
  with val i json_key_str [OF st(2,1)] c show ?thesis unfolding joined by (simp add: m json_value.simps x)
qed

lemma json_value_dump:
  "json_plain v \<Longrightarrow> json_ends r \<Longrightarrow> length (json_dump ind l v @ r) < n \<Longrightarrow>
   json_value n (json_dump ind l v @ r) = Inr (v, r)"
proof (induction v arbitrary: l r n)
  case PNone
  then show ?case by (cases n) (auto simp: json_value.simps json_scalar_def json_constants_def)
next
  case (PBool b)
  then show ?case by (cases n) (auto simp: json_value.simps json_scalar_def json_constants_def)
next
  case (PInt i)
  then obtain m where m: "n = Suc m" by (cases n) auto
  have "json_scalar (int_str i @ r) = Inr (PInt i, r)" using PInt by (intro json_scalar_int) auto
  then show ?case
    by (rule_tac int_str_cases [of i]) (auto simp: m json_value.simps dest!: is_digit_neq)
next
  case (PStr s)
  then obtain m where "n = Suc m" by (cases n) auto
  with PStr show ?case by (simp add: json_value.simps json_str_def json_string_str)
next
  case (PList xs)
  then obtain m where m: "n = Suc m" by (cases n) auto
  show ?case
  proof (cases xs)
    case Nil
    then show ?thesis by (simp add: m json_value.simps skip_ws_Cons is_json_ws_def)
  next
    case (Cons y ys)
    have "json_value n (CHR ''['' # json_nl ind (Suc l) @ join_str (json_sep ind (Suc l)) (map (json_dump ind (Suc l)) (y # ys))
        @ json_nl ind l @ CHR '']'' # r) = Inr (PList (y # ys), r)"
      using PList Cons
      by (intro json_value_list)
        (auto simp: list_all_iff json_dump_list_map intro!: json_starts_dump)
    with Cons show ?thesis by (simp add: json_dump_list_map)
  qed
next
  case (PDict d)
  then obtain m where m: "n = Suc m" by (cases n) auto
  show ?case
  proof (cases d)
    case Nil
    then show ?thesis by (simp add: m json_value.simps skip_ws_Cons is_json_ws_def)
  next
    case (Cons y ys)
    have IH: "(k, v) \<in> set (y # ys) \<Longrightarrow> json_ends r' \<Longrightarrow> length (json_dump ind l' v @ r') < n' \<Longrightarrow>
        json_value n' (json_dump ind l' v @ r') = Inr (v, r')" for k v l' r' n'
      using PDict.IH [of "(k, v)" v r' l' n'] PDict.prems(1) Cons by (fastforce simp: list_all_iff)
    have "json_value n (CHR ''{'' # json_nl ind (Suc l) @ join_str (json_sep ind (Suc l))
          (map (\<lambda>(k, v). json_str k @ '': '' @ json_dump ind (Suc l) v) (y # ys))
        @ json_nl ind l @ CHR ''}'' # r) = Inr (PDict (y # ys), r)"
      using PDict.prems Cons
      by (intro json_value_dict IH)
        (auto simp: list_all_iff json_dump_dict_map intro!: json_starts_dump)
    with Cons show ?thesis by (simp add: json_dump_dict_map del: json_dump_dict.simps)
  qed
qed simp

lemma json_roundtrip_dump: "json_plain v \<Longrightarrow> json_loads (json_dump ind 0 v) = Inr v"
proof -
  assume p: "json_plain v"
  let ?s = "json_dump ind 0 v"
  have st: "json_starts ?s" by (rule json_starts_dump [OF p])
  then have "\<not> prefix json_bom ?s" by (cases ?s) (auto simp: json_starts_def json_bom_def)
  moreover have "json_value (Suc (length ?s)) ?s = Inr (v, [])"
    using json_value_dump [OF p, of "[]" ind 0 "Suc (length ?s)"] by (simp add: json_ends_def)
  ultimately show ?thesis using st by (simp add: json_loads_def) (simp add: skip_ws_def)
qed

lemma json_roundtrip:
  "json_plain v \<Longrightarrow> json_loads (json_dumps v) = Inr v"
  "json_plain v \<Longrightarrow> json_loads (json_dumps_indent v) = Inr v"
  by (simp_all add: json_dumps_def json_dumps_indent_def json_roundtrip_dump)

text \<open>The output is printable ASCII, and without indentation it is a single line.\<close>

lemma json_esc_printable: "c \<in> set (json_esc n) \<Longrightarrow> n < 0x110000 \<Longrightarrow> 32 \<le> (of_char c :: nat)"
proof -
  have h: "32 \<le> (of_char (hex_char k) :: nat)" if "k < 16" for k using that by (auto simp: hex_char_def)
  have "32 \<le> (of_char c :: nat)" if "c \<in> set (u_escape m)" "m < 65536" for c m
    using that by (auto simp: u_escape_def hex4_def intro: h)
  then show "c \<in> set (json_esc n) \<Longrightarrow> n < 0x110000 \<Longrightarrow> 32 \<le> (of_char c :: nat)"
    by (auto simp: json_esc_def split: if_splits)
qed

lemma json_str_line: "scalar_text s \<Longrightarrow> newline_char \<notin> set (json_str s)"
  by (auto simp: json_str_def scalar_text_def list_all_iff is_scalar_def dest!: json_esc_printable)

lemma set_join_str: "c \<in> set (join_str sep xs) \<Longrightarrow> c \<in> set sep \<or> (\<exists>x \<in> set xs. c \<in> set x)"
  by (induction sep xs rule: join_str.induct) auto

lemma nat_str_line: "newline_char \<notin> set (nat_str n)"
proof
  assume "newline_char \<in> set (nat_str n)"
  with nat_str_digits [of n] have "is_digit newline_char" by (simp add: list_all_iff)
  then show False by (simp add: is_digit_def)
qed

lemma join_line:
  "\<forall>x \<in> set xs. newline_char \<notin> set x \<Longrightarrow> newline_char \<notin> set (join_str (json_sep False l) xs)"
  by (auto simp: json_sep_def dest!: set_join_str)

lemma json_dump_line: "json_plain v \<Longrightarrow> newline_char \<notin> set (json_dump False l v)"
proof (induction v arbitrary: l)
  case (PInt i)
  then show ?case by (simp add: int_str_def nat_str_line)
next
  case (PStr s)
  then show ?case by (simp add: json_str_line)
next
  case (PList xs)
  then have "\<forall>x \<in> set (map (json_dump False (Suc l)) xs). newline_char \<notin> set x" by (simp add: list_all_iff)
  from join_line [OF this] show ?case
    by (cases xs) (simp_all add: json_nl_def json_dump_list_map del: json_dump_list.simps list.map)
next
  case (PDict d)
  have "(k, v) \<in> set d \<Longrightarrow> newline_char \<notin> set (json_str k @ '': '' @ json_dump False (Suc l) v)" for k v
    using PDict.IH [of "(k, v)" v "Suc l"] PDict.prems by (fastforce simp: list_all_iff json_str_line)
  then have "\<forall>x \<in> set (map (\<lambda>(k, v). json_str k @ '': '' @ json_dump False (Suc l) v) d). newline_char \<notin> set x"
    by auto
  from join_line [OF this] show ?case
    by (cases d) (simp_all add: json_nl_def json_dump_dict_map del: json_dump_dict.simps list.map)
qed simp_all

end
