(* ===== verification/Sha256.thy ===== *)
theory Sha256
  imports Codec
begin

text \<open>
  SHA-256 as \<^verbatim>\<open>hashlib.sha256(data).digest()\<close> computes it, on 32-bit words: padding, the message
  schedule as a sliding window of sixteen words, the compression rounds, and the digest as bytes.
  The constants are the standard's.
\<close>

unbundle bit_operations_syntax

type_synonym u32 = "32 word"
type_synonym hash_state = "u32 \<times> u32 \<times> u32 \<times> u32 \<times> u32 \<times> u32 \<times> u32 \<times> u32"

definition sha_rotr :: "nat \<Rightarrow> u32 \<Rightarrow> u32" where
  "sha_rotr n x = drop_bit n x OR push_bit (32 - n) x"

definition sha_ch :: "u32 \<Rightarrow> u32 \<Rightarrow> u32 \<Rightarrow> u32" where
  "sha_ch x y z = (x AND y) XOR (NOT x AND z)"

definition sha_maj :: "u32 \<Rightarrow> u32 \<Rightarrow> u32 \<Rightarrow> u32" where
  "sha_maj x y z = (x AND y) XOR (x AND z) XOR (y AND z)"

definition big_sigma0 :: "u32 \<Rightarrow> u32" where
  "big_sigma0 x = sha_rotr 2 x XOR sha_rotr 13 x XOR sha_rotr 22 x"

definition big_sigma1 :: "u32 \<Rightarrow> u32" where
  "big_sigma1 x = sha_rotr 6 x XOR sha_rotr 11 x XOR sha_rotr 25 x"

definition small_sigma0 :: "u32 \<Rightarrow> u32" where
  "small_sigma0 x = sha_rotr 7 x XOR sha_rotr 18 x XOR drop_bit 3 x"

definition small_sigma1 :: "u32 \<Rightarrow> u32" where
  "small_sigma1 x = sha_rotr 17 x XOR sha_rotr 19 x XOR drop_bit 10 x"

definition sha_k :: "u32 list" where
  "sha_k =
   [1116352408, 1899447441, 3049323471, 3921009573, 961987163, 1508970993, 2453635748, 2870763221,
    3624381080, 310598401, 607225278, 1426881987, 1925078388, 2162078206, 2614888103, 3248222580,
    3835390401, 4022224774, 264347078, 604807628, 770255983, 1249150122, 1555081692, 1996064986,
    2554220882, 2821834349, 2952996808, 3210313671, 3336571891, 3584528711, 113926993, 338241895,
    666307205, 773529912, 1294757372, 1396182291, 1695183700, 1986661051, 2177026350, 2456956037,
    2730485921, 2820302411, 3259730800, 3345764771, 3516065817, 3600352804, 4094571909, 275423344,
    430227734, 506948616, 659060556, 883997877, 958139571, 1322822218, 1537002063, 1747873779,
    1955562222, 2024104815, 2227730452, 2361852424, 2428436474, 2756734187, 3204031479, 3329325298]"

definition sha_init :: hash_state where
  "sha_init = (1779033703, 3144134277, 1013904242, 2773480762, 1359893119, 2600822924, 528734635, 1541459225)"

section \<open>Padding and words\<close>

text \<open>The length field: 64 bits, most significant byte first.\<close>

definition be_bytes64 :: "nat \<Rightarrow> bytes" where
  "be_bytes64 n = map (\<lambda>i. ucast (drop_bit (8 * i) (of_nat n :: 64 word))) [7, 6, 5, 4, 3, 2, 1, 0]"

definition sha_pad :: "bytes \<Rightarrow> bytes" where
  "sha_pad m = m @ [0x80] @ replicate ((119 - length m mod 64) mod 64) 0 @ be_bytes64 (8 * length m)"

fun sha_words :: "bytes \<Rightarrow> u32 list" where
  "sha_words (a # b # c # d # r) =
     (push_bit 24 (ucast a) OR push_bit 16 (ucast b) OR push_bit 8 (ucast c) OR ucast d) # sha_words r"
| "sha_words _ = []"

section \<open>Compression\<close>

fun sha_round :: "u32 \<Rightarrow> u32 \<Rightarrow> hash_state \<Rightarrow> hash_state" where
  "sha_round k w (a, b, c, d, e, f, g, h) =
     (let t1 = h + big_sigma1 e + sha_ch e f g + k + w;
          t2 = big_sigma0 a + sha_maj a b c
      in (t1 + t2, a, b, c, d + t1, e, f, g))"

text \<open>The window holds the words of the schedule from the current round on, sixteen at a time.\<close>

fun sha_rounds :: "u32 list \<Rightarrow> u32 list \<Rightarrow> hash_state \<Rightarrow> hash_state" where
  "sha_rounds [] ws s = s"
| "sha_rounds (k # ks) ws s =
     (let w = ws ! 0; new = small_sigma1 (ws ! 14) + ws ! 9 + small_sigma0 (ws ! 1) + w
      in sha_rounds ks (tl ws @ [new]) (sha_round k w s))"

fun sha_add :: "hash_state \<Rightarrow> hash_state \<Rightarrow> hash_state" where
  "sha_add (a, b, c, d, e, f, g, h) (a', b', c', d', e', f', g', h') =
     (a + a', b + b', c + c', d + d', e + e', f + f', g + g', h + h')"

function sha_blocks :: "u32 list \<Rightarrow> hash_state \<Rightarrow> hash_state" where
  "sha_blocks ws s =
     (if length ws < 16 then s
      else sha_blocks (drop 16 ws) (sha_add s (sha_rounds sha_k (take 16 ws) s)))"
  by pat_completeness auto
termination by (relation "measure (\<lambda>(ws, s). length ws)") auto

declare sha_blocks.simps [simp del]

fun sha_digest :: "hash_state \<Rightarrow> bytes" where
  "sha_digest (a, b, c, d, e, f, g, h) =
     concat (map (\<lambda>w. [ucast (drop_bit 24 w), ucast (drop_bit 16 w), ucast (drop_bit 8 w), ucast w])
       [a, b, c, d, e, f, g, h])"

definition sha256 :: "bytes \<Rightarrow> bytes" where
  "sha256 m = sha_digest (sha_blocks (sha_words (sha_pad m)) sha_init)"

lemma length_sha_digest [simp]: "length (sha_digest s) = 32"
  by (induction s rule: sha_digest.induct) simp

lemma length_sha256 [simp]: "length (sha256 m) = 32"
  by (simp add: sha256_def)

end
