(* ===== verification/ItaVerifier.thy ===== *)
theory ItaVerifier
  imports Attestation Json Sha256
begin

text \<open>
  \<^verbatim>\<open>agent/ita_verifier.py\<close>: verification of an Intel Trust Authority token for a Confidential Space
  workload.  Fetching and caching the signing keys and the verifier closure are computations on
  the \<open>world\<close>; the five claim checks are functions into \<open>bool res\<close>, where an exception a malformed
  claim provokes (a missing attribute, an unhashable value) is a value too.  Log lines are
  computed where computing them can raise and are otherwise left out.
\<close>

section \<open>Constants\<close>

definition ITA_JWKS_URL :: string where
  "ITA_JWKS_URL = ''https://portal.trustauthority.intel.com/certs''"

definition ITA_ISSUER :: string where
  "ITA_ISSUER = ''https://portal.trustauthority.intel.com''"

definition EXPECTED_HWMODEL :: string where "EXPECTED_HWMODEL = ''INTEL_TDX''"
definition EXPECTED_SWNAME :: string where "EXPECTED_SWNAME = ''CONFIDENTIAL_SPACE''"
definition EXPECTED_CVM_COMPLIANCE :: string where "EXPECTED_CVM_COMPLIANCE = ''gcp_compliant_cvm''"
definition EXPECTED_AUDIENCE :: string where "EXPECTED_AUDIENCE = ''ztab_tls''"

definition VALID_DBG_STATES :: "string list" where
  "VALID_DBG_STATES = [''disabled-since-boot'', ''disabled'', ''enabled'']"

definition JWKS_TTL :: rat where "JWKS_TTL = 86400"

definition JWT_ALGORITHMS :: "string list" where
  "JWT_ALGORITHMS = [''RS256'', ''RS384'', ''RS512'', ''PS256'', ''PS384'', ''PS512'', ''ES256'', ''ES384'']"

section \<open>Signing keys\<close>

definition fetch_jwks :: "string \<Rightarrow> ('a world_scheme, pyval) io" where
  "fetch_jwks jwks_url =
     io_bind (http_get jwks_url) (\<lambda>body.
     io_bind (io_lift (json_loads_bytes body)) (\<lambda>jwks.
     io_bind (io_lift (rbind (py_get jwks ''keys'' (PList [])) py_len)) (\<lambda>_.
     io_return jwks)))"

text \<open>
  The cache: a fast path without the lock, and inside the lock the same test again.  A failed
  fetch leaves both entries of the cache as they were.
\<close>

definition get_jwks :: "('a world_scheme, pyval) io" where
  "get_jwks =
     io_bind time_time (\<lambda>now.
     io_bind (io_get (\<lambda>w. (jwks_data w, jwks_timestamp w))) (\<lambda>(data, ts).
     case data of
       Some d \<Rightarrow> if now - ts \<le> JWKS_TTL then io_return d else
         io_bind (io_get (\<lambda>w. (jwks_data w, jwks_timestamp w))) (\<lambda>(data', ts').
         if data' = None \<or> now - ts' > JWKS_TTL
         then io_bind (fetch_jwks ITA_JWKS_URL) (\<lambda>fresh.
              io_bind (io_modify (\<lambda>w. w\<lparr>jwks_data := Some fresh\<rparr>)) (\<lambda>_.
              io_bind (io_modify (\<lambda>w. w\<lparr>jwks_timestamp := now\<rparr>)) (\<lambda>_. io_return fresh)))
         else io_return (the data'))
     | None \<Rightarrow>
         io_bind (fetch_jwks ITA_JWKS_URL) (\<lambda>fresh.
         io_bind (io_modify (\<lambda>w. w\<lparr>jwks_data := Some fresh\<rparr>)) (\<lambda>_.
         io_bind (io_modify (\<lambda>w. w\<lparr>jwks_timestamp := now\<rparr>)) (\<lambda>_. io_return fresh)))))"

section \<open>Verbose logging in test environments\<close>

fun py_first :: "pyval \<Rightarrow> pyval res" where
  "py_first (PList (x # _)) = Inr x"
| "py_first (PStr (c # s)) = Inr (PStr (hd (chars_of (c # s))))"
| "py_first (PDict d) = Inl (Exn KeyError ''0'')"
| "py_first (PList []) = Inl (Exn IndexError ''list index out of range'')"
| "py_first (PStr []) = Inl (Exn IndexError ''string index out of range'')"
| "py_first v = Inl (Exn TypeError (quoted (type_name v) @ '' object is not subscriptable''))"

fun b64decode_val :: "pyval \<Rightarrow> bytes res" where
  "b64decode_val (PStr s) = b64decode s"
| "b64decode_val v = Inl (Exn TypeError (''argument should be a bytes-like object or ASCII string, not ''
     @ quoted (type_name v)))"

text \<open>The validity dates of a key's certificate, or nothing when anything about it is off.\<close>

definition validity_str :: "ext \<Rightarrow> pyval \<Rightarrow> string" where
  "validity_str ext x5c =
     (if \<not> truthy x5c then []
      else case rbind (py_first x5c) (\<lambda>x. rbind (b64decode_val x) (der_validity ext)) of
        Inr (nbf, naf) \<Rightarrow> '', Valid: '' @ nbf @ '' -> '' @ naf
      | Inl _ \<Rightarrow> [])"

fun verbose_key_lines :: "ext \<Rightarrow> pyval \<Rightarrow> nat \<Rightarrow> pyval list \<Rightarrow> string list res" where
  "verbose_key_lines ext active_kid i [] = Inr []"
| "verbose_key_lines ext active_kid i (k # ks) =
     rbind (py_get k ''kid'' (PStr ''<none>'')) (\<lambda>kid.
     rbind (py_get k ''alg'' (PStr ''<none>'')) (\<lambda>alg.
     rbind (py_get k ''x5c'' (PList [])) (\<lambda>x5c.
     rbind (verbose_key_lines ext active_kid (Suc i) ks) (\<lambda>rest.
     Inr ((''    Key '' @ nat_str i @ '': alg='' @ py_str alg @ validity_str ext x5c
           @ (if py_eq kid active_kid then '' [ACTIVE SIGNER]'' else []))
          # (''           kid='' @ py_str kid) # rest)))))"

definition log_verbose_jwks_info :: "ext \<Rightarrow> pyval \<Rightarrow> pyval \<Rightarrow> string list res" where
  "log_verbose_jwks_info ext jwks active_kid =
     rbind (py_get jwks ''keys'' (PList [])) (\<lambda>keys.
     rbind (py_len keys) (\<lambda>n.
     rbind (py_iter keys) (\<lambda>ks.
     rbind (verbose_key_lines ext active_kid 1 ks) (\<lambda>ls.
     Inr ((''  [VERBOSE] JWKS Key Inventory ('' @ int_str n @ '' keys):'') # ls)))))"

definition log_verbose_claims_info :: "pyval \<Rightarrow> string list res" where
  "log_verbose_claims_info claims =
     rbind (py_get claims ''submods'' (PDict [])) (\<lambda>submods.
     rbind (if is_dict submods then py_get submods ''nvidia_gpu'' PNone else Inr PNone) (\<lambda>gpu_claims.
     rbind (py_get claims ''swversion'' (PStr ''<none>'')) (\<lambda>swversion.
     rbind (py_get claims ''tdx'' (PDict [])) (\<lambda>tdx.
     rbind (if is_dict tdx then py_get tdx ''cvm_compliance_status'' (PStr ''<none>'') else Inr (PStr ''<none>''))
       (\<lambda>cvm_status.
     rbind (py_get claims ''hwmodel'' (PStr ''<none>'')) (\<lambda>hwmodel.
     Inr [''  [VERBOSE] Claims Summary:'',
          ''    - CS Image Version: '' @ py_str swversion,
          (if truthy gpu_claims then ''    - GPU Claims: PRESENT ('' @ json_dumps gpu_claims @ '')''
           else ''    - GPU Claims: None present (submods.nvidia_gpu not populated)''),
          ''    - HW Model: '' @ py_str hwmodel,
          ''    - CVM Compliance: '' @ py_str cvm_status,
          ''  [VERBOSE] Full Token Claims JSON:'',
          json_dumps_indent claims]))))))"

section \<open>Key binding value\<close>

definition extract_pubkey_from_cert :: "ext \<Rightarrow> bytes \<Rightarrow> bytes res" where
  "extract_pubkey_from_cert ext cert_pem = pem_spki ext cert_pem"

definition compute_pubkey_hash_b64url :: "ext \<Rightarrow> bytes \<Rightarrow> string res" where
  "compute_pubkey_hash_b64url ext cert_pem =
     rbind (extract_pubkey_from_cert ext cert_pem) (\<lambda>spki_der.
     Inr (base64url_encode_nopad (sha256 spki_der)))"

section \<open>Claim checks\<close>

definition verify_issuer :: "pyval \<Rightarrow> bool res" where
  "verify_issuer claims =
     rbind (py_get claims ''iss'' (PStr [])) (\<lambda>iss. Inr (py_eq iss (PStr ITA_ISSUER)))"

definition verify_hw_claims :: "pyval \<Rightarrow> ita_policy \<Rightarrow> bool res" where
  "verify_hw_claims claims policy =
     rbind (py_get claims ''hwmodel'' (PStr [])) (\<lambda>hwmodel.
     if \<not> py_eq hwmodel (PStr EXPECTED_HWMODEL) then Inr False else
     rbind (py_get claims ''secboot'' (PBool False)) (\<lambda>secboot.
     if secboot \<noteq> PBool True then Inr False else
     rbind (py_get claims ''dbgstat'' (PStr [])) (\<lambda>dbgstat.
     rbind (py_hash_in dbgstat (map PStr (if \<not> truthy (allow_debug policy)
              then [''disabled'', ''disabled-since-boot''] else VALID_DBG_STATES))) (\<lambda>dbg_ok.
     if \<not> dbg_ok then Inr False else
     if \<not> truthy (allow_debug policy) then
       rbind (py_get claims ''submods'' (PDict [])) (\<lambda>submods.
       rbind (py_get submods ''confidential_space'' (PDict [])) (\<lambda>cs.
       rbind (py_get cs ''support_attributes'' (PList [])) (\<lambda>attrs.
       rbind (py_in (PStr ''DEBUG'') attrs) (\<lambda>debug.
       Inr (\<not> debug)))))
     else Inr True))))"

text \<open>The loop over the reported versions; an entry that is no integer is passed over.\<close>

fun meets_minimum :: "int \<Rightarrow> pyval list \<Rightarrow> bool" where
  "meets_minimum m [] = False"
| "meets_minimum m (v # vs) =
     (case int_of_str (py_str v) of
        Inr ver_int \<Rightarrow> if ver_int \<ge> m then True else meets_minimum m vs
      | Inl _ \<Rightarrow> meets_minimum m vs)"

definition version_list :: "pyval \<Rightarrow> pyval list" where
  "version_list v = (case v of PList vs \<Rightarrow> vs | _ \<Rightarrow> [v])"

definition verify_platform_identity :: "pyval \<Rightarrow> ita_policy \<Rightarrow> bool res" where
  "verify_platform_identity claims policy =
     rbind (py_get claims ''swname'' (PStr [])) (\<lambda>swname.
     if \<not> py_eq swname (PStr EXPECTED_SWNAME) then Inr False else
     rbind (py_get claims ''tdx'' (PDict [])) (\<lambda>tdx.
     rbind (py_get tdx ''cvm_compliance_status'' (PStr [])) (\<lambda>cvm_status.
     if \<not> py_eq cvm_status (PStr EXPECTED_CVM_COMPLIANCE) then Inr False else
     rbind (py_get claims ''submods'' (PDict [])) (\<lambda>submods.
     rbind (py_get submods ''confidential_space'' (PDict [])) (\<lambda>cs.
     rbind (if \<not> truthy (allow_memory_monitoring policy)
            then rbind (py_get cs ''monitoring_enabled'' (PDict [])) (\<lambda>mon.
                 rbind (py_get mon ''memory'' PNone) (\<lambda>memory. Inr (memory \<noteq> PBool True)))
            else Inr True) (\<lambda>mem_ok.
     if \<not> mem_ok then Inr False else
     rbind (py_get claims ''swversion'' (PList [])) (\<lambda>swversion.
     if min_cs_version policy \<noteq> 0
     then Inr (version_list swversion \<noteq> [] \<and> meets_minimum (min_cs_version policy) (version_list swversion))
     else Inr True)))))))"

definition verify_key_binding :: "ext \<Rightarrow> pyval \<Rightarrow> bytes \<Rightarrow> bool res" where
  "verify_key_binding ext claims cert_pem =
     rbind (py_get claims ''eat_nonce'' (PStr [])) (\<lambda>eat_nonce.
     if \<not> truthy eat_nonce then Inr False else
     let nonce_value = (case eat_nonce of PList (n # _) \<Rightarrow> n | PList [] \<Rightarrow> PStr [] | n \<Rightarrow> n) in
     rbind (compute_pubkey_hash_b64url ext cert_pem) (\<lambda>expected_nonce.
     Inr (py_eq nonce_value (PStr expected_nonce))))"

definition verify_container_identity :: "pyval \<Rightarrow> ita_policy \<Rightarrow> bool res" where
  "verify_container_identity claims policy =
     rbind (py_get claims ''submods'' (PDict [])) (\<lambda>submods.
     rbind (py_get submods ''container'' (PDict [])) (\<lambda>container.
     rbind (py_get container ''image_digest'' (PStr [])) (\<lambda>actual_digest.
     if \<not> truthy actual_digest then Inr False else
     rbind (py_hash_in actual_digest (expected_image_digests policy)) (\<lambda>known.
     if \<not> known then rbind (py_sorted (expected_image_digests policy)) (\<lambda>_. Inr False) else
     rbind (if truthy (expected_project_id policy)
            then rbind (py_get submods ''gce'' (PDict [])) (\<lambda>gce.
                 rbind (py_get gce ''project_id'' (PStr [])) (\<lambda>pid.
                 Inr (py_eq pid (expected_project_id policy))))
            else Inr True) (\<lambda>project_ok.
     if \<not> project_ok then Inr False else
     if truthy (expected_service_account policy)
     then rbind (py_get claims ''google_service_accounts'' (PList [])) (\<lambda>accounts.
          py_in (expected_service_account policy) accounts)
     else Inr True)))))"

section \<open>The verifier\<close>

text \<open>\<^verbatim>\<open>if not check(...): return False\<close>, then the next check.\<close>

definition and_then :: "bool res \<Rightarrow> bool res \<Rightarrow> bool res" where
  "and_then a b = rbind a (\<lambda>ok. if \<not> ok then Inr False else b)"

definition verify_claims :: "ext \<Rightarrow> ita_policy \<Rightarrow> pyval \<Rightarrow> bytes \<Rightarrow> bool res" where
  "verify_claims ext policy claims cert_pem =
     and_then (verify_issuer claims)
     (and_then (verify_hw_claims claims policy)
     (and_then (verify_platform_identity claims policy)
     (and_then (verify_key_binding ext claims cert_pem)
     (and_then (verify_container_identity claims policy) (Inr True)))))"

definition matching_key :: "pyval \<Rightarrow> (pyval \<times> pyval) list \<Rightarrow> pyval option" where
  "matching_key kid keys = map_option snd (find (\<lambda>(key_id, _). py_eq key_id kid) keys)"

text \<open>An unknown key identifier resets the cache timestamp and asks for the keys once more.\<close>

definition signing_key :: "ext \<Rightarrow> pyval \<Rightarrow> (pyval \<times> pyval) list \<Rightarrow> ('a world_scheme, pyval option) io" where
  "signing_key ext kid signing_keys =
     (case matching_key kid signing_keys of
        Some key \<Rightarrow> io_return (Some key)
      | None \<Rightarrow>
          io_bind (io_modify (\<lambda>w. w\<lparr>jwks_timestamp := 0\<rparr>)) (\<lambda>_.
          io_bind get_jwks (\<lambda>jwks.
          io_bind (io_lift (jwks_from_dict ext jwks)) (\<lambda>signing_keys'.
          io_return (matching_key kid signing_keys')))))"

definition decode_claims :: "ext \<Rightarrow> ita_policy \<Rightarrow> string \<Rightarrow> pyval \<Rightarrow> ('a world_scheme, pyval option) io" where
  "decode_claims ext policy token key =
     io_bind time_time (\<lambda>now.
     io_bind (io_lift (jwt_decode ext token key JWT_ALGORITHMS EXPECTED_AUDIENCE (clock_skew_seconds policy) now))
       (\<lambda>claims.
     io_bind (env_get ''ZTAB_TEST_ENVIRONMENT'') (\<lambda>te.
     io_bind (if te = Some ''1'' then io_lift (log_verbose_claims_info claims) else io_return []) (\<lambda>_.
     io_return (Some claims)))))"

text \<open>Step 1, the body of the \<^verbatim>\<open>try\<close>: the decoded claims, or \<open>None\<close> where it returns False.\<close>

definition decode_token :: "ext \<Rightarrow> ita_policy \<Rightarrow> string \<Rightarrow> ('a world_scheme, pyval option) io" where
  "decode_token ext policy token =
     io_bind get_jwks (\<lambda>jwks.
     io_bind (io_lift (jwks_from_dict ext jwks)) (\<lambda>signing_keys.
     io_bind (io_lift (jwt_header ext token)) (\<lambda>header.
     io_bind (io_lift (py_get header ''kid'' PNone)) (\<lambda>kid.
     if \<not> truthy kid then io_return None else
     io_bind (env_get ''ZTAB_TEST_ENVIRONMENT'') (\<lambda>te.
     io_bind (if te = Some ''1'' then io_lift (log_verbose_jwks_info ext jwks kid) else io_return []) (\<lambda>_.
     io_bind (signing_key ext kid signing_keys) (\<lambda>found.
     case found of
       None \<Rightarrow> io_return None
     | Some key \<Rightarrow>
         decode_claims ext policy token key)))))))"

definition ita_verifier :: "ext \<Rightarrow> ita_policy \<Rightarrow> string \<Rightarrow> bytes \<Rightarrow> ('a world_scheme, bool) io" where
  "ita_verifier ext policy token cert_pem =
     io_bind (io_catch (decode_token ext policy token) (\<lambda>_. io_return None)) (\<lambda>decoded.
     case decoded of
       None \<Rightarrow> io_return False
     | Some claims \<Rightarrow> io_lift (verify_claims ext policy claims cert_pem))"

section \<open>What acceptance means\<close>

text \<open>The value at a path of nested objects.\<close>

fun claim_path :: "string list \<Rightarrow> pyval \<Rightarrow> pyval option" where
  "claim_path [] v = Some v"
| "claim_path (k # ks) (PDict d) = (case map_of d k of None \<Rightarrow> None | Some v \<Rightarrow> claim_path ks v)"
| "claim_path (k # ks) _ = None"

definition attested_claims :: "ita_policy \<Rightarrow> string \<Rightarrow> pyval \<Rightarrow> bool" where
  "attested_claims p nonce c \<longleftrightarrow>
     claim_path [''iss''] c = Some (PStr ITA_ISSUER) \<and>
     claim_path [''hwmodel''] c = Some (PStr EXPECTED_HWMODEL) \<and>
     claim_path [''secboot''] c = Some (PBool True) \<and>
     (\<exists>s \<in> set VALID_DBG_STATES. claim_path [''dbgstat''] c = Some (PStr s) \<and> (s = ''enabled'' \<longrightarrow> truthy (allow_debug p))) \<and>
     (\<not> truthy (allow_debug p) \<longrightarrow>
        (\<forall>xs. claim_path [''submods'', ''confidential_space'', ''support_attributes''] c = Some (PList xs) \<longrightarrow>
              PStr ''DEBUG'' \<notin> set xs)) \<and>
     claim_path [''swname''] c = Some (PStr EXPECTED_SWNAME) \<and>
     claim_path [''tdx'', ''cvm_compliance_status''] c = Some (PStr EXPECTED_CVM_COMPLIANCE) \<and>
     (\<not> truthy (allow_memory_monitoring p) \<longrightarrow>
        claim_path [''submods'', ''confidential_space'', ''monitoring_enabled'', ''memory''] c \<noteq> Some (PBool True)) \<and>
     (\<exists>v. claim_path [''swversion''] c = Some v \<and> meets_minimum (min_cs_version p) (version_list v)) \<and>
     (\<exists>v. claim_path [''eat_nonce''] c = Some v \<and> (v = PStr nonce \<or> (\<exists>ns. v = PList (PStr nonce # ns)))) \<and>
     (\<exists>d. claim_path [''submods'', ''container'', ''image_digest''] c = Some d \<and> d \<in> set (expected_image_digests p)) \<and>
     (truthy (expected_project_id p) \<longrightarrow>
        (\<exists>v. claim_path [''submods'', ''gce'', ''project_id''] c = Some v \<and> py_eq v (expected_project_id p))) \<and>
     (truthy (expected_service_account p) \<longrightarrow>
        (\<exists>v. claim_path [''google_service_accounts''] c = Some v \<and> py_in (expected_service_account p) v = Inr True))"

text \<open>
  A token of the documented Confidential Space shape, and the decision the policy asks for on it.
\<close>

record cs_token =
  t_iss :: string
  t_hwmodel :: string
  t_secboot :: bool
  t_dbgstat :: string
  t_swname :: string
  t_swversion :: "string list"
  t_cvm :: string
  t_attributes :: "string list"
  t_memory :: bool
  t_nonce :: string
  t_digest :: string
  t_project :: string
  t_accounts :: "string list"

definition cs_shaped :: "pyval \<Rightarrow> cs_token \<Rightarrow> bool" where
  "cs_shaped c t \<longleftrightarrow>
     claim_path [''iss''] c = Some (PStr (t_iss t)) \<and>
     claim_path [''hwmodel''] c = Some (PStr (t_hwmodel t)) \<and>
     claim_path [''secboot''] c = Some (PBool (t_secboot t)) \<and>
     claim_path [''dbgstat''] c = Some (PStr (t_dbgstat t)) \<and>
     claim_path [''swname''] c = Some (PStr (t_swname t)) \<and>
     claim_path [''swversion''] c = Some (PList (map PStr (t_swversion t))) \<and>
     claim_path [''tdx'', ''cvm_compliance_status''] c = Some (PStr (t_cvm t)) \<and>
     claim_path [''submods'', ''confidential_space'', ''support_attributes''] c = Some (PList (map PStr (t_attributes t))) \<and>
     claim_path [''submods'', ''confidential_space'', ''monitoring_enabled'', ''memory''] c = Some (PBool (t_memory t)) \<and>
     claim_path [''eat_nonce''] c = Some (PStr (t_nonce t)) \<and>
     claim_path [''submods'', ''container'', ''image_digest''] c = Some (PStr (t_digest t)) \<and>
     claim_path [''submods'', ''gce'', ''project_id''] c = Some (PStr (t_project t)) \<and>
     claim_path [''google_service_accounts''] c = Some (PList (map PStr (t_accounts t)))"

definition cs_trusted :: "ita_policy \<Rightarrow> string \<Rightarrow> cs_token \<Rightarrow> bool" where
  "cs_trusted p nonce t \<longleftrightarrow>
     t_iss t = ITA_ISSUER \<and> t_hwmodel t = EXPECTED_HWMODEL \<and> t_secboot t \<and>
     t_dbgstat t \<in> {''disabled'', ''disabled-since-boot''} \<union> (if truthy (allow_debug p) then {''enabled''} else {}) \<and>
     (truthy (allow_debug p) \<or> ''DEBUG'' \<notin> set (t_attributes t)) \<and>
     t_swname t = EXPECTED_SWNAME \<and> t_cvm t = EXPECTED_CVM_COMPLIANCE \<and>
     (truthy (allow_memory_monitoring p) \<or> \<not> t_memory t) \<and>
     (\<exists>v \<in> set (t_swversion t). \<exists>i. int_of_str v = Inr i \<and> min_cs_version p \<le> i) \<and>
     t_nonce t = nonce \<and> t_digest t \<noteq> [] \<and> PStr (t_digest t) \<in> set (expected_image_digests p) \<and>
     (expected_project_id p = PStr [] \<or> expected_project_id p = PStr (t_project t)) \<and>
     (expected_service_account p = PStr [] \<or> expected_service_account p \<in> PStr ` set (t_accounts t))"

section \<open>Soundness of the claim checks\<close>

lemma py_get_claim: "py_get c k d = Inr x \<Longrightarrow> x \<noteq> d \<Longrightarrow> claim_path (k # ks) c = claim_path ks x"
  by (cases c) (auto split: option.splits)

lemma py_get_claim_is: "py_get c k d = Inr x \<Longrightarrow> claim_path (k # ks) c = Some y \<Longrightarrow> claim_path ks x = Some y"
  by (cases c) (auto split: option.splits)

lemma py_get_inner: "py_get x k d = Inr y \<Longrightarrow> y \<noteq> d \<Longrightarrow> x \<noteq> PDict []"
  by auto

lemma verify_issuer_sound: "verify_issuer c = Inr True \<Longrightarrow> claim_path [''iss''] c = Some (PStr ITA_ISSUER)"
  by (auto simp: verify_issuer_def ITA_ISSUER_def py_get_claim simp del: py_get_Inr claim_path.simps(2,3))

lemma verify_hw_claims_parts:
  assumes "verify_hw_claims c p = Inr True"
  obtains s where "py_get c ''hwmodel'' (PStr []) = Inr (PStr EXPECTED_HWMODEL)"
    "py_get c ''secboot'' (PBool False) = Inr (PBool True)"
    "py_get c ''dbgstat'' (PStr []) = Inr (PStr s)" "s \<in> set VALID_DBG_STATES"
    "s = ''enabled'' \<longrightarrow> truthy (allow_debug p)"
    "truthy (allow_debug p) \<or> (\<exists>sm cs attrs. py_get c ''submods'' (PDict []) = Inr sm \<and>
        py_get sm ''confidential_space'' (PDict []) = Inr cs \<and> py_get cs ''support_attributes'' (PList []) = Inr attrs \<and>
        py_in (PStr ''DEBUG'') attrs = Inr False)"
  using assms
  by (auto simp: verify_hw_claims_def VALID_DBG_STATES_def py_hash_in_def simp del: py_get_Inr
      split: if_splits)

lemma verify_platform_identity_parts:
  assumes "verify_platform_identity c p = Inr True" "min_cs_version p \<noteq> 0"
  obtains tdx sm cs v where "py_get c ''swname'' (PStr []) = Inr (PStr EXPECTED_SWNAME)"
    "py_get c ''tdx'' (PDict []) = Inr tdx" "py_get tdx ''cvm_compliance_status'' (PStr []) = Inr (PStr EXPECTED_CVM_COMPLIANCE)"
    "py_get c ''submods'' (PDict []) = Inr sm" "py_get sm ''confidential_space'' (PDict []) = Inr cs"
    "truthy (allow_memory_monitoring p) \<or> (\<exists>mon mem. py_get cs ''monitoring_enabled'' (PDict []) = Inr mon \<and>
        py_get mon ''memory'' PNone = Inr mem \<and> mem \<noteq> PBool True)"
    "py_get c ''swversion'' (PList []) = Inr v" "meets_minimum (min_cs_version p) (version_list v)"
  using assms
  by (auto simp: verify_platform_identity_def simp del: py_get_Inr split: if_splits)

lemma verify_key_binding_parts:
  assumes "verify_key_binding ext c pem = Inr True"
  obtains nonce v where "compute_pubkey_hash_b64url ext pem = Inr nonce" "py_get c ''eat_nonce'' (PStr []) = Inr v"
     "v \<noteq> PStr []" "v = PStr nonce \<or> (\<exists>ns. v = PList (PStr nonce # ns))"
  using assms
  by (auto simp: verify_key_binding_def Let_def simp del: py_get_Inr
      split: if_splits pyval.splits list.splits)

lemma verify_container_identity_parts:
  assumes "verify_container_identity c p = Inr True"
  obtains sm co d where "py_get c ''submods'' (PDict []) = Inr sm"
    "py_get sm ''container'' (PDict []) = Inr co" "py_get co ''image_digest'' (PStr []) = Inr d" "truthy d"
    "py_hash_in d (expected_image_digests p) = Inr True"
    "\<not> truthy (expected_project_id p) \<or> (\<exists>gce v. py_get sm ''gce'' (PDict []) = Inr gce \<and>
        py_get gce ''project_id'' (PStr []) = Inr v \<and> py_eq v (expected_project_id p))"
    "\<not> truthy (expected_service_account p) \<or> (\<exists>v. py_get c ''google_service_accounts'' (PList []) = Inr v \<and>
        py_in (expected_service_account p) v = Inr True)"
  using assms
  by (auto simp: verify_container_identity_def simp del: py_get_Inr split: if_splits)

lemma digest_is_known:
  "list_all is_str ds \<Longrightarrow> py_hash_in d ds = Inr True \<Longrightarrow> d \<in> set ds"
  by (auto simp: py_hash_in_def list_all_iff split: if_splits elim!: is_str.elims(2) dest!: bspec)

lemma claim_path_get: "py_get c k d = Inr x \<Longrightarrow> x \<noteq> d \<Longrightarrow> claim_path [k] c = Some x"
  by (simp add: py_get_claim del: py_get_Inr claim_path.simps(2,3))

lemma claim_path_get2:
  "py_get c k (PDict []) = Inr y \<Longrightarrow> py_get y k' d = Inr x \<Longrightarrow> x \<noteq> d \<Longrightarrow> claim_path [k, k'] c = Some x"
  using py_get_inner [of y k' d x] by (simp add: py_get_claim del: py_get_Inr claim_path.simps(2,3))

lemma claim_path_get3:
  "py_get c k (PDict []) = Inr y \<Longrightarrow> py_get y k' (PDict []) = Inr z \<Longrightarrow> py_get z k'' d = Inr x \<Longrightarrow> x \<noteq> d \<Longrightarrow>
   claim_path [k, k', k''] c = Some x"
  using py_get_inner [of z k'' d x] py_get_inner [of y k' "PDict []" z]
  by (simp add: py_get_claim del: py_get_Inr claim_path.simps(2,3))

declare py_get_Inr [simp del] claim_path.simps(2,3) [simp del]

lemma verify_hw_claims_sound:
  assumes "verify_hw_claims c p = Inr True"
  shows "claim_path [''hwmodel''] c = Some (PStr EXPECTED_HWMODEL)"
    "claim_path [''secboot''] c = Some (PBool True)"
    "\<exists>s \<in> set VALID_DBG_STATES. claim_path [''dbgstat''] c = Some (PStr s) \<and> (s = ''enabled'' \<longrightarrow> truthy (allow_debug p))"
    "\<not> truthy (allow_debug p) \<Longrightarrow>
       claim_path [''submods'', ''confidential_space'', ''support_attributes''] c = Some (PList xs) \<Longrightarrow> PStr ''DEBUG'' \<notin> set xs"
proof -
  obtain s where s: "py_get c ''hwmodel'' (PStr []) = Inr (PStr EXPECTED_HWMODEL)"
    "py_get c ''secboot'' (PBool False) = Inr (PBool True)"
    "py_get c ''dbgstat'' (PStr []) = Inr (PStr s)" "s \<in> set VALID_DBG_STATES"
    "s = ''enabled'' \<longrightarrow> truthy (allow_debug p)"
    and attrs: "truthy (allow_debug p) \<or> (\<exists>sm cs attrs. py_get c ''submods'' (PDict []) = Inr sm \<and>
        py_get sm ''confidential_space'' (PDict []) = Inr cs \<and> py_get cs ''support_attributes'' (PList []) = Inr attrs \<and>
        py_in (PStr ''DEBUG'') attrs = Inr False)"
    using assms by (rule verify_hw_claims_parts)
  show "claim_path [''hwmodel''] c = Some (PStr EXPECTED_HWMODEL)" "claim_path [''secboot''] c = Some (PBool True)"
    using claim_path_get [OF s(1)] claim_path_get [OF s(2)] by (simp_all add: EXPECTED_HWMODEL_def)
  have "s \<noteq> []" using s(4) by (auto simp: VALID_DBG_STATES_def)
  then show "\<exists>s \<in> set VALID_DBG_STATES. claim_path [''dbgstat''] c = Some (PStr s) \<and> (s = ''enabled'' \<longrightarrow> truthy (allow_debug p))"
    using claim_path_get [OF s(3)] s(4,5) by auto
  assume "\<not> truthy (allow_debug p)"
    and xs: "claim_path [''submods'', ''confidential_space'', ''support_attributes''] c = Some (PList xs)"
  with attrs obtain sm cs a where a: "py_get c ''submods'' (PDict []) = Inr sm"
     "py_get sm ''confidential_space'' (PDict []) = Inr cs" "py_get cs ''support_attributes'' (PList []) = Inr a"
     "py_in (PStr ''DEBUG'') a = Inr False" by blast
  from py_get_claim_is [OF a(3) py_get_claim_is [OF a(2) py_get_claim_is [OF a(1) xs]]] a(4)
  show "PStr ''DEBUG'' \<notin> set xs" by auto
qed

lemma verify_platform_identity_sound:
  assumes "verify_platform_identity c p = Inr True" "min_cs_version p \<noteq> 0"
  shows "claim_path [''swname''] c = Some (PStr EXPECTED_SWNAME)"
    "claim_path [''tdx'', ''cvm_compliance_status''] c = Some (PStr EXPECTED_CVM_COMPLIANCE)"
    "\<not> truthy (allow_memory_monitoring p) \<Longrightarrow>
        claim_path [''submods'', ''confidential_space'', ''monitoring_enabled'', ''memory''] c \<noteq> Some (PBool True)"
    "\<exists>v. claim_path [''swversion''] c = Some v \<and> meets_minimum (min_cs_version p) (version_list v)"
proof -
  obtain tdx sm cs v where r: "py_get c ''swname'' (PStr []) = Inr (PStr EXPECTED_SWNAME)"
    "py_get c ''tdx'' (PDict []) = Inr tdx" "py_get tdx ''cvm_compliance_status'' (PStr []) = Inr (PStr EXPECTED_CVM_COMPLIANCE)"
    "py_get c ''submods'' (PDict []) = Inr sm" "py_get sm ''confidential_space'' (PDict []) = Inr cs"
    and mem: "truthy (allow_memory_monitoring p) \<or> (\<exists>mon mem. py_get cs ''monitoring_enabled'' (PDict []) = Inr mon \<and>
        py_get mon ''memory'' PNone = Inr mem \<and> mem \<noteq> PBool True)"
    and v: "py_get c ''swversion'' (PList []) = Inr v" "meets_minimum (min_cs_version p) (version_list v)"
    using assms by (rule verify_platform_identity_parts)
  show "claim_path [''swname''] c = Some (PStr EXPECTED_SWNAME)"
    "claim_path [''tdx'', ''cvm_compliance_status''] c = Some (PStr EXPECTED_CVM_COMPLIANCE)"
    using claim_path_get [OF r(1)] claim_path_get2 [OF r(2,3)]
    by (simp_all add: EXPECTED_SWNAME_def EXPECTED_CVM_COMPLIANCE_def)
  have "v \<noteq> PList []" using v(2) by (auto simp: version_list_def)
  then show "\<exists>v. claim_path [''swversion''] c = Some v \<and> meets_minimum (min_cs_version p) (version_list v)"
    using claim_path_get [OF v(1)] v(2) by auto
  assume "\<not> truthy (allow_memory_monitoring p)"
  with mem obtain mon m where m: "py_get cs ''monitoring_enabled'' (PDict []) = Inr mon"
    "py_get mon ''memory'' PNone = Inr m" "m \<noteq> PBool True" by blast
  note mem_is = py_get_claim_is [OF m(2) py_get_claim_is [OF m(1) py_get_claim_is [OF r(5) py_get_claim_is [OF r(4)]]]]
  show "claim_path [''submods'', ''confidential_space'', ''monitoring_enabled'', ''memory''] c \<noteq> Some (PBool True)"
    using mem_is [of "[]" "PBool True"] m(3) by auto
qed

lemma verify_container_identity_sound:
  assumes "verify_container_identity c p = Inr True" "list_all is_str (expected_image_digests p)"
  shows "\<exists>d. claim_path [''submods'', ''container'', ''image_digest''] c = Some d \<and> d \<in> set (expected_image_digests p)"
    "truthy (expected_project_id p) \<Longrightarrow>
        \<exists>v. claim_path [''submods'', ''gce'', ''project_id''] c = Some v \<and> py_eq v (expected_project_id p)"
    "truthy (expected_service_account p) \<Longrightarrow>
        \<exists>v. claim_path [''google_service_accounts''] c = Some v \<and> py_in (expected_service_account p) v = Inr True"
proof -
  obtain sm co d where r: "py_get c ''submods'' (PDict []) = Inr sm"
    "py_get sm ''container'' (PDict []) = Inr co" "py_get co ''image_digest'' (PStr []) = Inr d" "truthy d"
    "py_hash_in d (expected_image_digests p) = Inr True"
    and pr: "\<not> truthy (expected_project_id p) \<or> (\<exists>gce v. py_get sm ''gce'' (PDict []) = Inr gce \<and>
        py_get gce ''project_id'' (PStr []) = Inr v \<and> py_eq v (expected_project_id p))"
    and sa: "\<not> truthy (expected_service_account p) \<or> (\<exists>v. py_get c ''google_service_accounts'' (PList []) = Inr v \<and>
        py_in (expected_service_account p) v = Inr True)"
    using assms(1) by (rule verify_container_identity_parts)
  have "d \<noteq> PStr []" using r(4) by auto
  then show "\<exists>d. claim_path [''submods'', ''container'', ''image_digest''] c = Some d \<and> d \<in> set (expected_image_digests p)"
    using claim_path_get3 [OF r(1,2,3)] digest_is_known [OF assms(2) r(5)] by blast
  show "\<exists>v. claim_path [''submods'', ''gce'', ''project_id''] c = Some v \<and> py_eq v (expected_project_id p)"
    if t: "truthy (expected_project_id p)"
  proof -
    from pr t obtain gce v where g: "py_get sm ''gce'' (PDict []) = Inr gce" "py_get gce ''project_id'' (PStr []) = Inr v"
      "py_eq v (expected_project_id p)" by blast
    then have "v \<noteq> PStr []" using t by auto
    then show ?thesis using claim_path_get3 [OF r(1) g(1,2)] g(3) by blast
  qed
  show "\<exists>v. claim_path [''google_service_accounts''] c = Some v \<and> py_in (expected_service_account p) v = Inr True"
    if t: "truthy (expected_service_account p)"
  proof -
    from sa t obtain v where g: "py_get c ''google_service_accounts'' (PList []) = Inr v"
      "py_in (expected_service_account p) v = Inr True" by blast
    then have "v \<noteq> PList []" by auto
    then show ?thesis using claim_path_get [OF g(1)] g(2) by blast
  qed
qed

lemma verify_claims_sound:
  assumes v: "verify_claims ext p c pem = Inr True"
    and p: "list_all is_str (expected_image_digests p)" "0 < min_cs_version p"
  shows "\<exists>nonce. compute_pubkey_hash_b64url ext pem = Inr nonce \<and> attested_claims p nonce c"
proof -
  from v have parts: "verify_issuer c = Inr True" "verify_hw_claims c p = Inr True"
    "verify_platform_identity c p = Inr True" "verify_key_binding ext c pem = Inr True"
    "verify_container_identity c p = Inr True"
    by (auto simp: verify_claims_def and_then_def split: if_splits)
  from parts(4) obtain nonce n where n: "compute_pubkey_hash_b64url ext pem = Inr nonce"
    "py_get c ''eat_nonce'' (PStr []) = Inr n" "n \<noteq> PStr []" "n = PStr nonce \<or> (\<exists>ns. n = PList (PStr nonce # ns))"
    by (rule verify_key_binding_parts)
  have m: "min_cs_version p \<noteq> 0" using p(2) by simp
  show ?thesis unfolding attested_claims_def
    using n(1,4) claim_path_get [OF n(2,3)] verify_issuer_sound [OF parts(1)] verify_hw_claims_sound [OF parts(2)]
      verify_platform_identity_sound [OF parts(3) m] verify_container_identity_sound [OF parts(5) p(1)]
    by blast
qed

text \<open>The nonce of accepted claims is the hash of the certificate's key.\<close>

lemma accepted_nonce:
  assumes "verify_claims ext p claims pem = Inr True"
  shows "\<exists>n nonce. claim_path [''eat_nonce''] claims = Some n \<and> (n = PStr nonce \<or> (\<exists>ns. n = PList (PStr nonce # ns))) \<and>
    compute_pubkey_hash_b64url ext pem = Inr nonce"
proof -
  from assms have "verify_key_binding ext claims pem = Inr True"
    by (auto simp: verify_claims_def and_then_def split: if_splits)
  then obtain nonce n where n: "compute_pubkey_hash_b64url ext pem = Inr nonce"
    "py_get claims ''eat_nonce'' (PStr []) = Inr n" "n \<noteq> PStr []" "n = PStr nonce \<or> (\<exists>ns. n = PList (PStr nonce # ns))"
    by (rule verify_key_binding_parts)
  from claim_path_get [OF n(2,3)] n(1,4) show ?thesis by blast
qed

section \<open>Completeness on well-shaped tokens\<close>

lemma path_get:
  "claim_path (k # ks) c = Some v \<Longrightarrow> \<exists>x. (\<forall>d. py_get c k d = Inr x) \<and> claim_path ks x = Some v"
  by (cases c) (auto simp: claim_path.simps split: option.splits)

lemma path_get1: "claim_path [k] c = Some v \<Longrightarrow> py_get c k d = Inr v"
  using path_get [of k "[]" c v] by auto

lemma path_sub: "claim_path (k # ks) c = Some v \<Longrightarrow> \<forall>d. py_get c k d = Inr x \<Longrightarrow> claim_path ks x = Some v"
  using path_get [of k ks c v] by auto

lemma and_then_Inr [simp]: "and_then (Inr a) (Inr b) = Inr (a \<and> b)"
  by (simp add: and_then_def)

lemma meets_minimum_strs:
  "meets_minimum m (map PStr vs) \<longleftrightarrow> (\<exists>v \<in> set vs. \<exists>i. int_of_str v = Inr i \<and> m \<le> i)"
  by (induction vs) (auto split: sum.splits)

lemma nonce_shape:
  assumes "compute_pubkey_hash_b64url ext pem = Inr nonce"
  shows "length nonce = 43" "list_all url_safe nonce"
  using assms by (auto simp: compute_pubkey_hash_b64url_def nopad_length nopad_url_safe)

lemma nonce_not_Nil: "compute_pubkey_hash_b64url ext pem = Inr nonce \<Longrightarrow> nonce \<noteq> []"
  using nonce_shape(1) by fastforce

lemma verify_hw_cs:
  assumes "cs_shaped c t"
  shows "verify_hw_claims c p = Inr (t_hwmodel t = EXPECTED_HWMODEL \<and> t_secboot t \<and>
     t_dbgstat t \<in> {''disabled'', ''disabled-since-boot''} \<union> (if truthy (allow_debug p) then {''enabled''} else {}) \<and>
     (truthy (allow_debug p) \<or> ''DEBUG'' \<notin> set (t_attributes t)))"
proof -
  from assms have c: "claim_path [''hwmodel''] c = Some (PStr (t_hwmodel t))"
     "claim_path [''secboot''] c = Some (PBool (t_secboot t))"
     "claim_path [''dbgstat''] c = Some (PStr (t_dbgstat t))"
     "claim_path [''submods'', ''confidential_space'', ''support_attributes''] c = Some (PList (map PStr (t_attributes t)))"
    by (simp_all add: cs_shaped_def)
  from path_get [OF c(4)] obtain sm where sm: "\<forall>d. py_get c ''submods'' d = Inr sm"
    "claim_path [''confidential_space'', ''support_attributes''] sm = Some (PList (map PStr (t_attributes t)))"
    by blast
  from path_get [OF sm(2)] obtain cs where cs: "\<forall>d. py_get sm ''confidential_space'' d = Inr cs"
    "claim_path [''support_attributes''] cs = Some (PList (map PStr (t_attributes t)))"
    by blast
  show ?thesis
    by (auto simp: verify_hw_claims_def path_get1 [OF c(1)] path_get1 [OF c(2)] path_get1 [OF c(3)]
        sm(1) cs(1) path_get1 [OF cs(2)] VALID_DBG_STATES_def)
qed

lemma verify_platform_cs:
  assumes "cs_shaped c t" "min_cs_version p \<noteq> 0"
  shows "verify_platform_identity c p = Inr (t_swname t = EXPECTED_SWNAME \<and> t_cvm t = EXPECTED_CVM_COMPLIANCE \<and>
     (truthy (allow_memory_monitoring p) \<or> \<not> t_memory t) \<and>
     (\<exists>v \<in> set (t_swversion t). \<exists>i. int_of_str v = Inr i \<and> min_cs_version p \<le> i))"
proof -
  from assms(1) have c: "claim_path [''swname''] c = Some (PStr (t_swname t))"
     "claim_path [''swversion''] c = Some (PList (map PStr (t_swversion t)))"
     "claim_path [''tdx'', ''cvm_compliance_status''] c = Some (PStr (t_cvm t))"
     "claim_path [''submods'', ''confidential_space'', ''monitoring_enabled'', ''memory''] c = Some (PBool (t_memory t))"
    by (simp_all add: cs_shaped_def)
  from path_get [OF c(3)] obtain tdx where tdx: "\<forall>d. py_get c ''tdx'' d = Inr tdx"
    "claim_path [''cvm_compliance_status''] tdx = Some (PStr (t_cvm t))" by blast
  from path_get [OF c(4)] obtain sm where sm: "\<forall>d. py_get c ''submods'' d = Inr sm"
    "claim_path [''confidential_space'', ''monitoring_enabled'', ''memory''] sm = Some (PBool (t_memory t))"
    by blast
  from path_get [OF sm(2)] obtain cs where cs: "\<forall>d. py_get sm ''confidential_space'' d = Inr cs"
    "claim_path [''monitoring_enabled'', ''memory''] cs = Some (PBool (t_memory t))" by blast
  from path_get [OF cs(2)] obtain mon where mon: "\<forall>d. py_get cs ''monitoring_enabled'' d = Inr mon"
    "claim_path [''memory''] mon = Some (PBool (t_memory t))" by blast
  have v: "version_list (PList (map PStr (t_swversion t))) \<noteq> [] \<and>
      meets_minimum (min_cs_version p) (version_list (PList (map PStr (t_swversion t)))) \<longleftrightarrow>
      (\<exists>v \<in> set (t_swversion t). \<exists>i. int_of_str v = Inr i \<and> min_cs_version p \<le> i)"
    by (auto simp: version_list_def meets_minimum_strs)
  show ?thesis
    unfolding verify_platform_identity_def
    by (simp only: path_get1 [OF c(1)] path_get1 [OF c(2)] tdx(1) path_get1 [OF tdx(2)]
        sm(1) cs(1) mon(1) path_get1 [OF mon(2)] rbind_Inr py_eq_PStr_iff pyval.inject v assms(2))
      (auto simp: assms(2))
qed

lemma verify_container_cs:
  assumes "cs_shaped c t" "ita_typed p"
  shows "verify_container_identity c p = Inr (t_digest t \<noteq> [] \<and> PStr (t_digest t) \<in> set (expected_image_digests p) \<and>
     (expected_project_id p = PStr [] \<or> expected_project_id p = PStr (t_project t)) \<and>
     (expected_service_account p = PStr [] \<or> expected_service_account p \<in> PStr ` set (t_accounts t)))"
proof -
  from assms(1) have c: "claim_path [''google_service_accounts''] c = Some (PList (map PStr (t_accounts t)))"
     "claim_path [''submods'', ''container'', ''image_digest''] c = Some (PStr (t_digest t))"
     "claim_path [''submods'', ''gce'', ''project_id''] c = Some (PStr (t_project t))"
    by (simp_all add: cs_shaped_def)
  from path_get [OF c(2)] obtain sm where sm: "\<forall>d. py_get c ''submods'' d = Inr sm"
    "claim_path [''container'', ''image_digest''] sm = Some (PStr (t_digest t))" by blast
  from path_get [OF sm(2)] obtain co where co: "\<forall>d. py_get sm ''container'' d = Inr co"
    "claim_path [''image_digest''] co = Some (PStr (t_digest t))" by blast
  obtain gce where gce: "\<forall>d. py_get sm ''gce'' d = Inr gce" "claim_path [''project_id''] gce = Some (PStr (t_project t))"
    using path_get [OF path_sub [OF c(3) sm(1)]] by blast
  obtain a b where f: "expected_project_id p = PStr a" "expected_service_account p = PStr b"
    and ds: "list_all is_str (expected_image_digests p)"
    using assms(2) by (auto simp: ita_typed_def elim!: is_str.elims)
  obtain ss where ss: "py_sorted (expected_image_digests p) = Inr ss" using py_sorted_strs [OF ds] by blast
  show ?thesis
    by (auto simp: verify_container_identity_def path_get1 [OF c(1)] sm(1) co(1) path_get1 [OF co(2)] gce(1)
        path_get1 [OF gce(2)] f ss)
qed

lemma verify_claims_cs:
  assumes "cs_shaped c t" "ita_typed p" "min_cs_version p \<noteq> 0" "compute_pubkey_hash_b64url ext pem = Inr nonce"
  shows "verify_claims ext p c pem = Inr (cs_trusted p nonce t)"
proof -
  from assms(1) have "claim_path [''iss''] c = Some (PStr (t_iss t))" "claim_path [''eat_nonce''] c = Some (PStr (t_nonce t))"
    by (simp_all add: cs_shaped_def)
  then have "verify_issuer c = Inr (t_iss t = ITA_ISSUER)" "verify_key_binding ext c pem = Inr (t_nonce t = nonce)"
    using nonce_not_Nil [OF assms(4)]
    by (auto simp: verify_issuer_def path_get1 verify_key_binding_def assms(4))
  with verify_hw_cs [OF assms(1), of p] verify_platform_cs [OF assms(1,3)] verify_container_cs [OF assms(1,2)]
  show ?thesis by (simp add: verify_claims_def cs_trusted_def conj_ac)
qed

section \<open>The key cache\<close>

text \<open>
  A cached key set is fresh at a time when it is no older than the time to live.
\<close>

definition jwks_fresh :: "rat \<Rightarrow> 'a world_scheme \<Rightarrow> bool" where
  "jwks_fresh now w \<longleftrightarrow> jwks_data w \<noteq> None \<and> now - jwks_timestamp w \<le> JWKS_TTL"

definition http_gets :: "event list \<Rightarrow> nat" where
  "http_gets es = length (filter (\<lambda>e. case e of HttpGet _ \<Rightarrow> True | _ \<Rightarrow> False) es)"

lemma http_gets_snoc [simp]:
  "http_gets (es @ [e]) = http_gets es + (case e of HttpGet _ \<Rightarrow> 1 | _ \<Rightarrow> 0)"
  by (simp add: http_gets_def split: event.splits)

lemma wp_fetch_jwks:
  "wp (fetch_jwks url) Q E w =
     (let w' = w_events_update (\<lambda>es. es @ [HttpGet url]) (w_tick_update Suc w)
      in case rbind (w_http w (w_tick w) url) (\<lambda>body. rbind (json_loads_bytes body) (\<lambda>jwks.
           rbind (rbind (py_get jwks ''keys'' (PList [])) py_len) (\<lambda>_. Inr jwks))) of
        Inl e \<Rightarrow> E e w' | Inr d \<Rightarrow> Q d w')"
  by (auto simp: fetch_jwks_def wp_simps Let_def rbind_def split: sum.splits)

text \<open>\<open>get_jwks\<close> in one equation: a fresh cache answers, otherwise the key server does.\<close>

definition fetched_jwks :: "'a world_scheme \<Rightarrow> pyval res" where
  "fetched_jwks w = rbind (w_http w (w_tick w) ITA_JWKS_URL) (\<lambda>body. rbind (json_loads_bytes body) (\<lambda>jwks.
     rbind (rbind (py_get jwks ''keys'' (PList [])) py_len) (\<lambda>_. Inr jwks)))"

lemma wp_get_jwks:
  "wp get_jwks Q E w =
     (let now = w_clock w (w_tick w); w1 = w_tick_update Suc w;
          w2 = w_events_update (\<lambda>es. es @ [HttpGet ITA_JWKS_URL]) (w_tick_update Suc w1) in
      if jwks_fresh now w then Q (the (jwks_data w)) w1
      else case fetched_jwks w1 of
        Inl e \<Rightarrow> E e w2
      | Inr d \<Rightarrow> Q d (w2\<lparr>jwks_data := Some d, jwks_timestamp := now\<rparr>))"
  by (cases "jwks_data w")
    (auto simp: get_jwks_def wp_simps wp_fetch_jwks fetched_jwks_def jwks_fresh_def Let_def split: sum.splits)

text \<open>The key set in hand is the cached one, and it was fresh at a clock reading between \<open>w\<close> and \<open>w'\<close>.\<close>

definition keys_from_cache :: "'a world_scheme \<Rightarrow> 'a world_scheme \<Rightarrow> pyval \<Rightarrow> bool" where
  "keys_from_cache w w' jwks \<longleftrightarrow> jwks_data w' = Some jwks \<and> w_clock w' = w_clock w \<and>
     (\<exists>n. w_tick w \<le> n \<and> n < w_tick w' \<and> w_clock w n - jwks_timestamp w' \<le> JWKS_TTL)"

lemma get_jwks_fresh:
  "w_clock w0 = w_clock w \<Longrightarrow> w_tick w0 \<le> w_tick w \<Longrightarrow>
   wp get_jwks (\<lambda>d w'. keys_from_cache w0 w' d) (\<lambda>_ _. True) w"
  by (auto simp: wp_get_jwks keys_from_cache_def jwks_fresh_def Let_def JWKS_TTL_def split: sum.splits
      intro: exI [of _ "w_tick w"])

lemma keys_from_cache_tick:
  "keys_from_cache w w' d \<Longrightarrow> keys_from_cache w (w_tick_update Suc w') d"
  by (auto simp: keys_from_cache_def)

definition token_checked :: "ext \<Rightarrow> ita_policy \<Rightarrow> string \<Rightarrow> pyval \<Rightarrow> pyval \<Rightarrow> bool" where
  "token_checked ext p token jwks claims \<longleftrightarrow>
     (\<exists>keys header kid key now. jwks_from_dict ext jwks = Inr keys \<and> jwt_header ext token = Inr header \<and>
        py_get header ''kid'' PNone = Inr kid \<and> truthy kid \<and> matching_key kid keys = Some key \<and>
        jwt_decode ext token key JWT_ALGORITHMS EXPECTED_AUDIENCE (clock_skew_seconds p) now = Inr claims)"

lemma signing_key_found:
  assumes "keys_from_cache w w1 jwks" "jwks_from_dict ext jwks = Inr keys"
  shows "wp (signing_key ext kid keys)
     (\<lambda>r w'. \<forall>key. r = Some key \<longrightarrow> (\<exists>jwks' keys'. keys_from_cache w w' jwks' \<and> jwks_from_dict ext jwks' = Inr keys' \<and>
        matching_key kid keys' = Some key))
     (\<lambda>_ _. True) w1"
proof (cases "matching_key kid keys")
  case (Some key)
  with assms show ?thesis by (auto simp: signing_key_def wp_simps)
next
  case None
  have "wp get_jwks (\<lambda>d w'. keys_from_cache w w' d) (\<lambda>_ _. True) (w1\<lparr>jwks_timestamp := 0\<rparr>)"
    using assms(1) by (intro get_jwks_fresh) (auto simp: keys_from_cache_def)
  then show ?thesis
    by (simp add: signing_key_def None wp_bind wp_modify)
      (erule wp_mono, auto simp: wp_simps split: sum.splits)
qed

lemma decode_claims_checked:
  assumes "keys_from_cache w w1 jwks" "jwks_from_dict ext jwks = Inr keys" "jwt_header ext token = Inr header"
      "py_get header ''kid'' PNone = Inr kid" "truthy kid" "matching_key kid keys = Some key"
  shows "wp (decode_claims ext p token key)
     (\<lambda>r w'. \<forall>claims. r = Some claims \<longrightarrow> (\<exists>jwks. keys_from_cache w w' jwks \<and> token_checked ext p token jwks claims))
     (\<lambda>_ _. True) w1"
proof -
  have "token_checked ext p token jwks claims"
    if "jwt_decode ext token key JWT_ALGORITHMS EXPECTED_AUDIENCE (clock_skew_seconds p) now = Inr claims" for claims now
    using assms that unfolding token_checked_def by blast
  with keys_from_cache_tick [OF assms(1)] show ?thesis
    by (auto simp: decode_claims_def wp_simps split: sum.splits)
qed

lemma decode_token_checked:
  "wp (decode_token ext p token)
     (\<lambda>r w'. \<forall>claims. r = Some claims \<longrightarrow> (\<exists>jwks. keys_from_cache w w' jwks \<and> token_checked ext p token jwks claims))
     (\<lambda>_ _. True) w"
  (is "wp _ ?Q ?E w")
proof -
  have key: "wp (signing_key ext kid keys) (\<lambda>found. wp (case found of None \<Rightarrow> io_return None | Some key \<Rightarrow>
         decode_claims ext p token key) ?Q ?E) ?E w1"
    if "keys_from_cache w w1 jwks" "jwks_from_dict ext jwks = Inr keys" "jwt_header ext token = Inr header"
      "py_get header ''kid'' PNone = Inr kid" "truthy kid" for w1 jwks keys header kid
  proof (rule wp_mono [OF signing_key_found [OF that(1,2)]])
    fix r w2
    assume "\<forall>key. r = Some key \<longrightarrow> (\<exists>jwks' keys'. keys_from_cache w w2 jwks' \<and> jwks_from_dict ext jwks' = Inr keys' \<and>
        matching_key kid keys' = Some key)"
    then show "wp (case r of None \<Rightarrow> io_return None | Some key \<Rightarrow> decode_claims ext p token key) ?Q ?E w2"
      by (cases r) (auto simp: wp_return intro!: decode_claims_checked [OF _ _ that(3,4,5)])
  qed simp
  show ?thesis
    unfolding decode_token_def wp_bind [of get_jwks]
    by (rule wp_mono [OF get_jwks_fresh [OF refl order_refl]])
      (auto simp: wp_simps key split: sum.split)
qed

lemma ita_verifier_checked:
  "wp (ita_verifier ext p token pem)
     (\<lambda>ok w'. ok \<longrightarrow> (\<exists>jwks claims. keys_from_cache w w' jwks \<and> token_checked ext p token jwks claims \<and>
        verify_claims ext p claims pem = Inr True)) (\<lambda>_ _. True) w"
  (is "wp _ ?Q _ w")
proof -
  have "wp (case r of None \<Rightarrow> io_return False | Some claims \<Rightarrow> io_lift (verify_claims ext p claims pem)) ?Q (\<lambda>_ _. True) w1"
    if "\<forall>claims. r = Some claims \<longrightarrow> (\<exists>jwks. keys_from_cache w w1 jwks \<and> token_checked ext p token jwks claims)" for r w1
    using that by (cases r) (force simp: wp_simps split: sum.split)+
  then show ?thesis
    unfolding ita_verifier_def wp_bind wp_catch
    by (intro wp_mono [OF decode_token_checked]) (simp_all add: wp_return)
qed

section \<open>What verification does to the surroundings\<close>

text \<open>Nothing but time, requests to the key server and the key cache.\<close>

definition key_traffic :: "nat \<Rightarrow> 'a world_scheme \<Rightarrow> 'a world_scheme \<Rightarrow> bool" where
  "key_traffic n w w' \<longleftrightarrow> w_tick w \<le> w_tick w' \<and>
     w'\<lparr>w_tick := w_tick w, w_events := w_events w, jwks_data := jwks_data w, jwks_timestamp := jwks_timestamp w\<rparr> = w \<and>
     (\<exists>es. w_events w' = w_events w @ es \<and> set es \<subseteq> {HttpGet ITA_JWKS_URL} \<and> length es \<le> n)"

lemma key_traffic_refl: "key_traffic n w w"
  by (simp add: key_traffic_def)

lemma key_traffic_tick: "key_traffic n w w' \<Longrightarrow> key_traffic n w (w_tick_update Suc w')"
  by (auto simp: key_traffic_def comp_def)

lemma key_traffic_reset: "key_traffic n w w' \<Longrightarrow> key_traffic n w (w'\<lparr>jwks_timestamp := 0\<rparr>)"
  by (simp add: key_traffic_def)

lemma key_traffic_get:
  assumes "key_traffic n w w'" "w'' = w_events_update (\<lambda>es. es @ [HttpGet ITA_JWKS_URL]) w'"
  shows "key_traffic (Suc n) w w'' \<and> key_traffic (Suc n) w (w''\<lparr>jwks_data := d, jwks_timestamp := ts\<rparr>)"
proof -
  from assms(1) obtain es where "w_events w' = w_events w @ es" "set es \<subseteq> {HttpGet ITA_JWKS_URL}" "length es \<le> n"
    by (auto simp: key_traffic_def)
  then have "\<exists>es. w_events w' @ [HttpGet ITA_JWKS_URL] = w_events w @ es \<and> set es \<subseteq> {HttpGet ITA_JWKS_URL} \<and> length es \<le> Suc n"
    by (intro exI [of _ "es @ [HttpGet ITA_JWKS_URL]"]) simp
  with assms show ?thesis by (simp add: key_traffic_def comp_def)
qed

lemma get_jwks_traffic:
  assumes "key_traffic n w0 w"
  shows "wp get_jwks (\<lambda>_. key_traffic (Suc n) w0) (\<lambda>_. key_traffic (Suc n) w0) w"
proof -
  note t = key_traffic_tick [OF key_traffic_tick [OF assms]] key_traffic_tick [OF assms]
  have "key_traffic (Suc n) w0 (w_tick_update Suc w)"
    using t(2) unfolding key_traffic_def by (blast intro: le_SucI)
  with key_traffic_get [OF t(1) refl] show ?thesis by (simp add: wp_get_jwks Let_def split: sum.splits)
qed

lemma key_traffic_mono: "key_traffic n w w' \<Longrightarrow> n \<le> m \<Longrightarrow> key_traffic m w w'"
  unfolding key_traffic_def by (blast intro: le_trans)

lemma signing_key_traffic:
  assumes "key_traffic 1 w0 w"
  shows "wp (signing_key ext kid keys) (\<lambda>_. key_traffic 2 w0) (\<lambda>_. key_traffic 2 w0) w"
proof (cases "matching_key kid keys")
  case (Some key)
  with assms show ?thesis by (simp add: signing_key_def wp_simps key_traffic_mono)
next
  case None
  have "wp get_jwks (\<lambda>_. key_traffic 2 w0) (\<lambda>_. key_traffic 2 w0) (w\<lparr>jwks_timestamp := 0\<rparr>)"
    using get_jwks_traffic [OF key_traffic_reset [OF assms]] by (simp add: numeral_2_eq_2)
  then show ?thesis
    by (simp add: signing_key_def None wp_bind wp_modify)
      (erule wp_mono, auto simp: wp_simps split: sum.splits)
qed

lemma decode_token_traffic:
  "wp (decode_token ext p token) (\<lambda>_. key_traffic 2 w) (\<lambda>_. key_traffic 2 w) w"
proof -
  have claims: "wp (case found of None \<Rightarrow> io_return None | Some key \<Rightarrow> decode_claims ext p token key)
      (\<lambda>_. key_traffic 2 w) (\<lambda>_. key_traffic 2 w) w1" if "key_traffic 2 w w1" for found w1
    using key_traffic_tick [OF that] that by (cases found) (auto simp: decode_claims_def wp_simps split: sum.splits)
  have key: "wp (signing_key ext kid keys) (\<lambda>found. wp (case found of None \<Rightarrow> io_return None | Some key \<Rightarrow>
      decode_claims ext p token key) (\<lambda>_. key_traffic 2 w) (\<lambda>_. key_traffic 2 w)) (\<lambda>_. key_traffic 2 w) w1"
    if "key_traffic 1 w w1" for kid keys w1
    by (rule wp_mono [OF signing_key_traffic [OF that]]) (simp_all add: claims)
  show ?thesis
    unfolding decode_token_def wp_bind [of get_jwks]
    by (rule wp_mono [OF get_jwks_traffic [OF key_traffic_refl [of 0]]])
      (auto simp: wp_simps key key_traffic_mono split: sum.split)
qed

lemma ita_verifier_traffic:
  "wp (ita_verifier ext p token pem) (\<lambda>_. key_traffic 2 w) (\<lambda>_. key_traffic 2 w) w"
  unfolding ita_verifier_def wp_bind wp_catch
  by (rule wp_mono [OF decode_token_traffic]) (auto simp: wp_simps split: option.split sum.split)

section \<open>A concrete token\<close>

text \<open>A token of the documented shape, bound to a key; the instances below use it.\<close>

definition sample_nonce :: string where
  "sample_nonce = base64url_encode_nopad (sha256 [1, 2, 3])"

definition sample_token :: cs_token where
  "sample_token = \<lparr>t_iss = ITA_ISSUER, t_hwmodel = ''INTEL_TDX'', t_secboot = True, t_dbgstat = ''disabled-since-boot'',
     t_swname = ''CONFIDENTIAL_SPACE'', t_swversion = [''beta'', ''260501''], t_cvm = ''gcp_compliant_cvm'',
     t_attributes = [''LATEST'', ''STABLE''], t_memory = False, t_nonce = sample_nonce, t_digest = ''sha256:ab'',
     t_project = ''proj'', t_accounts = [''a@b'']\<rparr>"

definition sample_claims :: pyval where
  "sample_claims = PDict [(''iss'', PStr ITA_ISSUER), (''hwmodel'', PStr ''INTEL_TDX''), (''secboot'', PBool True),
     (''dbgstat'', PStr ''disabled-since-boot''), (''swname'', PStr ''CONFIDENTIAL_SPACE''),
     (''swversion'', PList [PStr ''beta'', PStr ''260501'']),
     (''tdx'', PDict [(''cvm_compliance_status'', PStr ''gcp_compliant_cvm'')]),
     (''submods'', PDict [
        (''confidential_space'', PDict [(''support_attributes'', PList [PStr ''LATEST'', PStr ''STABLE'']),
           (''monitoring_enabled'', PDict [(''memory'', PBool False)])]),
        (''container'', PDict [(''image_digest'', PStr ''sha256:ab'')]),
        (''gce'', PDict [(''project_id'', PStr ''proj'')])]),
     (''eat_nonce'', PStr sample_nonce), (''google_service_accounts'', PList [PStr ''a@b''])]"

definition sample_policy :: ita_policy where
  "sample_policy = ita_default\<lparr>expected_image_digests := [PStr ''sha256:ab''], expected_project_id := PStr ''proj''\<rparr>"

definition sample_ext :: ext where
  "sample_ext = null_ext\<lparr>pem_spki := \<lambda>_. Inr [1, 2, 3], jwks_from_dict := \<lambda>_. Inr [(PStr ''k1'', PInt 7)],
     jwt_header := \<lambda>_. Inr (PDict [(''kid'', PStr ''k1'')]), jwt_decode := \<lambda>_ _ _ _ _ _. Inr sample_claims\<rparr>"

definition sample_world :: world where
  "sample_world = null_world\<lparr>jwks_data := Some (PDict [])\<rparr>"

lemma sample_shaped: "cs_shaped sample_claims sample_token"
  by (simp add: cs_shaped_def sample_claims_def sample_token_def claim_path.simps)

lemma sample_hash: "compute_pubkey_hash_b64url sample_ext pem = Inr sample_nonce"
  by (simp add: compute_pubkey_hash_b64url_def extract_pubkey_from_cert_def sample_ext_def sample_nonce_def null_ext_def)

lemma sample_policy_ok:
  "ita_typed sample_policy" "min_cs_version sample_policy \<noteq> 0" "ita_validate env sample_policy = Inr ()"
  by (simp_all add: ita_typed_def sample_policy_def ita_default_def MIN_CS_VERSION_DEFAULT_def ita_validate_def
      startswith_def)

lemma int_of_sample: "int_of_str ''260501'' = Inr 260501"
  by (simp add: int_of_str_def strip_def is_space_def Let_def is_digit_def digits_nat_def digit_val_def)

lemma sample_trusted: "cs_trusted sample_policy sample_nonce sample_token"
  by (simp add: cs_trusted_def sample_policy_def sample_token_def ita_default_def MIN_CS_VERSION_DEFAULT_def
      EXPECTED_HWMODEL_def EXPECTED_SWNAME_def EXPECTED_CVM_COMPLIANCE_def int_of_sample)

lemma sample_verify: "verify_claims sample_ext sample_policy sample_claims pem = Inr True"
  using verify_claims_cs [OF sample_shaped sample_policy_ok(1,2) sample_hash] sample_trusted by simp

lemma sample_ext_fields:
  "jwks_from_dict sample_ext d = Inr [(PStr ''k1'', PInt 7)]" "jwt_header sample_ext s = Inr (PDict [(''kid'', PStr ''k1'')])"
  "jwt_decode sample_ext s k a b c n = Inr sample_claims"
  by (simp_all add: sample_ext_def)

lemma sample_run: "fst (ita_verifier sample_ext sample_policy ''tok'' [0] sample_world) = Inr True"
  by (rule wp_returns)
    (simp add: ita_verifier_def decode_token_def decode_claims_def signing_key_def wp_simps wp_get_jwks Let_def
      jwks_fresh_def sample_world_def null_world_def JWKS_TTL_def matching_key_def sample_verify sample_ext_fields)

section \<open>Properties\<close>

text \<open>
  C3.  Soundness of acceptance.  If the verifier of a validated policy returns True, then the token
  decoded under a signing key that the key set names by the token's own \<^verbatim>\<open>kid\<close>, with the fixed
  algorithms and audience; that key set is the one now in the cache and was at most 24 hours old
  at a clock reading made during the call; and the decoded claims satisfy every requirement of
  the policy, with the nonce equal to the hash of the presented certificate's public key.
\<close>

theorem ita_verifier_sound:
  assumes run: "ita_verifier ext p token pem w = (Inr True, w')" and valid: "ita_validate env p = Inr ()"
  shows "\<exists>jwks claims nonce. keys_from_cache w w' jwks \<and> token_checked ext p token jwks claims \<and>
    compute_pubkey_hash_b64url ext pem = Inr nonce \<and> attested_claims p nonce claims"
proof -
  have p: "list_all is_str (expected_image_digests p)" "0 < min_cs_version p"
    using valid by (auto simp: ita_validate_iff list_all_iff)
  from wpD [OF ita_verifier_checked run] verify_claims_sound [OF _ p] show ?thesis by blast
qed

theorem ita_verifier_sound_witness:
  "\<exists>jwks claims nonce.
     keys_from_cache sample_world (snd (ita_verifier sample_ext sample_policy ''tok'' [0] sample_world)) jwks \<and>
     token_checked sample_ext sample_policy ''tok'' jwks claims \<and>
     compute_pubkey_hash_b64url sample_ext [0] = Inr nonce \<and> attested_claims sample_policy nonce claims"
  by (rule ita_verifier_sound [OF _ sample_policy_ok(3) [of "\<lambda>_. None"]]) (simp add: prod_eq_iff sample_run)

text \<open>
  C10.  Exact decision.  On every token of the documented Confidential Space shape the five checks
  neither raise nor deviate: they return True exactly when issuer, hardware model, secure boot,
  debug status, support attributes, software name, compliance status, memory monitoring, version
  floor, nonce, image digest, project and service account are what the policy asks for.
\<close>

theorem verify_claims_decides:
  assumes "cs_shaped claims t" and "ita_typed p" and "0 < min_cs_version p" and "pem_spki ext pem = Inr spki"
  shows "verify_claims ext p claims pem = Inr (cs_trusted p (base64url_encode_nopad (sha256 spki)) t)"
  using assms by (intro verify_claims_cs) (simp_all add: compute_pubkey_hash_b64url_def extract_pubkey_from_cert_def)

theorem verify_claims_decides_witness:
  "verify_claims sample_ext sample_policy sample_claims [0] =
     Inr (cs_trusted sample_policy (base64url_encode_nopad (sha256 [1, 2, 3])) sample_token)"
  using sample_policy_ok(2)
  by (intro verify_claims_decides [OF sample_shaped sample_policy_ok(1)])
    (simp_all add: sample_ext_def sample_policy_def ita_default_def MIN_CS_VERSION_DEFAULT_def)

text \<open>
  C23.  Key binding.  One set of claims is accepted for two certificates only if their public keys
  have the same SHA-256 digest: a token cannot be replayed for another key.
\<close>

theorem token_binds_key:
  assumes "verify_claims ext p claims pem1 = Inr True" and "verify_claims ext p claims pem2 = Inr True"
    and "pem_spki ext pem1 = Inr key1" and "pem_spki ext pem2 = Inr key2"
  shows "sha256 key1 = sha256 key2"
proof -
  have binding: "\<exists>n. claim_path [''eat_nonce''] claims = Some n \<and>
      (n = PStr (base64url_encode_nopad (sha256 key)) \<or> (\<exists>ns. n = PList (PStr (base64url_encode_nopad (sha256 key)) # ns)))"
    if "verify_claims ext p claims pem = Inr True" "pem_spki ext pem = Inr key" for pem key
    using accepted_nonce [OF that(1)] that(2) by (auto simp: compute_pubkey_hash_b64url_def extract_pubkey_from_cert_def)
  from binding [OF assms(1,3)] binding [OF assms(2,4)]
  have "base64url_encode_nopad (sha256 key1) = base64url_encode_nopad (sha256 key2)" by auto
  then show ?thesis using base64url_inverse by (metis Inr_inject)
qed

theorem token_binds_key_witness: "sha256 [1, 2, 3] = sha256 [1, 2, 3]"
  by (rule token_binds_key [OF sample_verify sample_verify, of "[0]" _ "[9]"]) (simp_all add: sample_ext_def)

text \<open>
  Bounds of the nonce.  Whatever the size of the key, claims are accepted only if their nonce is 43
  characters of the URL-safe alphabet without padding, which decode to 32 bytes.
\<close>

theorem accepted_nonce_bounds:
  assumes "verify_claims ext p claims pem = Inr True"
  shows "\<exists>n nonce digest. claim_path [''eat_nonce''] claims = Some n \<and> (n = PStr nonce \<or> (\<exists>ns. n = PList (PStr nonce # ns))) \<and>
    length nonce = 43 \<and> list_all url_safe nonce \<and> base64url_decode nonce = Inr digest \<and> length digest = 32"
proof -
  from accepted_nonce [OF assms] obtain n nonce where n: "claim_path [''eat_nonce''] claims = Some n"
    "n = PStr nonce \<or> (\<exists>ns. n = PList (PStr nonce # ns))" "compute_pubkey_hash_b64url ext pem = Inr nonce" by blast
  moreover have "\<exists>digest. base64url_decode nonce = Inr digest \<and> length digest = 32"
    using n(3) by (auto simp: compute_pubkey_hash_b64url_def base64url_inverse)
  ultimately show ?thesis using nonce_shape [OF n(3)] by blast
qed

theorem accepted_nonce_bounds_witness:
  "\<exists>n nonce digest. claim_path [''eat_nonce''] sample_claims = Some n \<and> (n = PStr nonce \<or> (\<exists>ns. n = PList (PStr nonce # ns))) \<and>
    length nonce = 43 \<and> list_all url_safe nonce \<and> base64url_decode nonce = Inr digest \<and> length digest = 32"
  by (rule accepted_nonce_bounds [OF sample_verify])


text \<open>
  The key cache.  A call that returns keys leaves them in the cache, fresh at its clock
  reading.  If the cache was fresh nothing is sent and the cached keys are returned; otherwise
  exactly one request goes to the key server and the cache is stamped with that reading.
\<close>

theorem get_jwks_cache:
  assumes "get_jwks w = (Inr jwks, w')" and "now = w_clock w (w_tick w)"
  shows "jwks_fresh now w' \<and> jwks_data w' = Some jwks \<and>
    (if jwks_fresh now w then w_events w' = w_events w \<and> jwks_data w = Some jwks
     else w_events w' = w_events w @ [HttpGet ITA_JWKS_URL] \<and> jwks_timestamp w' = now)"
proof -
  have "wp get_jwks (\<lambda>d w'. jwks_fresh now w' \<and> jwks_data w' = Some d \<and>
    (if jwks_fresh now w then w_events w' = w_events w \<and> jwks_data w = Some d
     else w_events w' = w_events w @ [HttpGet ITA_JWKS_URL] \<and> jwks_timestamp w' = now)) (\<lambda>_ _. True) w"
    unfolding assms(2) by (auto simp: wp_get_jwks Let_def jwks_fresh_def JWKS_TTL_def split: sum.splits)
  then show ?thesis using assms(1) by (rule wpD)
qed

theorem get_jwks_cache_witness:
  "jwks_fresh 0 (snd (get_jwks sample_world)) \<and> jwks_data (snd (get_jwks sample_world)) = Some (PDict []) \<and>
    (if jwks_fresh 0 sample_world
     then w_events (snd (get_jwks sample_world)) = w_events sample_world \<and> jwks_data sample_world = Some (PDict [])
     else w_events (snd (get_jwks sample_world)) = w_events sample_world @ [HttpGet ITA_JWKS_URL] \<and>
       jwks_timestamp (snd (get_jwks sample_world)) = 0)"
proof (rule get_jwks_cache)
  show "get_jwks sample_world = (Inr (PDict []), snd (get_jwks sample_world))"
    by (simp add: get_jwks_def time_time_def tick_def io_simps sample_world_def null_world_def JWKS_TTL_def)
qed (simp add: sample_world_def null_world_def)

text \<open>
  C30.  Failing closed.  Whatever goes wrong while fetching keys or decoding the token (network,
  malformed keys, bad signature, expiry, audience) the verifier answers False and does not raise;
  verification makes at most two requests, both to the key server, and changes nothing else but
  the key cache.
\<close>

theorem ita_verifier_fails_closed:
  "fst (ita_verifier ext p token pem w) =
     (case fst (decode_token ext p token w) of
        Inl e \<Rightarrow> Inr False
      | Inr None \<Rightarrow> Inr False
      | Inr (Some claims) \<Rightarrow> verify_claims ext p claims pem) \<and>
   key_traffic 2 w (snd (ita_verifier ext p token pem w))"
proof
  show "fst (ita_verifier ext p token pem w) =
     (case fst (decode_token ext p token w) of
        Inl e \<Rightarrow> Inr False
      | Inr None \<Rightarrow> Inr False
      | Inr (Some claims) \<Rightarrow> verify_claims ext p claims pem)"
    by (auto simp: ita_verifier_def io_simps split: prod.splits sum.splits option.splits)
  show "key_traffic 2 w (snd (ita_verifier ext p token pem w))"
    using ita_verifier_traffic [of ext p token pem w]
    by (auto simp: wp_def split: prod.splits sum.splits)
qed

text \<open>
  Key rotation.  When the token names a key that the fresh cached set does not have, the cache
  is refreshed at once (outside test environments, at any time after the epoch's first day): one
  request is made; if it fails the answer is False and the old set stays but is marked stale, so
  the next call asks again; if it succeeds the new set replaces the old one.
\<close>

theorem unknown_kid_refreshes:
  assumes "jwks_fresh (w_clock w (w_tick w)) w" and "jwks_data w = Some jwks" and "jwks_from_dict ext jwks = Inr keys"
    and "jwt_header ext token = Inr header" and "py_get header ''kid'' PNone = Inr kid" and "truthy kid"
    and "matching_key kid keys = None" and "\<not> is_test_env (w_env w)" and "JWKS_TTL < w_clock w (Suc (w_tick w))"
    and "w' = snd (ita_verifier ext p token pem w)"
  shows "w_events w' = w_events w @ [HttpGet ITA_JWKS_URL] \<and>
    (case fetched_jwks (w_tick_update Suc (w_tick_update Suc w)) of
       Inl e \<Rightarrow> fst (ita_verifier ext p token pem w) = Inr False \<and> jwks_data w' = Some jwks \<and> jwks_timestamp w' = 0
     | Inr fresh \<Rightarrow> jwks_data w' = Some fresh \<and> jwks_timestamp w' = w_clock w (Suc (w_tick w)))"
proof -
  let ?w2 = "w_tick_update Suc (w_tick_update Suc w)"
  let ?P = "\<lambda>w'. w_events w' = w_events w @ [HttpGet ITA_JWKS_URL] \<and>
    (\<forall>fresh. fetched_jwks ?w2 = Inr fresh \<longrightarrow> jwks_data w' = Some fresh \<and> jwks_timestamp w' = w_clock w (Suc (w_tick w)))"
  let ?Q = "\<lambda>ok w'. ?P w' \<and> (\<forall>e. fetched_jwks ?w2 = Inl e \<longrightarrow> \<not> ok \<and> jwks_data w' = Some jwks \<and> jwks_timestamp w' = 0)"
  let ?E = "\<lambda>e w'. ?P w' \<and> (\<exists>fresh. fetched_jwks ?w2 = Inr fresh)"
  have stale: "\<not> jwks_fresh (w_clock w (Suc (w_tick w))) (w_tick_update Suc w\<lparr>jwks_timestamp := 0\<rparr>)"
    using assms(9) by (simp add: jwks_fresh_def)
  have same: "fetched_jwks (w_tick_update Suc (w_tick_update Suc w\<lparr>jwks_timestamp := 0\<rparr>)) = fetched_jwks ?w2"
    by (simp add: fetched_jwks_def)
  have "wp (ita_verifier ext p token pem) ?Q ?E w"
    using assms(1-8) stale same
    by (simp add: ita_verifier_def decode_token_def signing_key_def decode_claims_def is_test_env_def wp_simps wp_get_jwks
        Let_def split: sum.split option.split)
  then show ?thesis using assms(10)
    by (cases "ita_verifier ext p token pem w"; cases "fst (ita_verifier ext p token pem w)";
        cases "fetched_jwks ?w2") (auto simp: wp_def)
qed

theorem unknown_kid_refreshes_witness:
  "w_events (snd (ita_verifier (sample_ext\<lparr>jwt_header := \<lambda>_. Inr (PDict [(''kid'', PStr ''k2'')])\<rparr>) sample_policy ''tok'' [0]
       (sample_world\<lparr>w_clock := \<lambda>n. if n = 0 then 0 else 100000\<rparr>)))
     = w_events (sample_world\<lparr>w_clock := \<lambda>n. if n = 0 then 0 else 100000\<rparr>) @ [HttpGet ITA_JWKS_URL]"
  by (rule conjunct1, rule unknown_kid_refreshes [of _ "PDict []" _ "[(PStr ''k1'', PInt 7)]" _
        "PDict [(''kid'', PStr ''k2'')]" "PStr ''k2''"])
    (simp_all add: sample_world_def null_world_def sample_ext_def jwks_fresh_def JWKS_TTL_def matching_key_def is_test_env_def)

end
