(* ===== verification/JwksThreads.thy ===== *)
theory JwksThreads
  imports ItaVerifier
begin

text \<open>
  The key cache of \<^verbatim>\<open>ita_verifier.py\<close> under threads.  \<^verbatim>\<open>get_jwks\<close> is double-checked locking over a module
  dictionary and a lock; the refresh for an unknown key identifier resets the timestamp under the
  same lock.  Here each read or write of the dictionary is one step (a dictionary access is atomic
  in Python, a sequence of them is not), and any number of threads may interleave in any way.  A
  key set carries the time and number of the fetch that produced it and a thread the number of
  fetches at its last reset; these labels serve the statements only, no step depends on them.  Time
  is read from a clock that is not set back and shows more than a day since its epoch.
\<close>

section \<open>Threads\<close>

datatype keyset = Keys (ks_data: pyval) (ks_at: rat) (ks_no: nat)

text \<open>
  The position of a thread: the fast path, the part under the lock (from \<open>CheckData\<close> to \<open>Leave\<close>), the
  reset of the timestamp, and the end of a call with its result.
\<close>

datatype pc =
    Enter | FastData | FastStamp | FastReturn
  | Acquire | CheckData | CheckStamp | Fetch | StoreData keyset | StoreStamp | Load | Leave "keyset option res"
  | ResetAcquire | ResetStamp | ResetLeave
  | Finished "keyset option res"

record thread =
  th_pc :: pc
  th_now :: rat
  th_since :: nat

record jsys =
  s_data :: "keyset option"
  s_ts :: rat
  s_lock :: "nat option"
  s_clock :: rat
  s_fetches :: nat
  s_threads :: "nat \<Rightarrow> thread"

definition on_thread :: "nat \<Rightarrow> (thread \<Rightarrow> thread) \<Rightarrow> jsys \<Rightarrow> jsys" where
  "on_thread i f s = s\<lparr>s_threads := (s_threads s)(i := f (s_threads s i))\<rparr>"

definition goto :: "nat \<Rightarrow> pc \<Rightarrow> jsys \<Rightarrow> jsys" where
  "goto i p = on_thread i (\<lambda>t. t\<lparr>th_pc := p\<rparr>)"

text \<open>The next step of thread \<open>i\<close>, where a request to the key server would be answered by \<open>answer\<close>.\<close>

definition act :: "nat \<Rightarrow> pyval res \<Rightarrow> jsys \<Rightarrow> jsys option" where
  "act i answer s = (let now = th_now (s_threads s i) in case th_pc (s_threads s i) of
      Enter \<Rightarrow> Some (on_thread i (\<lambda>t. t\<lparr>th_pc := FastData, th_now := s_clock s\<rparr>) s)
    | FastData \<Rightarrow> Some (goto i (if s_data s \<noteq> None then FastStamp else Acquire) s)
    | FastStamp \<Rightarrow> Some (goto i (if now - s_ts s \<le> JWKS_TTL then FastReturn else Acquire) s)
    | FastReturn \<Rightarrow> Some (goto i (Finished (Inr (s_data s))) s)
    | Acquire \<Rightarrow> if s_lock s = None then Some (goto i CheckData (s\<lparr>s_lock := Some i\<rparr>)) else None
    | CheckData \<Rightarrow> Some (goto i (if s_data s = None then Fetch else CheckStamp) s)
    | CheckStamp \<Rightarrow> Some (goto i (if now - s_ts s > JWKS_TTL then Fetch else Load) s)
    | Fetch \<Rightarrow> Some (case answer of
          Inl e \<Rightarrow> goto i (Leave (Inl e)) s
        | Inr d \<Rightarrow> goto i (StoreData (Keys d (s_clock s) (Suc (s_fetches s)))) (s\<lparr>s_fetches := Suc (s_fetches s)\<rparr>))
    | StoreData k \<Rightarrow> Some (goto i StoreStamp (s\<lparr>s_data := Some k\<rparr>))
    | StoreStamp \<Rightarrow> Some (goto i Load (s\<lparr>s_ts := now\<rparr>))
    | Load \<Rightarrow> Some (goto i (Leave (Inr (s_data s))) s)
    | Leave r \<Rightarrow> Some (goto i (Finished r) (s\<lparr>s_lock := None\<rparr>))
    | ResetAcquire \<Rightarrow> if s_lock s = None then Some (goto i ResetStamp (s\<lparr>s_lock := Some i\<rparr>)) else None
    | ResetStamp \<Rightarrow> Some (on_thread i (\<lambda>t. t\<lparr>th_pc := ResetLeave, th_since := s_fetches s\<rparr>) (s\<lparr>s_ts := 0\<rparr>))
    | ResetLeave \<Rightarrow> Some (goto i Enter (s\<lparr>s_lock := None\<rparr>))
    | Finished r \<Rightarrow> None)"

definition jinit :: "rat \<Rightarrow> jsys" where
  "jinit t = \<lparr>s_data = None, s_ts = 0, s_lock = None, s_clock = t, s_fetches = 0,
     s_threads = \<lambda>_. \<lparr>th_pc = Enter, th_now = t, th_since = 0\<rparr>\<rparr>"

text \<open>
  What can happen: some thread takes a step; a thread whose call ended starts another verification, or
  refreshes the keys because it did not find its key identifier in them; time passes.
\<close>

inductive jstep :: "jsys \<Rightarrow> jsys \<Rightarrow> bool" where
  Act: "act i answer s = Some s' \<Longrightarrow> jstep s s'"
| Call: "th_pc (s_threads s i) = Finished r \<Longrightarrow> jstep s (on_thread i (\<lambda>t. t\<lparr>th_pc := Enter, th_since := 0\<rparr>) s)"
| Refresh: "th_pc (s_threads s i) = Finished (Inr k) \<Longrightarrow> jstep s (goto i ResetAcquire s)"
| Tick: "s_clock s \<le> t \<Longrightarrow> jstep s (s\<lparr>s_clock := t\<rparr>)"

section \<open>The invariant\<close>

fun critical :: "pc \<Rightarrow> bool" where
  "critical CheckData = True" | "critical CheckStamp = True" | "critical Fetch = True" | "critical (StoreData k) = True"
| "critical StoreStamp = True" | "critical Load = True" | "critical (Leave r) = True" | "critical ResetStamp = True"
| "critical ResetLeave = True" | "critical _ = False"

abbreviation pc_of :: "jsys \<Rightarrow> nat \<Rightarrow> pc" where "pc_of s i \<equiv> th_pc (s_threads s i)"
abbreviation now_of :: "jsys \<Rightarrow> nat \<Rightarrow> rat" where "now_of s i \<equiv> th_now (s_threads s i)"
abbreviation since_of :: "jsys \<Rightarrow> nat \<Rightarrow> nat" where "since_of s i \<equiv> th_since (s_threads s i)"

lemma goto_simps [simp]:
  "s_data (goto i p s) = s_data s" "s_ts (goto i p s) = s_ts s" "s_lock (goto i p s) = s_lock s"
  "s_clock (goto i p s) = s_clock s" "s_fetches (goto i p s) = s_fetches s"
  "pc_of (goto i p s) j = (if j = i then p else pc_of s j)" "now_of (goto i p s) j = now_of s j" "since_of (goto i p s) j = since_of s j"
  by (simp_all add: goto_def on_thread_def)

lemma on_thread_simps [simp]:
  "s_data (on_thread i f s) = s_data s" "s_ts (on_thread i f s) = s_ts s" "s_lock (on_thread i f s) = s_lock s"
  "s_clock (on_thread i f s) = s_clock s" "s_fetches (on_thread i f s) = s_fetches s"
  "s_threads (on_thread i f s) j = (if j = i then f (s_threads s i) else s_threads s j)"
  by (simp_all add: on_thread_def)

text \<open>A key set good enough for a call: at most a day old when the call began, and fetched after the last reset.\<close>

definition good :: "jsys \<Rightarrow> nat \<Rightarrow> keyset \<Rightarrow> bool" where
  "good s i k \<longleftrightarrow> now_of s i - JWKS_TTL \<le> ks_at k \<and> since_of s i < ks_no k"

definition newest :: "jsys \<Rightarrow> keyset \<Rightarrow> bool" where
  "newest s k \<longleftrightarrow> s_ts s \<le> ks_at k \<and> 0 \<le> ks_at k \<and> ks_at k \<le> s_clock s \<and> ks_no k \<le> s_fetches s"

text \<open>What holds of a thread at a position.\<close>

definition pc_ok :: "jsys \<Rightarrow> nat \<Rightarrow> pc \<Rightarrow> bool" where
  "pc_ok s i p = (case p of
      FastStamp \<Rightarrow> s_data s \<noteq> None
    | CheckStamp \<Rightarrow> s_data s \<noteq> None
    | FastReturn \<Rightarrow> (\<exists>k. s_data s = Some k \<and> good s i k)
    | Load \<Rightarrow> (\<exists>k. s_data s = Some k \<and> good s i k)
    | StoreData k \<Rightarrow> now_of s i \<le> ks_at k \<and> newest s k \<and>
        (\<forall>j. since_of s j < ks_no k \<and> (pc_of s j = FastReturn \<longrightarrow> good s j k))
    | StoreStamp \<Rightarrow> (\<exists>k. s_data s = Some k \<and> now_of s i \<le> ks_at k \<and> (\<forall>j. since_of s j < ks_no k))
    | Leave (Inr r) \<Rightarrow> (\<exists>k. r = Some k \<and> good s i k)
    | Finished (Inr r) \<Rightarrow> (\<exists>k. r = Some k \<and> good s i k)
    | _ \<Rightarrow> True)"

definition times_ok :: "jsys \<Rightarrow> bool" where
  "times_ok s \<longleftrightarrow> s_ts s \<le> s_clock s \<and> JWKS_TTL < s_clock s \<and>
     (\<forall>j. since_of s j \<le> s_fetches s \<and> now_of s j \<le> s_clock s \<and> JWKS_TTL < now_of s j)"

definition keys_ok :: "jsys \<Rightarrow> bool" where
  "keys_ok s \<longleftrightarrow> (case s_data s of
      None \<Rightarrow> s_ts s = 0
    | Some k \<Rightarrow> newest s k \<and> (s_ts s = 0 \<or> (\<forall>j. since_of s j < ks_no k)))"

definition lock_ok :: "jsys \<Rightarrow> bool" where
  "lock_ok s \<longleftrightarrow> (\<forall>i. critical (pc_of s i) \<longleftrightarrow> s_lock s = Some i)"

definition jinv :: "jsys \<Rightarrow> bool" where
  "jinv s \<longleftrightarrow> times_ok s \<and> keys_ok s \<and> lock_ok s \<and> (\<forall>i. pc_ok s i (pc_of s i))"

lemma jinv_init: "JWKS_TTL < t \<Longrightarrow> jinv (jinit t)"
  by (simp add: jinv_def jinit_def times_ok_def keys_ok_def lock_ok_def pc_ok_def JWKS_TTL_def)

text \<open>Moving a thread changes nothing for the others, unless it arrives where a store would overtake it.\<close>

lemma goto_keeps [simp]:
  "good (goto i p s) = good s" "newest (goto i p s) = newest s" "times_ok (goto i p s) = times_ok s" "keys_ok (goto i p s) = keys_ok s"
  by (simp_all add: good_def newest_def times_ok_def keys_ok_def fun_eq_iff split: option.split)

lemma goto_pc_ok:
  assumes "pc_ok s j q" "p = FastReturn \<Longrightarrow> \<forall>k. q = StoreData k \<longrightarrow> good s i k"
  shows "pc_ok (goto i p s) j q"
  using assms by (auto simp: pc_ok_def split: pc.split sum.split)

lemma goto_lock_ok: "lock_ok s \<Longrightarrow> critical p = critical (pc_of s i) \<Longrightarrow> lock_ok (goto i p s)"
  by (simp add: lock_ok_def)

lemma goto_jinv:
  assumes "jinv s" "critical p = critical (pc_of s i)" "pc_ok s i p" "p \<noteq> FastReturn" "\<And>k. p \<noteq> StoreData k"
  shows "jinv (goto i p s)"
proof -
  have "pc_ok (goto i p s) j (pc_of (goto i p s) j)" for j
    using assms by (auto simp: jinv_def intro!: goto_pc_ok)
  with assms show ?thesis by (simp add: jinv_def goto_lock_ok)
qed

lemma lock_keeps [simp]:
  "good (s\<lparr>s_lock := l\<rparr>) = good s" "newest (s\<lparr>s_lock := l\<rparr>) = newest s" "times_ok (s\<lparr>s_lock := l\<rparr>) = times_ok s"
  "keys_ok (s\<lparr>s_lock := l\<rparr>) = keys_ok s" "pc_ok (s\<lparr>s_lock := l\<rparr>) = pc_ok s"
  by (simp_all add: good_def newest_def times_ok_def keys_ok_def pc_ok_def fun_eq_iff split: option.split pc.split sum.split)

lemma lock_jinv:
  assumes "jinv s" "pc_ok s i p" "p \<noteq> FastReturn" "\<And>k. p \<noteq> StoreData k"
    "if critical p then s_lock s = None \<and> l = Some i else s_lock s = Some i \<and> l = None"
  shows "jinv (goto i p (s\<lparr>s_lock := l\<rparr>))"
proof -
  have "pc_ok (goto i p (s\<lparr>s_lock := l\<rparr>)) j (pc_of (goto i p (s\<lparr>s_lock := l\<rparr>)) j)" for j
    using assms by (auto simp: jinv_def intro!: goto_pc_ok)
  moreover have "lock_ok (goto i p (s\<lparr>s_lock := l\<rparr>))"
    using assms(1,5) by (auto simp: jinv_def lock_ok_def split: if_splits)
  ultimately show ?thesis using assms(1) by (simp add: jinv_def)
qed

text \<open>At most one thread is between taking and releasing the lock.\<close>

lemma critical_unique: "jinv s \<Longrightarrow> critical (pc_of s i) \<Longrightarrow> critical (pc_of s j) \<Longrightarrow> j = i"
  by (auto simp: jinv_def lock_ok_def)

lemma lock_holder: "jinv s \<Longrightarrow> critical (pc_of s i) \<longleftrightarrow> s_lock s = Some i"
  by (simp add: jinv_def lock_ok_def)

lemma jinv_at: "jinv s \<Longrightarrow> pc_of s i = p \<Longrightarrow> pc_ok s i p"
  by (auto simp: jinv_def)

text \<open>Threads outside the lock mind only the data, and only on the fast path.\<close>

lemma pc_ok_quiet:
  assumes "pc_ok s j q" "\<not> critical q" "now_of s' j = now_of s j" "since_of s' j = since_of s j"
    "s_data s \<noteq> None \<Longrightarrow> s_data s' \<noteq> None"
    "q = FastReturn \<Longrightarrow> \<exists>k. s_data s' = Some k \<and> good s j k"
  shows "pc_ok s' j q"
proof -
  have "good s' j = good s j" using assms(3,4) by (simp add: good_def fun_eq_iff)
  with assms show ?thesis by (cases q) (auto simp: pc_ok_def split: sum.splits)
qed

lemma fast_data: "jinv s \<Longrightarrow> pc_of s j = FastReturn \<Longrightarrow> \<exists>k. s_data s = Some k \<and> good s j k"
  by (drule (1) jinv_at) (simp add: pc_ok_def)

text \<open>A step under the lock that keeps the times of the others and stores nothing they could not return.\<close>

lemma quiet_others:
  assumes "jinv s" "critical (pc_of s i)" "j \<noteq> i" "now_of s' j = now_of s j" "since_of s' j = since_of s j"
    "s_data s' = s_data s \<or> (\<exists>k. s_data s' = Some k \<and> (pc_of s j = FastReturn \<longrightarrow> good s j k))"
  shows "pc_ok s' j (pc_of s j)"
proof (rule pc_ok_quiet [of s, OF jinv_at [OF assms(1) refl] _ assms(4,5)])
  show "\<not> critical (pc_of s j)" using critical_unique [OF assms(1,2)] assms(3) by blast
  show "s_data s \<noteq> None \<Longrightarrow> s_data s' \<noteq> None" using assms(6) by auto
  assume "pc_of s j = FastReturn"
  with fast_data [OF assms(1)] assms(6) show "\<exists>k. s_data s' = Some k \<and> good s j k" by auto
qed

lemma times_at:
  "times_ok s \<Longrightarrow> since_of s j \<le> s_fetches s \<and> now_of s j \<le> s_clock s \<and> JWKS_TTL < now_of s j"
  by (simp add: times_ok_def)

lemma fresh_good:
  assumes "jinv s" "s_data s \<noteq> None" "now_of s i - s_ts s \<le> JWKS_TTL"
  shows "\<exists>k. s_data s = Some k \<and> good s i k"
proof -
  have "JWKS_TTL < now_of s i" using assms(1) by (simp add: jinv_def times_ok_def)
  with assms(3) have "s_ts s \<noteq> 0" by auto
  with assms show ?thesis by (auto simp: jinv_def keys_ok_def newest_def good_def)
qed

lemma fast_hit:
  assumes "jinv s" "pc_of s i = FastStamp" "now_of s i - s_ts s \<le> JWKS_TTL"
  shows "jinv (goto i FastReturn s)"
proof -
  have "s_data s \<noteq> None" using jinv_at [OF assms(1,2)] by (simp add: pc_ok_def)
  from fresh_good [OF assms(1) this assms(3)] obtain k where k: "s_data s = Some k" and g: "good s i k" by blast
  have "good s i k'" if "pc_of s j = StoreData k'" for j k'
    using jinv_at [OF assms(1) that] assms(3) by (auto simp: pc_ok_def good_def newest_def)
  then have "pc_ok (goto i FastReturn s) j (pc_of (goto i FastReturn s) j)" for j
    using assms(1) g k by (auto simp: jinv_def pc_ok_def [of _ _ FastReturn] intro!: goto_pc_ok)
  with assms(1,2) show ?thesis by (simp add: jinv_def goto_lock_ok)
qed

lemma fetched:
  assumes "jinv s" "pc_of s i = Fetch"
  shows "jinv (goto i (StoreData (Keys d (s_clock s) (Suc (s_fetches s)))) (s\<lparr>s_fetches := Suc (s_fetches s)\<rparr>))"
proof -
  let ?s = "s\<lparr>s_fetches := Suc (s_fetches s)\<rparr>" and ?k = "Keys d (s_clock s) (Suc (s_fetches s))"
  have t: "times_ok s" "keys_ok s" "lock_ok s" using assms(1) by (simp_all add: jinv_def)
  then have "times_ok ?s" "keys_ok ?s" "lock_ok (goto i (StoreData ?k) ?s)"
    using assms(2) by (auto simp: times_ok_def keys_ok_def newest_def lock_ok_def le_Suc_eq split: option.splits)
  moreover have "pc_ok ?s i (StoreData ?k)"
  proof -
    have "since_of s j < Suc (s_fetches s)" "now_of s j - JWKS_TTL \<le> s_clock s" for j
      using times_at [OF t(1), of j] by (simp_all add: JWKS_TTL_def)
    moreover have "s_ts s \<le> s_clock s" "0 \<le> s_clock s" "now_of s i \<le> s_clock s"
      using t(1) by (simp_all add: times_ok_def JWKS_TTL_def)
    ultimately show ?thesis by (simp add: pc_ok_def newest_def good_def)
  qed
  moreover have "pc_ok ?s j (pc_of s j)" if "j \<noteq> i" for j
    by (rule quiet_others [OF assms(1) _ that]) (simp_all add: assms(2))
  ultimately show ?thesis by (auto simp: jinv_def intro!: goto_pc_ok)
qed

lemma stored:
  assumes "jinv s" "pc_of s i = StoreData k"
  shows "jinv (goto i StoreStamp (s\<lparr>s_data := Some k\<rparr>))"
proof -
  let ?s = "s\<lparr>s_data := Some k\<rparr>"
  have t: "times_ok s" "lock_ok s" using assms(1) by (simp_all add: jinv_def)
  from jinv_at [OF assms] have k: "now_of s i \<le> ks_at k" "newest s k" "\<And>j. since_of s j < ks_no k"
    "\<And>j. pc_of s j = FastReturn \<Longrightarrow> good s j k" by (simp_all add: pc_ok_def)
  have "times_ok ?s" "keys_ok ?s" "lock_ok (goto i StoreStamp ?s)" "pc_ok ?s i StoreStamp"
    using t k assms(2) by (auto simp: times_ok_def keys_ok_def newest_def lock_ok_def pc_ok_def)
  moreover have "pc_ok ?s j (pc_of s j)" if "j \<noteq> i" for j
    by (rule quiet_others [OF assms(1) _ that]) (simp_all add: assms(2) k(4))
  ultimately show ?thesis by (auto simp: jinv_def intro!: goto_pc_ok)
qed

lemma stamped:
  assumes "jinv s" "pc_of s i = StoreStamp"
  shows "jinv (goto i Load (s\<lparr>s_ts := now_of s i\<rparr>))"
proof -
  let ?s = "s\<lparr>s_ts := now_of s i\<rparr>"
  have t: "times_ok s" "keys_ok s" "lock_ok s" using assms(1) by (simp_all add: jinv_def)
  from jinv_at [OF assms] obtain k where k: "s_data s = Some k" "now_of s i \<le> ks_at k" "\<And>j. since_of s j < ks_no k"
    by (auto simp: pc_ok_def)
  have "times_ok ?s" "keys_ok ?s" "lock_ok (goto i Load ?s)"
    using t k assms(2) by (auto simp: times_ok_def keys_ok_def newest_def lock_ok_def)
  moreover have "pc_ok ?s i Load"
  proof -
    have "now_of s i - JWKS_TTL \<le> ks_at k" using k(2) by (simp add: JWKS_TTL_def)
    with k show ?thesis by (simp add: pc_ok_def good_def)
  qed
  moreover have "pc_ok ?s j (pc_of s j)" if "j \<noteq> i" for j
    by (rule quiet_others [OF assms(1) _ that]) (simp_all add: assms(2) that)
  ultimately show ?thesis by (auto simp: jinv_def intro!: goto_pc_ok)
qed

text \<open>Changes of the labels and times of one thread that is not in the middle of a call.\<close>

lemma reset:
  assumes "jinv s" "pc_of s i = ResetStamp"
  shows "jinv (on_thread i (\<lambda>t. t\<lparr>th_pc := ResetLeave, th_since := s_fetches s\<rparr>) (s\<lparr>s_ts := 0\<rparr>))" (is "jinv ?s")
proof -
  have t: "times_ok s" "keys_ok s" "lock_ok s" using assms(1) by (simp_all add: jinv_def)
  then have "times_ok ?s" "keys_ok ?s" "lock_ok ?s"
    using assms(2) by (auto simp: times_ok_def keys_ok_def newest_def lock_ok_def JWKS_TTL_def split: option.splits)
  moreover have "pc_ok ?s j (pc_of s j)" if "j \<noteq> i" for j
    by (rule quiet_others [OF assms(1) _ that]) (simp_all add: assms(2) that)
  ultimately show ?thesis by (auto simp: jinv_def pc_ok_def [of _ _ ResetLeave])
qed

lemma begun:
  assumes "jinv s" "\<not> critical (pc_of s i)" "now = s_clock s \<and> n = since_of s i \<or> now = now_of s i \<and> n = 0"
    and p: "p = Enter \<or> p = FastData"
  shows "jinv (on_thread i (\<lambda>t. t\<lparr>th_pc := p, th_now := now, th_since := n\<rparr>) s)" (is "jinv ?s")
proof -
  have t: "times_ok s" "keys_ok s" "lock_ok s" using assms(1) by (simp_all add: jinv_def)
  have n: "n \<le> since_of s i" using assms(3) by auto
  then have "times_ok ?s" "keys_ok ?s" "lock_ok ?s"
    using t assms(2,3) p by (auto simp: times_ok_def keys_ok_def newest_def lock_ok_def intro: le_less_trans split: option.splits)
  moreover have "pc_ok ?s j (pc_of s j)" if "j \<noteq> i" for j
  proof -
    have g: "good ?s j = good s j" "newest ?s = newest s" using that by (simp_all add: good_def newest_def fun_eq_iff)
    from jinv_at [OF assms(1) refl, of j] n p that show ?thesis
      by (auto simp: pc_ok_def g good_def [of ?s] good_def [of s] intro: le_less_trans split: pc.splits sum.splits)
  qed
  ultimately show ?thesis using p by (auto simp: jinv_def pc_ok_def [of _ _ Enter] pc_ok_def [of _ _ FastData])
qed

lemma act_locked:
  assumes "act i answer s = Some s'" "jinv s" "critical (pc_of s i)"
  shows "jinv s'"
proof (cases "pc_of s i")
  case CheckStamp
  with jinv_at [OF assms(2) this] fresh_good [OF assms(2), of i] assms show ?thesis
    by (auto simp: act_def Let_def pc_ok_def intro!: goto_jinv split: if_splits)
next
  case Fetch
  show ?thesis
  proof (cases answer)
    case (Inl e)
    with Fetch assms show ?thesis by (auto simp: act_def pc_ok_def intro!: goto_jinv)
  next
    case (Inr d)
    with Fetch assms fetched [OF assms(2) Fetch] show ?thesis by (auto simp: act_def)
  qed
next
  case (StoreData k)
  with assms stored [OF assms(2) this] show ?thesis by (simp add: act_def)
next
  case StoreStamp
  with assms stamped [OF assms(2) this] show ?thesis by (simp add: act_def Let_def)
next
  case Load
  with assms jinv_at [OF assms(2) Load] show ?thesis by (auto simp: act_def pc_ok_def intro!: goto_jinv)
next
  case (Leave r)
  then have "pc_ok s i (Finished r)" using jinv_at [OF assms(2) Leave] by (simp add: pc_ok_def)
  then show ?thesis using Leave assms lock_holder [OF assms(2), of i] by (auto simp: act_def intro!: lock_jinv)
next
  case ResetStamp
  with assms reset [OF assms(2) this] show ?thesis by (simp add: act_def)
next
  case ResetLeave
  then show ?thesis using assms lock_holder [OF assms(2), of i] by (auto simp: act_def pc_ok_def intro!: lock_jinv)
qed (use assms in \<open>auto simp: act_def pc_ok_def split: if_splits intro!: goto_jinv\<close>)

lemma act_jinv:
  assumes "act i answer s = Some s'" "jinv s"
  shows "jinv s'"
proof (cases "pc_of s i")
  case Enter
  with assms show ?thesis using begun [OF assms(2), of i "s_clock s" "since_of s i" FastData]
    by (auto simp: act_def on_thread_def)
next
  case FastStamp
  show ?thesis
  proof (cases "now_of s i - s_ts s \<le> JWKS_TTL")
    case True
    with FastStamp assms(1) fast_hit [OF assms(2) FastStamp] show ?thesis by (auto simp: act_def)
  next
    case False
    with FastStamp assms show ?thesis by (auto simp: act_def pc_ok_def intro!: goto_jinv)
  qed
next
  case FastReturn
  with assms show ?thesis using fast_data [OF assms(2) FastReturn]
    by (auto simp: act_def pc_ok_def intro!: goto_jinv)
next
  case FastData
  with assms show ?thesis by (auto simp: act_def pc_ok_def split: if_splits intro!: goto_jinv)
next
  case Acquire
  with assms show ?thesis by (auto simp: act_def pc_ok_def split: if_splits intro!: lock_jinv)
next
  case ResetAcquire
  with assms show ?thesis by (auto simp: act_def pc_ok_def split: if_splits intro!: lock_jinv)
next
  case (Finished r)
  with assms show ?thesis by (simp add: act_def)
qed (use act_locked [OF assms] in simp_all)

lemma jstep_jinv: "jstep s s' \<Longrightarrow> jinv s \<Longrightarrow> jinv s'"
proof (induction rule: jstep.induct)
  case (Act i answer s s')
  then show ?case by (rule act_jinv)
next
  case (Call s i r)
  then show ?case using begun [of s i "now_of s i" 0 Enter] by (simp add: on_thread_def)
next
  case (Refresh s i k)
  then show ?case by (auto simp: pc_ok_def intro!: goto_jinv)
next
  case (Tick s t)
  have "times_ok (s\<lparr>s_clock := t\<rparr>)"
    using Tick unfolding jinv_def times_ok_def by (auto intro: order_trans less_le_trans)
  moreover have "keys_ok (s\<lparr>s_clock := t\<rparr>)" "lock_ok (s\<lparr>s_clock := t\<rparr>)"
    using Tick by (auto simp: jinv_def keys_ok_def newest_def lock_ok_def split: option.splits)
  moreover have "pc_ok (s\<lparr>s_clock := t\<rparr>) j (pc_of s j)" for j
    using jinv_at [OF Tick(2) refl, of j] Tick(1) by (auto simp: pc_ok_def good_def newest_def split: pc.splits sum.splits)
  ultimately show ?case by (simp add: jinv_def)
qed

lemma reachable_jinv: "jstep\<^sup>*\<^sup>* (jinit t) s \<Longrightarrow> JWKS_TTL < t \<Longrightarrow> jinv s"
  by (induction rule: rtranclp_induct) (auto intro: jinv_init jstep_jinv)

section \<open>Schedules\<close>

text \<open>Running threads in a given order, each step with the answer of the key server.\<close>

fun run_schedule :: "(nat \<times> pyval res) list \<Rightarrow> jsys \<Rightarrow> jsys" where
  "run_schedule [] s = s"
| "run_schedule ((i, answer) # sched) s = (case act i answer s of Some s' \<Rightarrow> run_schedule sched s' | None \<Rightarrow> run_schedule sched s)"

lemma run_schedule_reaches: "jstep\<^sup>*\<^sup>* s (run_schedule sched s)"
  by (induction sched s rule: run_schedule.induct) (auto split: option.split intro: converse_rtranclp_into_rtranclp Act)

section \<open>Properties\<close>

text \<open>
  C18.  The key cache under threads.  However any number of threads interleave, whatever the key server
  answers and however much time passes between steps: a call of \<^verbatim>\<open>get_jwks\<close> that ends normally returns a
  key set (never the empty cache) that was at most 24 hours old when the call began, and in a call
  that follows the reset for an unknown key identifier, one that was fetched after that reset, so no
  concurrent update makes a forced refresh ineffective.
\<close>

theorem jwks_threads_fresh:
  assumes "jstep\<^sup>*\<^sup>* (jinit t) s" and "JWKS_TTL < t" and "th_pc (s_threads s i) = Finished (Inr r)"
  shows "\<exists>k. r = Some k \<and> th_now (s_threads s i) - JWKS_TTL \<le> ks_at k \<and> th_since (s_threads s i) < ks_no k"
  using jinv_at [OF reachable_jinv [OF assms(1,2)] assms(3)] by (simp add: pc_ok_def good_def)

text \<open>Two threads that both miss: one fetches while the other waits for the lock and then uses the result.\<close>

definition race :: "(nat \<times> pyval res) list" where
  "race = map (\<lambda>i. (i, Inr (PDict []))) [0, 1, 0, 1, 0, 1, 0, 0, 0, 0, 0, 0, 1, 1, 1, 1, 1]"

theorem jwks_threads_fresh_witness:
  "\<exists>k. Some (Keys (PDict []) 90000 1) = Some k \<and>
    th_now (s_threads (run_schedule race (jinit 90000)) 1) - JWKS_TTL \<le> ks_at k \<and>
    th_since (s_threads (run_schedule race (jinit 90000)) 1) < ks_no k"
proof (rule jwks_threads_fresh)
  show "jstep\<^sup>*\<^sup>* (jinit 90000) (run_schedule race (jinit 90000))" by (rule run_schedule_reaches)
  show "th_pc (s_threads (run_schedule race (jinit 90000)) 1) = Finished (Inr (Some (Keys (PDict []) 90000 1)))"
    by (simp add: race_def act_def jinit_def JWKS_TTL_def)
qed (simp add: JWKS_TTL_def)

text \<open>
  A thread that runs alone through \<^verbatim>\<open>get_jwks\<close> does what the sequential definition says: same result,
  same cache, same timestamp, and the lock is free again.
\<close>

theorem solo_run_get_jwks:
  assumes "th_pc (s_threads s i) = Enter" and "s_lock s = None" and "s_clock s = w_clock w (w_tick w)"
    and "map_option ks_data (s_data s) = jwks_data w" and "s_ts s = jwks_timestamp w"
  shows "\<exists>r. let s' = run_schedule (replicate 11 (i, fetched_jwks (w_tick_update Suc w))) s in
    th_pc (s_threads s' i) = Finished r \<and>
    (case fst (get_jwks w) of Inl e \<Rightarrow> r = Inl e | Inr d \<Rightarrow> \<exists>k. r = Inr (Some k) \<and> ks_data k = d) \<and>
    map_option ks_data (s_data s') = jwks_data (snd (get_jwks w)) \<and> s_ts s' = jwks_timestamp (snd (get_jwks w)) \<and> s_lock s' = None"
proof -
  let ?now = "w_clock w (w_tick w)" and ?w1 = "w_tick_update Suc w"
  let ?w2 = "w_events_update (\<lambda>es. es @ [HttpGet ITA_JWKS_URL]) (w_tick_update Suc ?w1)"
  have run: "get_jwks w = (if jwks_fresh ?now w then (Inr (the (jwks_data w)), ?w1) else
      (case fetched_jwks ?w1 of Inl e \<Rightarrow> (Inl e, ?w2) | Inr d \<Rightarrow> (Inr d, ?w2\<lparr>jwks_data := Some d, jwks_timestamp := ?now\<rparr>)))"
  proof -
    have "wp get_jwks (\<lambda>d w'. get_jwks w = (Inr d, w')) (\<lambda>e w'. get_jwks w = (Inl e, w')) w"
      by (simp add: wp_def split: prod.split sum.split)
    then show ?thesis by (auto simp: wp_get_jwks Let_def split: if_splits sum.splits)
  qed
  have eleven: "replicate 11 x = [x, x, x, x, x, x, x, x, x, x, x]" for x :: "nat \<times> pyval res"
    by (simp add: eval_nat_numeral)
  consider (None) "s_data s = None" | (Some) k where "s_data s = Some k" by blast
  then show ?thesis
  proof cases
    case None
    with assms show ?thesis unfolding eleven
      by (cases "fetched_jwks ?w1") (auto simp: act_def run jwks_fresh_def)
  next
    case (Some k)
    with assms(4) have d: "jwks_data w = Some (ks_data k)" by simp
    with Some assms show ?thesis unfolding eleven
      by (cases "fetched_jwks ?w1") (auto simp: act_def run jwks_fresh_def)
  qed
qed

theorem solo_run_get_jwks_witness:
  "\<exists>r. let s' = run_schedule (replicate 11 (0, fetched_jwks (w_tick_update Suc null_world))) (jinit (w_clock null_world (w_tick null_world))) in
    th_pc (s_threads s' 0) = Finished r \<and>
    (case fst (get_jwks null_world) of Inl e \<Rightarrow> r = Inl e | Inr d \<Rightarrow> \<exists>k. r = Inr (Some k) \<and> ks_data k = d) \<and>
    map_option ks_data (s_data s') = jwks_data (snd (get_jwks null_world)) \<and>
    s_ts s' = jwks_timestamp (snd (get_jwks null_world)) \<and> s_lock s' = None"
  by (rule solo_run_get_jwks) (simp_all add: jinit_def null_world_def)

end
