(* ===== verification/Client.thy ===== *)
theory Client
  imports ItaVerifier
begin

text \<open>
  \<^verbatim>\<open>agent/client.py\<close>: the attested gRPC channel.  \<open>connect\<close> fetches the server's certificate over a raw
  TLS connection, extracts the token, runs the verifier on both, and only then opens a gRPC
  channel that trusts exactly that certificate.  \<open>connector\<close> is the contract its callers rely on:
  a connection attempt adds at most one channel, an accepted one, and closes none.
\<close>

section \<open>Operations\<close>

record ztab_channel =
  zc_host :: pyval
  zc_port :: int
  zc_verifier :: verifier
  zc_grpc :: "nat option"
  zc_token :: "string option"
  zc_cert :: "bytes option"

definition fetch_server_cert_pem :: "ext \<Rightarrow> pyval \<Rightarrow> int \<Rightarrow> ('a world_scheme, bytes) io" where
  "fetch_server_cert_pem ext host port =
     io_bind (tls_peer_cert host port) (\<lambda>der_cert.
     case der_cert of
       None \<Rightarrow> io_raise (Exn RuntimeError ''Server did not present a certificate.'')
     | Some der \<Rightarrow> io_lift (der_to_pem ext der))"

definition noop_verifier :: "string \<Rightarrow> bytes \<Rightarrow> ('a world_scheme, bool) io" where
  "noop_verifier token cert_pem =
     io_bind (env_get ''ZTAB_TEST_ENVIRONMENT'') (\<lambda>te.
     if te \<noteq> Some ''1''
     then io_raise (Exn RuntimeError (''noop_verifier is strictly forbidden outside test environments. ''
            @ ''Set ZTAB_TEST_ENVIRONMENT=1 to allow in test harnesses, or use ''
            @ ''create_ita_verifier() for production.''))
     else
       io_bind (py_print (replicate 60 (CHR ''=''))) (\<lambda>_.
       io_bind (py_print ''ATTESTATION TOKEN (no-op verifier, not validated):'') (\<lambda>_.
       io_bind (py_print (replicate 60 (CHR ''-''))) (\<lambda>_.
       io_bind (py_print token) (\<lambda>_.
       io_bind (py_print (replicate 60 (CHR ''=''))) (\<lambda>_.
       io_return True))))))"

text \<open>Calling a verifier; its return is recorded in the trace.\<close>

definition run_verifier :: "ext \<Rightarrow> verifier \<Rightarrow> string \<Rightarrow> bytes \<Rightarrow> ('a world_scheme, bool) io" where
  "run_verifier ext v token cert_pem =
     io_bind (case v of
                noop_verifier_fn \<Rightarrow> noop_verifier token cert_pem
              | ita_verifier_fn p \<Rightarrow> ita_verifier ext p token cert_pem) (\<lambda>ok.
     io_bind (emit (VerifierReturned v token cert_pem ok)) (\<lambda>_. io_return ok))"

definition ZtabChannel :: "pyval \<Rightarrow> int \<Rightarrow> verifier option \<Rightarrow> ztab_channel res" where
  "ZtabChannel host port verifier = (case verifier of
      None \<Rightarrow> Inl (Exn ValueError (''A verifier is required. Use create_ita_verifier() for ''
                @ ''production, or noop_verifier with ZTAB_TEST_ENVIRONMENT=1 for local testing.''))
    | Some v \<Rightarrow> Inr \<lparr>zc_host = host, zc_port = port, zc_verifier = v,
                       zc_grpc = None, zc_token = None, zc_cert = None\<rparr>)"

text \<open>The address \<^verbatim>\<open>f"{self.host}:{self.port}"\<close>.\<close>

definition zc_target :: "ztab_channel \<Rightarrow> string" where
  "zc_target self = py_str (zc_host self) @ '':'' @ int_str (zc_port self)"

text \<open>Steps 1 to 3 of \<^verbatim>\<open>connect\<close>: the token and the certificate the verifier accepted.\<close>

definition attest_server :: "ext \<Rightarrow> ztab_channel \<Rightarrow> ('a world_scheme, string \<times> bytes) io" where
  "attest_server ext self =
     io_bind (py_print (''Fetching server certificate from '' @ zc_target self @ ''...'')) (\<lambda>_.
     io_bind (fetch_server_cert_pem ext (zc_host self) (zc_port self)) (\<lambda>cert_pem.
     io_bind (py_print (''Certificate received ('' @ nat_str (length cert_pem) @ '' bytes PEM).'')) (\<lambda>_.
     io_bind (io_lift (extract_attestation_token ext cert_pem)) (\<lambda>tok.
     case tok of
       None \<Rightarrow> io_raise (Exn RuntimeError (''Server certificate does not contain an attestation extension (OID ''
                 @ ATTESTATION_OID @ '').''))
     | Some token \<Rightarrow>
         io_bind (run_verifier ext (zc_verifier self) token cert_pem) (\<lambda>ok.
         if \<not> ok then io_raise (Exn RuntimeError ''Attestation verification failed.'')
         else
           io_bind (py_print ''Attestation verified (or accepted by no-op verifier).'') (\<lambda>_.
           io_return (token, cert_pem)))))))"

text \<open>The object with its fields filled in; after an exception no caller keeps the object.\<close>

definition connect :: "ext \<Rightarrow> ztab_channel \<Rightarrow> ('a world_scheme, ztab_channel) io" where
  "connect ext self =
     io_bind (attest_server ext self) (\<lambda>(token, cert_pem).
     io_bind (secure_channel (zc_target self) cert_pem ''ztab-tee'') (\<lambda>c.
     io_bind (py_print (''gRPC channel established to '' @ zc_target self @ '' (override target to ''
                @ quoted ''ztab-tee'' @ '').'')) (\<lambda>_.
     io_return (self\<lparr>zc_grpc := Some c, zc_token := Some token, zc_cert := Some cert_pem\<rparr>))))"

definition zc_close :: "ztab_channel \<Rightarrow> ('a world_scheme, ztab_channel) io" where
  "zc_close self = (case zc_grpc self of
      None \<Rightarrow> io_return self
    | Some c \<Rightarrow> io_bind (close_channel c) (\<lambda>_. io_return (self\<lparr>zc_grpc := None\<rparr>)))"

text \<open>\<^verbatim>\<open>with ZtabChannel(...) as ch: body\<close>.\<close>

definition zc_with :: "ext \<Rightarrow> ztab_channel \<Rightarrow> (ztab_channel \<Rightarrow> ('a world_scheme, 'b) io) \<Rightarrow> ('a world_scheme, 'b) io" where
  "zc_with ext self body =
     io_bind (connect ext self) (\<lambda>ch.
     io_bind (io_catch (body ch) (\<lambda>e. io_bind (zc_close ch) (\<lambda>_. io_raise e))) (\<lambda>x.
     io_bind (zc_close ch) (\<lambda>_. io_return x)))"

section \<open>Accepted channels\<close>

text \<open>
  What a verifier's True stands for: the no-op verifier answers in a test environment only; the ITA
  verifier has decoded the token under a published key and found its claims in order for this
  certificate.
\<close>

definition trusted_by :: "ext \<Rightarrow> env \<Rightarrow> verifier \<Rightarrow> string \<Rightarrow> bytes \<Rightarrow> bool" where
  "trusted_by ext env v token cert = (case v of
      noop_verifier_fn \<Rightarrow> is_test_env env
    | ita_verifier_fn p \<Rightarrow>
        (\<exists>jwks claims. token_checked ext p token jwks claims \<and> verify_claims ext p claims cert = Inr True))"

text \<open>
  A certificate is accepted in a trace when the verifier returned True for exactly this certificate
  and the token it carries.
\<close>

definition accepted_by :: "ext \<Rightarrow> verifier \<Rightarrow> env \<Rightarrow> event list \<Rightarrow> bytes \<Rightarrow> bool" where
  "accepted_by ext v env es cert \<longleftrightarrow>
     (\<exists>token. extract_attestation_token ext cert = Inr (Some token) \<and> VerifierReturned v token cert True \<in> set es \<and>
        trusted_by ext env v token cert)"

text \<open>
  The effects a connection attempt may have besides: output, time, the key cache, and the trace, which
  gets no RPC.
\<close>

fun is_rpc :: "event \<Rightarrow> bool" where
  "is_rpc (RpcSent c req md) = True"
| "is_rpc _ = False"

definition quiet :: "'a world_scheme \<Rightarrow> 'a world_scheme \<Rightarrow> bool" where
  "quiet w w' \<longleftrightarrow> w_tick w \<le> w_tick w' \<and>
     w'\<lparr>w_tick := w_tick w, w_events := w_events w, w_out := w_out w, w_chans := w_chans w,
        jwks_data := jwks_data w, jwks_timestamp := jwks_timestamp w\<rparr> = w \<and>
     (\<exists>es. w_events w' = w_events w @ es \<and> (\<forall>e \<in> set es. \<not> is_rpc e)) \<and>
     (\<exists>ls. w_out w' = w_out w @ ls \<and> fst ` set ls \<subseteq> {w_sys_stdout w})"

lemma quiet_refl [simp]: "quiet w w"
  by (simp add: quiet_def)

lemma quiet_fields:
  assumes "quiet w w'"
  shows "w_env w' = w_env w" "w_clock w' = w_clock w" "w_sys_stdout w' = w_sys_stdout w" "world.more w' = world.more w"
proof -
  from assms have e: "w'\<lparr>w_tick := w_tick w, w_events := w_events w, w_out := w_out w, w_chans := w_chans w,
        jwks_data := jwks_data w, jwks_timestamp := jwks_timestamp w\<rparr> = w"
    by (simp add: quiet_def)
  show "w_env w' = w_env w" "w_clock w' = w_clock w" "w_sys_stdout w' = w_sys_stdout w" "world.more w' = world.more w"
    using arg_cong [OF e, of w_env] arg_cong [OF e, of w_clock] arg_cong [OF e, of w_sys_stdout]
      arg_cong [OF e, of world.more]
    by simp_all
qed

lemma quiet_tick: "quiet w w' \<Longrightarrow> quiet w (w_tick_update Suc w')"
  by (auto simp: quiet_def comp_def)

lemma quiet_emit: "\<not> is_rpc e \<Longrightarrow> quiet w w' \<Longrightarrow> quiet w (w_events_update (\<lambda>es. es @ [e]) w')"
  by (auto simp: quiet_def comp_def)

lemma quiet_print:
  assumes "quiet w w'"
  shows "quiet w (w_out_update (\<lambda>ls. ls @ [(w_sys_stdout w', s)]) w')"
proof -
  from assms obtain ls where "w_out w' = w_out w @ ls" "fst ` set ls \<subseteq> {w_sys_stdout w}"
    by (auto simp: quiet_def)
  with assms quiet_fields(3) [OF assms] show ?thesis
    by (auto simp: quiet_def comp_def intro!: exI [of _ "ls @ [(w_sys_stdout w, s)]"])
qed

lemma quiet_chans: "quiet w w' \<Longrightarrow> quiet w (w_chans_update f w')"
  by (auto simp: quiet_def comp_def)

lemma quiet_trans:
  assumes "quiet w w'" "quiet w' w''"
  shows "quiet w w''"
proof -
  from assms obtain es es' ls ls' where
    "w_events w' = w_events w @ es" "w_events w'' = w_events w' @ es'"
    "\<forall>e \<in> set es. \<not> is_rpc e" "\<forall>e \<in> set es'. \<not> is_rpc e"
    "w_out w' = w_out w @ ls" "w_out w'' = w_out w' @ ls'"
    "fst ` set ls \<subseteq> {w_sys_stdout w}" "fst ` set ls' \<subseteq> {w_sys_stdout w}"
    using quiet_fields(3) [OF assms(1)] by (auto simp: quiet_def)
  moreover have "w''\<lparr>w_tick := w_tick w, w_events := w_events w, w_out := w_out w, w_chans := w_chans w,
        jwks_data := jwks_data w, jwks_timestamp := jwks_timestamp w\<rparr> = w"
  proof -
    from assms(2) have "w''\<lparr>w_tick := w_tick w', w_events := w_events w', w_out := w_out w', w_chans := w_chans w',
        jwks_data := jwks_data w', jwks_timestamp := jwks_timestamp w'\<rparr> = w'"
      by (simp add: quiet_def)
    from arg_cong [OF this, of "\<lambda>x. x\<lparr>w_tick := w_tick w, w_events := w_events w, w_out := w_out w, w_chans := w_chans w,
        jwks_data := jwks_data w, jwks_timestamp := jwks_timestamp w\<rparr>"] assms(1)
    show ?thesis by (simp add: quiet_def)
  qed
  moreover have "w_tick w \<le> w_tick w''" using assms by (auto simp: quiet_def)
  ultimately show ?thesis unfolding quiet_def by (auto intro!: exI [of _ "ls @ ls'"] exI [of _ "es @ es'"])
qed

lemma key_traffic_quiet: "key_traffic n w w' \<Longrightarrow> quiet w w' \<and> w_chans w' = w_chans w"
proof
  assume k: "key_traffic n w w'"
  then have e: "w'\<lparr>w_tick := w_tick w, w_events := w_events w, jwks_data := jwks_data w, jwks_timestamp := jwks_timestamp w\<rparr> = w"
    by (simp add: key_traffic_def)
  show c: "w_chans w' = w_chans w" using arg_cong [OF e, of w_chans] by simp
  have o: "w_out w' = w_out w" using arg_cong [OF e, of w_out] by simp
  have "w'\<lparr>w_tick := w_tick w, w_events := w_events w, w_out := w_out w, w_chans := w_chans w,
        jwks_data := jwks_data w, jwks_timestamp := jwks_timestamp w\<rparr> = w"
    using e by (cases w; cases w') simp
  with o k show "quiet w w'" by (auto simp: quiet_def key_traffic_def) (use is_rpc.simps in blast)
qed

lemmas quiet_intros = quiet_tick quiet_emit quiet_print quiet_chans

section \<open>The contract of a connection\<close>

locale connector =
  fixes open_conn :: "'conf \<Rightarrow> ('a world_scheme, 'h) io"
    and chan :: "'h \<Rightarrow> nat"
    and accepts :: "'conf \<Rightarrow> env \<Rightarrow> event list \<Rightarrow> bytes \<Rightarrow> bool"
  assumes open_effect: "wp (open_conn cf)
      (\<lambda>h w'. quiet w w' \<and> chan h = length (w_chans w) \<and>
         (\<exists>gc. w_chans w' = w_chans w @ [gc] \<and> gc_open gc \<and> accepts cf (w_env w') (w_events w') (gc_root gc)))
      (\<lambda>_ w'. quiet w w' \<and> w_chans w' = w_chans w) w"
    and accepts_mono: "accepts cf env es cert \<Longrightarrow> accepts cf env (es @ es') cert"
begin

text \<open>Every channel of the process was accepted under some configuration.\<close>

definition only_accepted :: "'a world_scheme \<Rightarrow> bool" where
  "only_accepted w \<longleftrightarrow> (\<forall>gc \<in> set (w_chans w). \<exists>cf. accepts cf (w_env w) (w_events w) (gc_root gc))"

lemma quiet_only_accepted:
  assumes "quiet w w'" "only_accepted w" "gc \<in> set (w_chans w)"
  shows "\<exists>cf. accepts cf (w_env w') (w_events w') (gc_root gc)"
proof -
  from assms obtain es cf where "w_events w' = w_events w @ es" "accepts cf (w_env w) (w_events w) (gc_root gc)"
    by (auto simp: quiet_def only_accepted_def)
  then show ?thesis using accepts_mono quiet_fields(1) [OF assms(1)] by fastforce
qed

lemma open_keeps_accepted: "keeps only_accepted (open_conn cf)"
proof (subst keeps_wp, intro allI impI)
  fix w :: "'a world_scheme"
  assume w: "only_accepted w"
  have same: "only_accepted w'" if "quiet w w'" "w_chans w' = w_chans w" for w'
    using quiet_only_accepted [OF that(1) w] that(2) by (simp add: only_accepted_def)
  have more: "only_accepted w'"
    if "quiet w w'" "w_chans w' = w_chans w @ [gc]" "accepts cf (w_env w') (w_events w') (gc_root gc)" for w' gc
    using quiet_only_accepted [OF that(1) w] that(2,3) by (auto simp: only_accepted_def)
  show "wp (open_conn cf) (\<lambda>_. only_accepted) (\<lambda>_. only_accepted) w"
    by (rule wp_mono [OF open_effect [of cf w]]) (use same more in blast)+
qed

text \<open>The channel of the handle is open and accepted; the channels before it are as they were.\<close>

lemma open_result:
  assumes "open_conn cf w = (Inr h, w')"
  shows "\<exists>gc. w_chans w' = w_chans w @ [gc] \<and> chan h = length (w_chans w) \<and> gc_open gc \<and>
    accepts cf (w_env w') (w_events w') (gc_root gc)"
  using wpD [OF open_effect assms] by blast

lemma open_fails:
  assumes "open_conn cf w = (Inl e, w')"
  shows "w_chans w' = w_chans w"
  using wpD_exn [OF open_effect assms] by blast

end

lemma run_verifier_effect:
  "wp (run_verifier ext v token cert)
     (\<lambda>ok w'. quiet w w' \<and> w_chans w' = w_chans w \<and> VerifierReturned v token cert ok \<in> set (w_events w') \<and>
        (ok \<longrightarrow> trusted_by ext (w_env w) v token cert))
     (\<lambda>_ w'. quiet w w' \<and> w_chans w' = w_chans w) w"
proof (cases v)
  case noop_verifier_fn
  show ?thesis
    unfolding run_verifier_def noop_verifier_def noop_verifier_fn verifier.case
    by (simp only: wp_simps split: if_split)
      (intro conjI impI quiet_intros quiet_refl; simp add: trusted_by_def is_test_env_def)
next
  case (ita_verifier_fn p)
  have "wp (ita_verifier ext p token cert)
      (\<lambda>ok w'. quiet w w' \<and> w_chans w' = w_chans w \<and> (ok \<longrightarrow> trusted_by ext (w_env w) v token cert))
      (\<lambda>_ w'. quiet w w' \<and> w_chans w' = w_chans w) w"
    by (rule wp_mono [OF wp_conj [OF ita_verifier_traffic ita_verifier_checked]])
      (auto simp: trusted_by_def ita_verifier_fn dest: key_traffic_quiet)
  then show ?thesis
    unfolding run_verifier_def ita_verifier_fn verifier.case wp_bind
    by (rule wp_mono) (auto simp: wp_simps intro: quiet_emit)
qed

lemma run_verifier_from:
  assumes "quiet w w1" "w_chans w1 = w_chans w"
  shows "wp (run_verifier ext v token cert)
     (\<lambda>ok w'. quiet w w' \<and> w_chans w' = w_chans w \<and> VerifierReturned v token cert ok \<in> set (w_events w') \<and>
        (ok \<longrightarrow> trusted_by ext (w_env w) v token cert))
     (\<lambda>_ w'. quiet w w' \<and> w_chans w' = w_chans w) w1"
  using quiet_fields(1) [OF assms(1)]
  by (intro wp_mono [OF run_verifier_effect]) (use assms quiet_trans in auto)

text \<open>What a connection yields: the object, and the new channel it holds.\<close>

definition connected :: "ext \<Rightarrow> ztab_channel \<Rightarrow> 'a world_scheme \<Rightarrow> ztab_channel \<Rightarrow> 'a world_scheme \<Rightarrow> bool" where
  "connected ext self w ch w' \<longleftrightarrow>
     (\<exists>token cert. extract_attestation_token ext cert = Inr (Some token) \<and>
        VerifierReturned (zc_verifier self) token cert True \<in> set (w_events w') \<and>
        trusted_by ext (w_env w') (zc_verifier self) token cert \<and>
        ch = self\<lparr>zc_grpc := Some (length (w_chans w)), zc_token := Some token, zc_cert := Some cert\<rparr> \<and>
        w_chans w' = w_chans w @ [\<lparr>gc_target = zc_target self,
                                     gc_root = cert, gc_override = ''ztab-tee'', gc_open = True\<rparr>])"

lemma attest_server_effect:
  "wp (attest_server ext self)
     (\<lambda>(token, cert) w'. quiet w w' \<and> w_chans w' = w_chans w \<and> extract_attestation_token ext cert = Inr (Some token) \<and>
        VerifierReturned (zc_verifier self) token cert True \<in> set (w_events w') \<and>
        trusted_by ext (w_env w) (zc_verifier self) token cert)
     (\<lambda>_ w'. quiet w w' \<and> w_chans w' = w_chans w) w"
  (is "wp _ ?Q ?E w")
proof -
  have verified: "wp (run_verifier ext (zc_verifier self) token cert) (\<lambda>ok. wp (if \<not> ok then io_raise e else
      io_bind (py_print s) (\<lambda>_. io_return (token, cert))) ?Q ?E) ?E w1"
    if "quiet w w1" "w_chans w1 = w_chans w" "extract_attestation_token ext cert = Inr (Some token)" for w1 token cert e s
    by (rule wp_mono [OF run_verifier_from [OF that(1,2)]]) (auto simp: wp_simps that(3) quiet_print)
  have extracted: "wp (io_bind (io_lift (extract_attestation_token ext cert)) (\<lambda>tok. case tok of None \<Rightarrow> io_raise e'
      | Some token \<Rightarrow> io_bind (run_verifier ext (zc_verifier self) token cert) (\<lambda>ok. if \<not> ok then io_raise e else
      io_bind (py_print s) (\<lambda>_. io_return (token, cert))))) ?Q ?E w1"
    if "quiet w w1" "w_chans w1 = w_chans w" for w1 cert e e' s
    using verified [OF that] that by (auto simp only: wp_bind wp_lift wp_raise split: sum.split option.split)
  let ?w1 = "w_out_update (\<lambda>ls. ls @ [(w_sys_stdout w, ''Fetching server certificate from '' @ zc_target self @ ''...'')]) w"
  have fetched: "wp (fetch_server_cert_pem ext (zc_host self) (zc_port self))
      (\<lambda>_ w1. quiet w w1 \<and> w_chans w1 = w_chans w) ?E ?w1"
    unfolding fetch_server_cert_pem_def wp_bind wp_tls_peer_cert Let_def
    by (auto simp only: wp_lift wp_raise split: sum.split option.split intro!: quiet_emit quiet_tick quiet_print [OF quiet_refl])
      simp_all
  show ?thesis
    unfolding attest_server_def wp_bind [of "py_print _"] wp_bind [of "fetch_server_cert_pem _ _ _"] wp_py_print
    by (rule wp_mono [OF fetched]) (auto simp only: intro!: extracted quiet_print, simp)
qed

lemma connect_effect:
  "wp (connect ext self) (\<lambda>ch w'. quiet w w' \<and> connected ext self w ch w')
     (\<lambda>_ w'. quiet w w' \<and> w_chans w' = w_chans w) w"
  unfolding connect_def wp_bind [of "attest_server ext self"]
proof (rule wp_mono [OF attest_server_effect], goal_cases)
  case (1 tc w1)
  obtain token cert where tc: "tc = (token, cert)" by (cases tc)
  with 1 have q: "quiet w w1" by simp
  from 1 tc show ?case
    by (simp only: wp_simps prod.case)
      (intro conjI quiet_intros q;
        auto simp: connected_def quiet_fields(1) [OF q] intro!: exI [of _ token] exI [of _ cert])
qed simp

interpretation ztab: connector "connect ext" "\<lambda>ch. the (zc_grpc ch)" "\<lambda>self. accepted_by ext (zc_verifier self)"
  for ext
proof (unfold_locales, goal_cases)
  case (1 cf w)
  show ?case
    by (rule wp_mono [OF connect_effect]) (auto simp: connected_def accepted_by_def)
next
  case (2 cf env es cert es')
  then show ?case by (auto simp: accepted_by_def)
qed

section \<open>Properties\<close>

lemma connect_run:
  "case connect ext self w of
     (Inl e, w') \<Rightarrow> w_chans w' = w_chans w
   | (Inr ch, w') \<Rightarrow> connected ext self w ch w'"
  using connect_effect [of ext self w] by (simp add: wp_def split: prod.splits sum.splits)

text \<open>
  C4.  Only attested channels.  A connection attempt that fails, at whatever step, opens no gRPC
  channel.  One that succeeds opens exactly one, to the given host and port, whose only trust
  root is the certificate that was fetched; the attestation verifier has returned True for that
  very certificate and the token it carries; and the channels opened before are untouched.
\<close>

theorem connect_opens_only_attested:
  "case connect ext self w of
     (Inl e, w') \<Rightarrow> w_chans w' = w_chans w
   | (Inr ch, w') \<Rightarrow> \<exists>token cert.
        extract_attestation_token ext cert = Inr (Some token) \<and>
        VerifierReturned (zc_verifier self) token cert True \<in> set (w_events w') \<and>
        trusted_by ext (w_env w') (zc_verifier self) token cert \<and>
        zc_grpc ch = Some (length (w_chans w)) \<and> zc_cert ch = Some cert \<and> zc_token ch = Some token \<and>
        w_chans w' = w_chans w @ [\<lparr>gc_target = zc_target self, gc_root = cert, gc_override = ''ztab-tee'', gc_open = True\<rparr>]"
  using connect_run [where ext = ext and self = self and w = w] by (fastforce simp: connected_def split: prod.splits sum.splits)

text \<open>
  The no-op verifier refuses at run time as well: outside a test environment a connection that
  uses it never succeeds, even if it was built without the factory.
\<close>

theorem noop_connect_refused:
  assumes "zc_verifier self = noop_verifier_fn" and "\<not> is_test_env (w_env w)"
  shows "\<exists>e. fst (connect ext self w) = Inl e"
proof (rule ccontr)
  assume "\<nexists>e. fst (connect ext self w) = Inl e"
  then obtain ch w' where r: "connect ext self w = (Inr ch, w')"
    by (cases "connect ext self w"; cases "fst (connect ext self w)") auto
  from wpD [OF connect_effect r] have "quiet w w'" "connected ext self w ch w'" by simp_all
  then have "is_test_env (w_env w)"
    using assms(1) by (auto simp: connected_def trusted_by_def quiet_fields(1))
  with assms(2) show False by simp
qed

theorem noop_connect_refused_witness:
  "\<exists>e. fst (connect null_ext \<lparr>zc_host = PStr ''h'', zc_port = 1, zc_verifier = noop_verifier_fn, zc_grpc = None,
     zc_token = None, zc_cert = None\<rparr> null_world) = Inl e"
  by (rule noop_connect_refused) (simp_all add: null_world_def is_test_env_def)

end
