(* ===== verification/McpTools.thy ===== *)
theory McpTools
  imports PyValue
begin

text \<open>
  The tool table of \<^verbatim>\<open>agent/mcp_server.py\<close> and the validation of required arguments that is driven by
  it.  Each tool is the dictionary the server sends to the agent framework; the schema lookup
  is derived from the table as the code derives it.
\<close>

section \<open>The table\<close>

definition list_backends_tool :: pyval where
  "list_backends_tool = PDict [(''name'', PStr ''ztab_list_backends''),
      (''description'', PStr ''List the available TEE backends configured on this host.''),
      (''inputSchema'', PDict [(''type'', PStr ''object''),
          (''properties'', PDict []),
          (''additionalProperties'', PBool False)])]"

definition test_connection_tool :: pyval where
  "test_connection_tool = PDict [(''name'', PStr ''ztab_test_connection''),
      (''description'', PStr ''Connect to a ZTAB TEE server, verify its TLS certificate, extract and parse the remote attestation token (JWT), and make a secure gRPC Echo RPC call to verify the channel. ''),
      (''inputSchema'', PDict [(''type'', PStr ''object''),
          (''properties'', PDict [(''message'', PDict [(''type'', PStr ''string''),
                  (''description'', PStr ''Test message for Echo RPC'')]),
              (''backend'', PDict [(''type'', PStr ''string''),
                  (''description'', PStr ''Backend ID to use (optional)'')])]),
          (''required'', PList [PStr ''message''])])]"

definition create_session_tool :: pyval where
  "create_session_tool = PDict [(''name'', PStr ''ztab_create_session''),
      (''description'', PStr ''Create a new multi-agent session on the ZTAB TEE server. Returns an invitation_token (to share with other participants) and a participant_token (secret, for your own use in subsequent RPCs). The creator automatically counts as one participant.''),
      (''inputSchema'', PDict [(''type'', PStr ''object''),
          (''properties'', PDict [(''policy_class'', PDict [(''type'', PStr ''string''),
                  (''description'', PStr (''Policy class name (e.g., '' @ [quote_char] @ ''ScheduleOverlap'' @ [quote_char] @ '')''))]),
              (''expected_participants'', PDict [(''type'', PStr ''integer''),
                  (''description'', PStr ''Total number of participants (including creator). Must be >= 2.'')]),
              (''timeout_seconds'', PDict [(''type'', PStr ''integer''),
                  (''description'', PStr ''Per-state timeout in seconds (default: 300)'')]),
              (''backend'', PDict [(''type'', PStr ''string''),
                  (''description'', PStr ''Backend ID to use (optional)'')])]),
          (''required'', PList [PStr ''policy_class'', PStr ''expected_participants''])])]"

definition join_session_tool :: pyval where
  "join_session_tool = PDict [(''name'', PStr ''ztab_join_session''),
      (''description'', PStr ''Join an existing session on the ZTAB TEE server using an invitation_token received from the session creator. Returns the session policy for review and a participant_token for subsequent RPCs. After reviewing the policy, call ztab_accept_policy.''),
      (''inputSchema'', PDict [(''type'', PStr ''object''),
          (''properties'', PDict [(''invitation_token'', PDict [(''type'', PStr ''string''),
                  (''description'', PStr ''Invitation token received from session creator'')]),
              (''role'', PDict [(''type'', PStr ''string''),
                  (''description'', PStr ''Role for role-based policies (Phase 2+)'')]),
              (''backend'', PDict [(''type'', PStr ''string''),
                  (''description'', PStr ''Backend ID to use (optional)'')])]),
          (''required'', PList [PStr ''invitation_token''])])]"

definition accept_policy_tool :: pyval where
  "accept_policy_tool = PDict [(''name'', PStr ''ztab_accept_policy''),
      (''description'', PStr (''Accept the policy of a session you'' @ [quote_char] @ ''ve joined. Must be called after join_session and before submit_input. When all participants accept, the session transitions to SEALED.'')),
      (''inputSchema'', PDict [(''type'', PStr ''object''),
          (''properties'', PDict [(''participant_token'', PDict [(''type'', PStr ''string''),
                  (''description'', PStr ''Your participant token'')]),
              (''backend'', PDict [(''type'', PStr ''string''),
                  (''description'', PStr ''Backend ID to use (optional)'')])]),
          (''required'', PList [PStr ''participant_token''])])]"

definition submit_input_tool :: pyval where
  "submit_input_tool = PDict [(''name'', PStr ''ztab_submit_input''),
      (''description'', PStr (''Submit your private input to a SEALED session. The input must be valid JSON conforming to the session'' @ [quote_char] @ ''s input schema. When all participants submit, the TEE processes the inputs via LLM.'')),
      (''inputSchema'', PDict [(''type'', PStr ''object''),
          (''properties'', PDict [(''participant_token'', PDict [(''type'', PStr ''string''),
                  (''description'', PStr ''Your participant token'')]),
              (''input_json'', PDict [(''type'', PStr ''string''),
                  (''description'', PStr ''JSON string with your private input data'')]),
              (''backend'', PDict [(''type'', PStr ''string''),
                  (''description'', PStr ''Backend ID to use (optional)'')])]),
          (''required'', PList [PStr ''participant_token'', PStr ''input_json''])])]"

definition get_result_tool :: pyval where
  "get_result_tool = PDict [(''name'', PStr ''ztab_get_result''),
      (''description'', PStr ''Get the result of a completed session. Returns the LLM-generated result if the session is CLOSED, error details if ABORTED, or current state if still in progress.''),
      (''inputSchema'', PDict [(''type'', PStr ''object''),
          (''properties'', PDict [(''participant_token'', PDict [(''type'', PStr ''string''),
                  (''description'', PStr ''Your participant token'')]),
              (''backend'', PDict [(''type'', PStr ''string''),
                  (''description'', PStr ''Backend ID to use (optional)'')])]),
          (''required'', PList [PStr ''participant_token''])])]"

definition get_session_status_tool :: pyval where
  "get_session_status_tool = PDict [(''name'', PStr ''ztab_get_session_status''),
      (''description'', PStr ''Get the current status of a session: state, how many participants have joined, accepted, and submitted input.''),
      (''inputSchema'', PDict [(''type'', PStr ''object''),
          (''properties'', PDict [(''participant_token'', PDict [(''type'', PStr ''string''),
                  (''description'', PStr ''Your participant token'')]),
              (''backend'', PDict [(''type'', PStr ''string''),
                  (''description'', PStr ''Backend ID to use (optional)'')])]),
          (''required'', PList [PStr ''participant_token''])])]"

definition TOOLS :: "pyval list" where
  "TOOLS = [list_backends_tool, test_connection_tool, create_session_tool, join_session_tool, accept_policy_tool, submit_input_tool, get_result_tool, get_session_status_tool]"


section \<open>Schemas and required arguments\<close>

definition dict_of :: "pyval \<Rightarrow> pydict" where
  "dict_of v = (case v of PDict d \<Rightarrow> d | _ \<Rightarrow> [])"

definition list_of :: "pyval \<Rightarrow> pyval list" where
  "list_of v = (case v of PList xs \<Rightarrow> xs | _ \<Rightarrow> [])"

fun text_of :: "pyval \<Rightarrow> string" where
  "text_of (PStr s) = s"
| "text_of _ = []"

definition get_or :: "pyval \<Rightarrow> string \<Rightarrow> pyval \<Rightarrow> pyval" where
  "get_or v k d = (case map_of (dict_of v) k of None \<Rightarrow> d | Some x \<Rightarrow> x)"

definition TOOL_SCHEMAS :: "(string \<times> pyval) list" where
  "TOOL_SCHEMAS = map (\<lambda>t. (text_of (get_or t ''name'' PNone), get_or t ''inputSchema'' (PDict []))) TOOLS"

definition tool_schema :: "string \<Rightarrow> pyval" where
  "tool_schema tool_name = (case map_of TOOL_SCHEMAS tool_name of None \<Rightarrow> PDict [] | Some s \<Rightarrow> s)"

definition required_args :: "string \<Rightarrow> string list" where
  "required_args tool_name = map text_of (list_of (get_or (tool_schema tool_name) ''required'' (PList [])))"

definition accepted_args :: "string \<Rightarrow> string list" where
  "accepted_args tool_name = map fst (dict_of (get_or (tool_schema tool_name) ''properties'' (PDict [])))"

fun missing_args :: "string list \<Rightarrow> pyval \<Rightarrow> string list res" where
  "missing_args [] arguments = Inr []"
| "missing_args (r # rs) arguments =
     rbind (py_in (PStr r) arguments) (\<lambda>present.
     rbind (missing_args rs arguments) (\<lambda>ms.
     Inr (if present then ms else r # ms)))"

definition error_result :: "string \<Rightarrow> pyval" where
  "error_result msg = PDict [(''status'', PStr ''error''), (''message'', PStr msg)]"

text \<open>\<open>None\<close> when every required argument is there, else the error to report.\<close>

definition validate_required_args :: "string \<Rightarrow> pyval \<Rightarrow> pyval option res" where
  "validate_required_args tool_name arguments =
     (let required = required_args tool_name in
      rbind (missing_args required arguments) (\<lambda>missing.
      Inr (if missing \<noteq> []
           then Some (error_result (''Missing required argument'' @ (if 1 < length missing then ''s'' else []) @ '': ''
                  @ join_str '', '' missing @ ''. Required arguments for '' @ tool_name @ '': '' @ join_str '', '' required
                  @ ''. All accepted arguments: '' @ join_str '', '' (accepted_args tool_name) @ ''.''))
           else None)))"

section \<open>Facts\<close>

lemma tool_names:
  "map fst TOOL_SCHEMAS = [''ztab_list_backends'', ''ztab_test_connection'', ''ztab_create_session'', ''ztab_join_session'',
     ''ztab_accept_policy'', ''ztab_submit_input'', ''ztab_get_result'', ''ztab_get_session_status'']"
  by code_simp

text \<open>The required arguments of each tool, read off the table.\<close>

lemma required_table:
  "map (\<lambda>t. (t, required_args t)) (map fst TOOL_SCHEMAS) =
    [(''ztab_list_backends'', []), (''ztab_test_connection'', [''message'']),
     (''ztab_create_session'', [''policy_class'', ''expected_participants'']), (''ztab_join_session'', [''invitation_token'']),
     (''ztab_accept_policy'', [''participant_token'']), (''ztab_submit_input'', [''participant_token'', ''input_json'']),
     (''ztab_get_result'', [''participant_token'']), (''ztab_get_session_status'', [''participant_token''])]"
  by code_simp

lemmas required_args_of = required_table [unfolded tool_names, simplified]

lemma missing_args_dict:
  "missing_args rs (PDict d) = Inr (filter (\<lambda>r. r \<notin> fst ` set d) rs)"
  by (induction rs) auto

lemma validate_required_args_dict:
  "validate_required_args tool (PDict d) = Inr None \<longleftrightarrow> (\<forall>r \<in> set (required_args tool). r \<in> fst ` set d)"
  by (auto simp: validate_required_args_def Let_def missing_args_dict filter_empty_conv)

end
