(* ===== verification/McpBackends.thy ===== *)
theory McpBackends
  imports Client McpTools
begin

text \<open>
  The backend configuration and the channel cache of \<^verbatim>\<open>agent/mcp_server.py\<close>: loading and validating
  \<^verbatim>\<open>backends.json\<close>, reloading it when its modification time changes (which flushes the cache),
  looking a backend up, building its policy, and handing out one attested channel per backend.
  The module-level variables are the fields \<open>mcp\<close> adds to the world.
\<close>

section \<open>State\<close>

text \<open>
  The cache maps a backend identifier to the channel object and the stub; a stub is bound to the
  gRPC channel it was made from.  \<open>pw_home\<close> is the home directory of the password database, used
  when \<^verbatim>\<open>HOME\<close> is unset.
\<close>

type_synonym cache_entry = "ztab_channel \<times> nat"

record mcp = world +
  pw_home :: string
  backends_mtime_ns :: int
  backends_config :: "pyval option"
  channel_cache :: "(pyval \<times> cache_entry) list"

text \<open>Dictionary operations of the cache: keys compare with \<^verbatim>\<open>==\<close>.\<close>

definition cache_lookup :: "pyval \<Rightarrow> (pyval \<times> 'v) list \<Rightarrow> 'v option" where
  "cache_lookup k c = map_option snd (find (\<lambda>(k', _). py_eq k k') c)"

fun cache_insert :: "pyval \<Rightarrow> 'v \<Rightarrow> (pyval \<times> 'v) list \<Rightarrow> (pyval \<times> 'v) list" where
  "cache_insert k v [] = [(k, v)]"
| "cache_insert k v ((k', v') # c) = (if py_eq k k' then (k', v) # c else (k', v') # cache_insert k v c)"

fun cache_remove :: "pyval \<Rightarrow> (pyval \<times> 'v) list \<Rightarrow> (pyval \<times> 'v) list" where
  "cache_remove k [] = []"
| "cache_remove k ((k', v') # c) = (if py_eq k k' then c else (k', v') # cache_remove k c)"

section \<open>Loading\<close>

definition warn :: "string \<Rightarrow> string \<Rightarrow> (mcp, unit) io" where
  "warn config_path m = print_stderr (''[ztab] WARNING: '' @ config_path @ '': '' @ m)"

fun check_fields :: "nat \<Rightarrow> pyval \<Rightarrow> string list \<Rightarrow> unit res" where
  "check_fields i b [] = Inr ()"
| "check_fields i b (field # fs) =
     rbind (py_in (PStr field) b) (\<lambda>present.
     if \<not> present
     then rbind (py_get b ''backend_id'' (PInt (int i))) (\<lambda>bid.
          Inl (Exn ValueError (''Backend '' @ quoted (py_str bid) @ '' missing required field '' @ quoted field)))
     else check_fields i b fs)"

fun check_backends :: "string \<Rightarrow> nat \<Rightarrow> pyval list \<Rightarrow> pyval list \<Rightarrow> (mcp, pyval list) io" where
  "check_backends config_path i seen [] = io_return seen"
| "check_backends config_path i seen (b # bs) =
     io_bind (io_lift (check_fields i b [''backend_id'', ''host'', ''port'', ''verifier''])) (\<lambda>_.
     io_bind (io_lift (py_get b ''backend_id'' PNone)) (\<lambda>bid.
     io_bind (if truthy bid
              then io_bind (io_lift (py_hash_in bid seen)) (\<lambda>dup.
                   io_bind (if dup then warn config_path (''duplicate backend_id '' @ quoted (py_str bid))
                            else io_return ()) (\<lambda>_.
                   io_return (if dup then seen else seen @ [bid])))
              else io_return seen) (\<lambda>seen'.
     check_backends config_path (Suc i) seen' bs)))"

definition validate_backends :: "pyval \<Rightarrow> string \<Rightarrow> (mcp, unit) io" where
  "validate_backends config config_path =
     io_bind (io_lift (py_get config ''backends'' PNone)) (\<lambda>backends.
     case backends of
       PList bs \<Rightarrow>
         io_bind (check_backends config_path 0 [] bs) (\<lambda>seen_ids.
         io_bind (io_lift (py_get config ''default_backend'' PNone)) (\<lambda>dflt.
         if truthy dflt
         then io_bind (io_lift (py_hash_in dflt seen_ids)) (\<lambda>known.
              if \<not> known then warn config_path (''default_backend '' @ quoted (py_str dflt)
                                @ '' does not match any backend_id'')
              else io_return ())
         else io_return ()))
     | _ \<Rightarrow> warn config_path (quoted ''backends'' @ '' must be a list''))"

definition load_backends_from :: "string \<Rightarrow> (mcp, pyval option) io" where
  "load_backends_from config_path =
     io_bind (io_catch
       (io_bind (read_file config_path) (\<lambda>text. io_bind (io_lift (json_loads text)) (\<lambda>config. io_return (Some config))))
       (\<lambda>e. io_bind (print_stderr (''[ztab] Error loading backends config from '' @ config_path @ '': '' @ exn_str e))
             (\<lambda>_. io_return None))) (\<lambda>loaded.
     case loaded of
       None \<Rightarrow> io_return None
     | Some config \<Rightarrow> io_bind (validate_backends config config_path) (\<lambda>_. io_return (Some config)))"

text \<open>\<^verbatim>\<open>os.path.expanduser("~/.ztab/backends.json")\<close>.\<close>

definition expand_home :: "env \<Rightarrow> string \<Rightarrow> string" where
  "expand_home env pw = (let home = (case env ''HOME'' of Some h \<Rightarrow> h | None \<Rightarrow> pw)
     in rstrip_char (CHR ''/'') home @ ''/.ztab/backends.json'')"

definition backends_config_path :: "(mcp, string) io" where
  "backends_config_path =
     io_bind (env_get ''ZTAB_BACKENDS_FILE'') (\<lambda>path.
     case path of
       Some (c # p) \<Rightarrow> io_return (c # p)
     | _ \<Rightarrow> io_get (\<lambda>w. expand_home (w_env w) (pw_home w)))"

text \<open>Closing every cached channel; an exception of one close would be passed over.\<close>

fun close_all :: "(pyval \<times> cache_entry) list \<Rightarrow> (mcp, unit) io" where
  "close_all [] = io_return ()"
| "close_all ((_, (ch, _)) # c) =
     io_bind (io_catch (io_bind (zc_close ch) (\<lambda>_. io_return ())) (\<lambda>_. io_return ())) (\<lambda>_. close_all c)"

definition flush_channels :: "(mcp, unit) io" where
  "flush_channels =
     io_bind (io_get channel_cache) (\<lambda>c. io_bind (close_all c) (\<lambda>_.
     io_modify (channel_cache_update (\<lambda>_. []))))"

definition get_backends :: "(mcp, pyval option) io" where
  "get_backends =
     io_bind backends_config_path (\<lambda>path.
     io_bind (io_catch (io_bind (os_stat path) (\<lambda>t. io_return (Some t)))
                (\<lambda>e. if exn_kind e = FileNotFoundError then io_return None else io_raise e)) (\<lambda>st.
     case st of
       None \<Rightarrow> io_return None
     | Some mtime \<Rightarrow>
         io_bind (io_get backends_mtime_ns) (\<lambda>known.
         io_bind (if mtime \<noteq> known
           then io_bind (load_backends_from path) (\<lambda>new_config.
                io_bind (io_get backends_config) (\<lambda>old.
                io_bind (if old \<noteq> None \<and> new_config \<noteq> None
                  then io_bind (print_stderr ''[ztab] backends.json changed, reloading and flushing channel cache'')
                         (\<lambda>_. flush_channels)
                  else io_return ()) (\<lambda>_.
                io_bind (io_modify (backends_config_update (\<lambda>_. new_config))) (\<lambda>_.
                io_modify (backends_mtime_ns_update (\<lambda>_. mtime))))))
           else io_return ()) (\<lambda>_.
         io_get backends_config))))"

section \<open>Lookup\<close>

fun find_backend :: "pyval \<Rightarrow> pyval list \<Rightarrow> pyval option res" where
  "find_backend bid [] = Inr None"
| "find_backend bid (b # bs) =
     rbind (py_get b ''backend_id'' PNone) (\<lambda>i. if py_eq i bid then Inr (Some b) else find_backend bid bs)"

text \<open>What \<^verbatim>\<open>_get_backend_info\<close> makes of the loaded configuration.\<close>

definition resolve_backend :: "pyval option \<Rightarrow> pyval \<Rightarrow> pyval res" where
  "resolve_backend loaded backend_id =
     (if (case loaded of None \<Rightarrow> True | Some config \<Rightarrow> \<not> truthy config)
      then Inl (Exn ValueError (''Backend configuration is missing. Please ensure ''
             @ ''~/.ztab/backends.json exists or ZTAB_BACKENDS_FILE is set.''))
      else
        let config = the loaded in
        rbind (if truthy backend_id then Inr backend_id else py_get config ''default_backend'' PNone) (\<lambda>bid.
        if \<not> truthy bid then Inl (Exn ValueError ''No backend_id provided and no default_backend configured.'')
        else
          rbind (py_get config ''backends'' (PList [])) (\<lambda>bs.
          rbind (py_iter bs) (\<lambda>backends.
          rbind (find_backend bid backends) (\<lambda>found.
          case found of
            Some b \<Rightarrow> Inr b
          | None \<Rightarrow>
              rbind (rmap (\<lambda>b. py_get b ''backend_id'' PNone) backends) (\<lambda>ids.
              rbind (py_join '', '' ids) (\<lambda>available.
              Inl (Exn ValueError (''Unknown backend '' @ quoted (py_str bid) @ ''. Available backends: '' @ available)))))))))"

definition get_backend_info :: "pyval \<Rightarrow> (mcp, pyval) io" where
  "get_backend_info backend_id =
     io_bind get_backends (\<lambda>loaded. io_lift (resolve_backend loaded backend_id))"

section \<open>Policies and channels\<close>

definition build_policy_from_backend :: "pyval \<Rightarrow> verifier_policy res" where
  "build_policy_from_backend backend =
     rbind (py_get backend ''verifier'' (PStr [])) (\<lambda>verifier_name.
     if py_eq verifier_name (PStr ''noop'') then Inr NoopPolicy else
     rbind (py_get backend ''expected_digest'' (PStr [])) (\<lambda>digest_val.
     rbind (case digest_val of
              PList ds \<Rightarrow> py_frozenset ds
            | _ \<Rightarrow> if truthy digest_val then py_frozenset [digest_val] else Inr []) (\<lambda>digests.
     rbind (py_get backend ''allow_debug_tee'' (PBool False)) (\<lambda>dbg.
     rbind (py_get backend ''allow_memory_monitoring'' (PBool False)) (\<lambda>mm.
     rbind (py_get backend ''expected_project_id'' (PStr [])) (\<lambda>proj.
     rbind (py_get backend ''expected_service_account'' (PStr [])) (\<lambda>sa.
     rbind (py_get backend ''expected_image_digest'' PNone) (\<lambda>digest.
     rbind (if truthy digest then py_frozenset [digest] else Inr digests) (\<lambda>pinned.
     rbind (py_get backend ''min_cs_version'' PNone) (\<lambda>min_cs.
     rbind (if py_eq min_cs PNone \<or> py_eq min_cs (PStr []) then Inr MIN_CS_VERSION_DEFAULT else py_int min_cs) (\<lambda>min_ver.
     Inr (ItaPolicy (ita_default\<lparr>expected_image_digests := pinned, allow_debug := dbg, allow_memory_monitoring := mm,
            expected_project_id := proj, expected_service_account := sa, min_cs_version := min_ver\<rparr>)))))))))))))"

definition get_stub :: "ext \<Rightarrow> pyval \<times> int \<times> verifier_policy \<Rightarrow> ('a world_scheme, cache_entry) io" where
  "get_stub ext = (\<lambda>(host, port, policy).
     io_bind (io_get w_env) (\<lambda>env.
     io_bind (io_lift (get_verifier env policy)) (\<lambda>verifier.
     io_bind (io_lift (ZtabChannel host port (Some verifier))) (\<lambda>channel_wrapper.
     io_bind (connect ext channel_wrapper) (\<lambda>ch. io_return (ch, the (zc_grpc ch)))))))"

text \<open>\<^verbatim>\<open>backend["backend_id"]\<close>.\<close>

definition py_item :: "pyval \<Rightarrow> string \<Rightarrow> pyval res" where
  "py_item v k = (case v of
      PDict d \<Rightarrow> (case map_of d k of Some x \<Rightarrow> Inr x | None \<Rightarrow> Inl (Exn KeyError (quoted k)))
    | PStr _ \<Rightarrow> Inl (Exn TypeError (''string indices must be integers, not '' @ quoted ''str''))
    | PList _ \<Rightarrow> Inl (Exn TypeError (''list indices must be integers or slices, not str''))
    | _ \<Rightarrow> Inl (Exn TypeError (quoted (type_name v) @ '' object is not subscriptable'')))"

text \<open>The body of \<^verbatim>\<open>if bid not in _CHANNEL_CACHE\<close>: connect and remember.\<close>

definition open_backend :: "ext \<Rightarrow> pyval \<Rightarrow> pyval \<Rightarrow> (mcp, unit) io" where
  "open_backend ext bid backend =
     io_bind (io_lift (build_policy_from_backend backend)) (\<lambda>policy.
     io_bind (io_lift (py_get backend ''host'' (PStr ''localhost''))) (\<lambda>host.
     io_bind (io_lift (rbind (py_get backend ''port'' (PInt 8000)) py_int)) (\<lambda>port.
     io_bind (get_stub ext (host, port, policy)) (\<lambda>entry.
     io_bind (io_modify (channel_cache_update (cache_insert bid entry))) (\<lambda>_.
     print_stderr (''[ztab] Channel created for backend '' @ quoted (py_str bid)))))))"

definition get_cached_stub :: "ext \<Rightarrow> pyval \<Rightarrow> (mcp, ztab_channel \<times> nat \<times> pyval) io" where
  "get_cached_stub ext arguments =
     io_bind (io_lift (py_get arguments ''backend'' PNone)) (\<lambda>backend_id.
     io_bind (get_backend_info backend_id) (\<lambda>backend.
     io_bind (io_lift (py_item backend ''backend_id'')) (\<lambda>bid.
     io_bind (io_get channel_cache) (\<lambda>cache.
     io_bind (io_lift (py_hash_in bid (map fst cache))) (\<lambda>cached.
     io_bind (if \<not> cached then open_backend ext bid backend else io_return ()) (\<lambda>_.
     io_bind (io_get (\<lambda>w. the (cache_lookup bid (channel_cache w)))) (\<lambda>(channel, stub).
     io_return (channel, stub, backend))))))))"

definition evict_backend :: "pyval \<Rightarrow> (mcp, unit) io" where
  "evict_backend arguments =
     io_bind (io_lift (py_get arguments ''backend'' PNone)) (\<lambda>backend_id.
     io_bind (get_backend_info backend_id) (\<lambda>backend.
     io_bind (io_lift (py_item backend ''backend_id'')) (\<lambda>bid.
     io_bind (io_get channel_cache) (\<lambda>cache.
     io_bind (io_lift (py_hash_in bid (map fst cache))) (\<lambda>_.
     io_bind (io_modify (channel_cache_update (cache_remove bid))) (\<lambda>_.
     case cache_lookup bid cache of
       None \<Rightarrow> io_return ()
     | Some (channel, _) \<Rightarrow>
         io_bind (io_catch (io_bind (zc_close channel) (\<lambda>_. io_return ())) (\<lambda>_. io_return ())) (\<lambda>_.
         print_stderr (''[ztab] Evicted stale channel for backend '' @ quoted (py_str bid)))))))))"

definition common_args :: "pyval \<Rightarrow> (mcp, pyval \<times> int \<times> verifier_policy) io" where
  "common_args arguments =
     io_bind (io_lift (py_get arguments ''backend'' PNone)) (\<lambda>backend_id.
     io_bind (get_backend_info backend_id) (\<lambda>backend.
     io_bind (io_lift (py_get backend ''host'' (PStr ''localhost''))) (\<lambda>host.
     io_bind (io_lift (rbind (py_get backend ''port'' (PInt 8000)) py_int)) (\<lambda>port.
     io_bind (io_lift (build_policy_from_backend backend)) (\<lambda>policy.
     io_return (host, port, policy))))))"

end
