(* ===== verification/McpServer.thy ===== *)
theory McpServer
  imports McpBackends
begin

text \<open>
  The tool handlers and the stdio loop of \<^verbatim>\<open>agent/mcp_server.py\<close>.  A handler is a computation from
  the argument value to the result value; \<open>handle_request\<close> dispatches one JSON-RPC request and
  \<open>serve\<close> is the loop over the lines read from standard input.  The loop's exception handlers are
  those of the code, so an exception it lets through ends the run.
\<close>

section \<open>Shared pieces of the handlers\<close>

definition grpc_error_result :: "grpc_status \<Rightarrow> string \<Rightarrow> pyval" where
  "grpc_error_result code details =
     error_result (''gRPC error StatusCode.'' @ status_name code @ '': '' @ details)"

text \<open>
  The \<^verbatim>\<open>except grpc.RpcError\<close> clause the six session handlers share: an unavailable backend is
  evicted from the cache, and the error is reported as a result.
\<close>

definition catch_rpc :: "pyval \<Rightarrow> (mcp, pyval) io \<Rightarrow> (mcp, pyval) io" where
  "catch_rpc arguments body =
     io_catch body (\<lambda>e. case exn_kind e of
       RpcError code \<Rightarrow>
         io_bind (if code = UNAVAILABLE then evict_backend arguments else io_return ()) (\<lambda>_.
         io_return (grpc_error_result code (exn_str e)))
     | _ \<Rightarrow> io_raise e)"

definition pb_str :: "ext \<Rightarrow> pyval \<Rightarrow> ('a world_scheme, string) io" where
  "pb_str ext v = io_lift (pb_string ext v)"

text \<open>\<^verbatim>\<open>arguments.get("client_nonce", str(uuid.uuid4()))\<close>: the identifier is drawn in any case.\<close>

definition client_nonce :: "pyval \<Rightarrow> ('a world_scheme, pyval) io" where
  "client_nonce arguments = io_bind uuid4 (\<lambda>u. io_lift (py_get arguments ''client_nonce'' (PStr u)))"

section \<open>Handlers\<close>

definition decode_jwt_payload :: "string \<Rightarrow> pyval" where
  "decode_jwt_payload token =
     (case split_on (CHR ''.'') token of
        _ # p # _ \<Rightarrow>
          (let padded = p @ replicate (4 - length p mod 4) (CHR ''='');
               std = replace_char (CHR ''_'') (CHR ''/'') (replace_char (CHR ''-'') (CHR ''+'') padded)
           in case rbind (b64decode std) json_loads_bytes of Inr v \<Rightarrow> v | Inl _ \<Rightarrow> PNone)
      | _ \<Rightarrow> PNone)"

fun sanitize_backends :: "pyval list \<Rightarrow> pyval list res" where
  "sanitize_backends [] = Inr []"
| "sanitize_backends (b # bs) =
     rbind (py_get b ''verifier'' PNone) (\<lambda>v.
     rbind (py_get b ''backend_id'' PNone) (\<lambda>bid.
     rbind (py_get b ''name'' PNone) (\<lambda>name.
     rbind (py_get b ''description'' PNone) (\<lambda>descr.
     rbind (sanitize_backends bs) (\<lambda>rest.
     Inr (PDict [(''backend_id'', bid), (''name'', name), (''description'', descr),
                 (''security_level'', PStr (if \<not> py_eq v (PStr ''noop'') then ''production'' else ''development''))] # rest))))))"

definition run_list_backends :: "pyval \<Rightarrow> (mcp, pyval) io" where
  "run_list_backends arguments =
     io_bind get_backends (\<lambda>loaded.
     case loaded of
       None \<Rightarrow> io_return (error_result ''Backend configuration is missing.'')
     | Some config \<Rightarrow>
         if \<not> truthy config then io_return (error_result ''Backend configuration is missing.'')
         else
           io_bind (io_lift (rbind (py_get config ''backends'' (PList [])) py_iter)) (\<lambda>bs.
           io_bind (io_lift (sanitize_backends bs)) (\<lambda>sanitized.
           io_bind (io_lift (py_get config ''default_backend'' PNone)) (\<lambda>dflt.
           io_return (PDict [(''status'', PStr ''success''), (''backends'', PList sanitized), (''default_backend'', dflt)])))))"

text \<open>A fresh connection each time, closed on every path.\<close>

definition run_connectivity_test :: "ext \<Rightarrow> pyval \<times> int \<times> verifier_policy \<Rightarrow> pyval \<Rightarrow> (mcp, pyval) io" where
  "run_connectivity_test ext conn message =
     io_bind (get_stub ext conn) (\<lambda>(channel_wrapper, stub).
     io_bind (io_catch
       (io_bind (pb_str ext message) (\<lambda>msg.
        io_bind (rpc_call stub (EchoRequest msg) None (\<lambda>b. b_echo b msg)) (\<lambda>reply.
        let claims = (case zc_token channel_wrapper of
              Some (c # s) \<Rightarrow> decode_jwt_payload (c # s) | _ \<Rightarrow> PNone) in
        io_return (PDict [(''status'', PStr ''success''), (''message'', PStr ''ZTAB connectivity test passed.''),
          (''tls_handshake'', PStr ''OK (CN=ztab-tee)''),
          (''attestation_token_present'', PBool (zc_token channel_wrapper \<noteq> None)),
          (''attestation_claims'', claims), (''echo_response'', PStr reply)]))))
       (\<lambda>e. io_return (case exn_kind e of
             RpcError code \<Rightarrow> grpc_error_result code (exn_str e)
           | _ \<Rightarrow> error_result (''Connection error: '' @ exn_str e)))) (\<lambda>result.
     io_bind (zc_close channel_wrapper) (\<lambda>_. io_return result)))"

definition creator_metadata :: "pyval \<Rightarrow> metadata" where
  "creator_metadata creator_token =
     (if truthy creator_token then Some [(''x-ztab-creator-token'', creator_token)] else None)"

definition run_create_session :: "ext \<Rightarrow> pyval \<Rightarrow> (mcp, pyval) io" where
  "run_create_session ext arguments =
     io_bind (get_cached_stub ext arguments) (\<lambda>(channel, stub, backend_info).
     catch_rpc arguments (
       io_bind (io_lift (py_item arguments ''policy_class'')) (\<lambda>pc.
       io_bind (io_lift (rbind (py_item arguments ''expected_participants'') py_int)) (\<lambda>n.
       io_bind (io_lift (rbind (py_get arguments ''timeout_seconds'' (PInt 300)) py_int)) (\<lambda>t.
       io_bind (pb_str ext pc) (\<lambda>pc'.
       io_bind (io_lift (pb_int32 ext (PInt n))) (\<lambda>n'.
       io_bind (io_lift (pb_int32 ext (PInt t))) (\<lambda>t'.
       io_bind (io_lift (py_get backend_info ''creator_token'' (PStr []))) (\<lambda>creator_token.
       io_bind (client_nonce arguments) (\<lambda>nonce.
       io_bind (pb_str ext nonce) (\<lambda>nonce'.
       let policy = \<lparr>sp_class = pc', sp_input_schema = [], sp_output_schema = [], sp_participants = n', sp_timeout = t'\<rparr>;
           md = creator_metadata creator_token in
       io_bind (rpc_call stub (CreateSessionRequest policy nonce') md (\<lambda>b. b_create b md policy nonce')) (\<lambda>r.
       io_bind (io_lift (SessionState_Name (cr_state r))) (\<lambda>state.
       io_return (PDict [(''status'', PStr ''success''), (''invitation_token'', PStr (cr_invitation r)),
         (''state'', PStr state), (''participant_token'', PStr (cr_token r)),
         (''instructions'', PStr (''Share invitation_token with other participants. Keep your ''
            @ ''participant_token secret.''))]))))))))))))))"

definition run_join_session :: "ext \<Rightarrow> pyval \<Rightarrow> (mcp, pyval) io" where
  "run_join_session ext arguments =
     io_bind (get_cached_stub ext arguments) (\<lambda>(channel, stub, _).
     catch_rpc arguments (
       io_bind (io_lift (py_item arguments ''invitation_token'')) (\<lambda>inv.
       io_bind (io_lift (py_get arguments ''role'' (PStr []))) (\<lambda>role.
       io_bind (client_nonce arguments) (\<lambda>nonce.
       io_bind (pb_str ext inv) (\<lambda>inv'.
       io_bind (pb_str ext role) (\<lambda>role'.
       io_bind (pb_str ext nonce) (\<lambda>nonce'.
       io_bind (rpc_call stub (JoinSessionRequest inv' role' nonce') None (\<lambda>b. b_join b inv' role' nonce')) (\<lambda>r.
       io_bind (io_lift (SessionState_Name (jr_state r))) (\<lambda>state.
       io_return (PDict [(''status'', PStr ''success''), (''state'', PStr state),
         (''policy_class'', PStr (sp_class (jr_policy r))),
         (''expected_participants'', PInt (sp_participants (jr_policy r))),
         (''participant_token'', PStr (jr_token r)),
         (''instructions'', PStr ''Review the policy, then call ztab_accept_policy.'')])))))))))))"

definition participant_token :: "ext \<Rightarrow> pyval \<Rightarrow> ('a world_scheme, string) io" where
  "participant_token ext arguments =
     io_bind (io_lift (py_item arguments ''participant_token'')) (\<lambda>t. pb_str ext t)"

definition run_accept_policy :: "ext \<Rightarrow> pyval \<Rightarrow> (mcp, pyval) io" where
  "run_accept_policy ext arguments =
     io_bind (get_cached_stub ext arguments) (\<lambda>(channel, stub, _).
     catch_rpc arguments (
       io_bind (participant_token ext arguments) (\<lambda>tok.
       io_bind (rpc_call stub (AcceptPolicyRequest tok) None (\<lambda>b. b_accept b tok)) (\<lambda>st.
       io_bind (io_lift (SessionState_Name st)) (\<lambda>state_name.
       io_return (PDict [(''status'', PStr ''success''), (''state'', PStr state_name),
         (''instructions'', PStr (if st = SEALED then ''All participants accepted. Submit your input now.''
            else ''Waiting for other participants to accept.''))]))))))"

definition run_submit_input :: "ext \<Rightarrow> pyval \<Rightarrow> (mcp, pyval) io" where
  "run_submit_input ext arguments =
     io_bind (get_cached_stub ext arguments) (\<lambda>(channel, stub, _).
     catch_rpc arguments (
       io_bind (io_lift (py_item arguments ''participant_token'')) (\<lambda>tok.
       io_bind (io_lift (py_item arguments ''input_json'')) (\<lambda>inp.
       io_bind (pb_str ext tok) (\<lambda>tok'.
       io_bind (pb_str ext inp) (\<lambda>inp'.
       io_bind (rpc_call stub (SubmitInputRequest tok' inp') None (\<lambda>b. b_submit b tok' inp')) (\<lambda>r.
       io_bind (io_lift (SessionState_Name (sr_state r))) (\<lambda>state_name.
       io_return (PDict [(''status'', PStr ''success''), (''state'', PStr state_name),
         (''remaining_inputs'', PInt (sr_remaining r)),
         (''instructions'', PStr (if sr_remaining r = 0 then ''All inputs received. Call ztab_get_result.''
            else ''Waiting for '' @ int_str (sr_remaining r) @ '' more input(s).''))])))))))))"

text \<open>The fields of a result response: the parsed result, the raw one, or the error.\<close>

definition result_fields :: "result_response \<Rightarrow> string \<Rightarrow> pydict res" where
  "result_fields r state_name =
     (if rr_state r = CLOSED
      then (case json_loads (rr_json r) of
              Inr v \<Rightarrow> Inr [(''result'', v)]
            | Inl e \<Rightarrow> if exn_kind e = JSONDecodeError then Inr [(''result_raw'', PStr (rr_json r))] else Inl e)
      else if rr_state r = ABORTED
      then rbind (SessionError_Name (rr_error r)) (\<lambda>name.
           Inr [(''error_code'', PStr name), (''error_detail'', PStr (rr_detail r))])
      else Inr [(''instructions'', PStr (''Result not yet available. State is '' @ state_name @ ''.''))])"

definition run_get_result :: "ext \<Rightarrow> pyval \<Rightarrow> (mcp, pyval) io" where
  "run_get_result ext arguments =
     io_bind (get_cached_stub ext arguments) (\<lambda>(channel, stub, _).
     catch_rpc arguments (
       io_bind (participant_token ext arguments) (\<lambda>tok.
       io_bind (rpc_call stub (GetResultRequest tok) None (\<lambda>b. b_result b tok)) (\<lambda>r.
       io_bind (io_lift (SessionState_Name (rr_state r))) (\<lambda>state_name.
       io_bind (io_lift (result_fields r state_name)) (\<lambda>fields.
       io_return (PDict ([(''status'', PStr ''success''), (''state'', PStr state_name)] @ fields))))))))"

definition run_get_session_status :: "ext \<Rightarrow> pyval \<Rightarrow> (mcp, pyval) io" where
  "run_get_session_status ext arguments =
     io_bind (get_cached_stub ext arguments) (\<lambda>(channel, stub, _).
     catch_rpc arguments (
       io_bind (participant_token ext arguments) (\<lambda>tok.
       io_bind (rpc_call stub (GetSessionStatusRequest tok) None (\<lambda>b. b_status b tok)) (\<lambda>r.
       io_bind (io_lift (SessionState_Name (st_state r))) (\<lambda>state.
       io_return (PDict [(''status'', PStr ''success''), (''state'', PStr state),
         (''participants_joined'', PInt (st_joined r)), (''participants_accepted'', PInt (st_accepted r)),
         (''inputs_received'', PInt (st_inputs r))]))))))"

section \<open>Dispatch\<close>

definition TOOL_HANDLERS :: "ext \<Rightarrow> (string \<times> (pyval \<Rightarrow> (mcp, pyval) io)) list" where
  "TOOL_HANDLERS ext =
     [(''ztab_list_backends'', run_list_backends),
      (''ztab_test_connection'', \<lambda>args.
         io_bind (common_args args) (\<lambda>conn.
         io_bind (io_lift (py_get args ''message'' (PStr ''Test''))) (\<lambda>message.
         run_connectivity_test ext conn message))),
      (''ztab_create_session'', run_create_session ext),
      (''ztab_join_session'', run_join_session ext),
      (''ztab_accept_policy'', run_accept_policy ext),
      (''ztab_submit_input'', run_submit_input ext),
      (''ztab_get_result'', run_get_result ext),
      (''ztab_get_session_status'', run_get_session_status ext)]"

text \<open>\<^verbatim>\<open>TOOL_HANDLERS.get(tool_name)\<close>.\<close>

definition find_handler :: "ext \<Rightarrow> pyval \<Rightarrow> (string \<times> (pyval \<Rightarrow> (mcp, pyval) io)) option res" where
  "find_handler ext tool_name =
     rbind (py_hash_in tool_name (map (PStr \<circ> fst) (TOOL_HANDLERS ext))) (\<lambda>_.
     Inr (case tool_name of
            PStr n \<Rightarrow> map_option (\<lambda>h. (n, h)) (map_of (TOOL_HANDLERS ext) n)
          | _ \<Rightarrow> None))"

text \<open>Running a handler: its exceptions become error results.\<close>

definition run_handler :: "(pyval \<Rightarrow> (mcp, pyval) io) \<Rightarrow> pyval \<Rightarrow> (mcp, pyval) io" where
  "run_handler handler arguments =
     io_catch (handler arguments) (\<lambda>e. io_return
       (if is_value_error (exn_kind e) then error_result (exn_str e)
        else error_result (''Tool execution failed: '' @ exn_str e)))"

definition call_tool :: "ext \<Rightarrow> pyval \<Rightarrow> (mcp, pyval) io" where
  "call_tool ext params =
     io_bind (io_lift (py_get params ''name'' (PStr []))) (\<lambda>tool_name.
     io_bind (io_lift (py_get params ''arguments'' (PDict []))) (\<lambda>arguments.
     io_bind (io_lift (find_handler ext tool_name)) (\<lambda>found.
     io_bind (case found of
         Some (name, handler) \<Rightarrow>
           io_bind (io_lift (validate_required_args name arguments)) (\<lambda>validation_error.
           case validation_error of
             Some err \<Rightarrow> io_return err
           | None \<Rightarrow> run_handler handler arguments)
       | None \<Rightarrow> io_return (error_result (''Unknown tool: '' @ py_str tool_name))) (\<lambda>result.
     io_return (PDict [(''content'', PList [PDict [(''type'', PStr ''text''),
       (''text'', PStr (json_dumps_indent result))]])])))))"

text \<open>The answer to a request, or the sentinel for a method that is not known.\<close>

datatype reply = Reply pyval | NOT_HANDLED

definition SERVER_NAME :: string where "SERVER_NAME = ''ztab''"
definition SERVER_VERSION :: string where "SERVER_VERSION = ''0.2.0''"
definition PROTOCOL_VERSION :: string where "PROTOCOL_VERSION = ''2024-11-05''"

definition handle_request :: "ext \<Rightarrow> pyval \<Rightarrow> pyval \<Rightarrow> (mcp, reply) io" where
  "handle_request ext method params =
     (if py_eq method (PStr ''initialize'') then
        io_return (Reply (PDict [(''protocolVersion'', PStr PROTOCOL_VERSION),
          (''capabilities'', PDict [(''tools'', PDict [])]),
          (''serverInfo'', PDict [(''name'', PStr SERVER_NAME), (''version'', PStr SERVER_VERSION)])]))
      else if py_eq method (PStr ''notifications/initialized'') then io_return (Reply PNone)
      else if py_eq method (PStr ''tools/list'') then io_return (Reply (PDict [(''tools'', PList TOOLS)]))
      else if py_eq method (PStr ''tools/call'') then io_bind (call_tool ext params) (\<lambda>r. io_return (Reply r))
      else io_return NOT_HANDLED)"

section \<open>The stdio loop\<close>

definition rpc_error :: "pyval \<Rightarrow> int \<Rightarrow> string \<Rightarrow> pyval" where
  "rpc_error msg_id code message =
     PDict [(''jsonrpc'', PStr ''2.0''), (''id'', msg_id),
            (''error'', PDict [(''code'', PInt code), (''message'', PStr message)])]"

definition rpc_result :: "pyval \<Rightarrow> pyval \<Rightarrow> pyval" where
  "rpc_result msg_id result = PDict [(''jsonrpc'', PStr ''2.0''), (''id'', msg_id), (''result'', result)]"

text \<open>One line to the saved standard output.\<close>

definition send :: "pyval \<Rightarrow> (mcp, unit) io" where
  "send response = write_line Stdout (json_dumps response)"

text \<open>
  One parsed message.  The exception handler around \<open>handle_request\<close> answers with an internal error;
  what follows decides about the response.
\<close>

definition process_message :: "ext \<Rightarrow> pyval \<Rightarrow> (mcp, unit) io" where
  "process_message ext msg =
     io_bind (io_lift (py_get msg ''method'' (PStr []))) (\<lambda>method.
     io_bind (io_lift (py_get msg ''params'' (PDict []))) (\<lambda>params.
     io_bind (io_lift (py_get msg ''id'' PNone)) (\<lambda>msg_id.
     io_bind (print_stderr (''[ztab] Processing method: '' @ quoted (py_str method) @ '' (id: '' @ py_str msg_id @ '')'')) (\<lambda>_.
     io_bind (io_catch (io_bind (handle_request ext method params) (\<lambda>r. io_return (Inr r)))
                (\<lambda>e. io_bind (print_stderr (''[ztab] EXCEPTION in '' @ quoted (py_str method) @ '': ''
                         @ exn_type_name (exn_kind e) @ '': '' @ exn_str e)) (\<lambda>_. io_return (Inl e)))) (\<lambda>outcome.
     case outcome of
       Inl e \<Rightarrow>
         if msg_id \<noteq> PNone
         then send (rpc_error msg_id (- 32603) (''Internal error: '' @ exn_type_name (exn_kind e) @ '': '' @ exn_str e))
         else io_return ()
     | Inr result \<Rightarrow>
         if msg_id = PNone then io_return ()
         else io_bind (send (case result of
                  NOT_HANDLED \<Rightarrow> rpc_error msg_id (- 32601) (''Method not found: '' @ py_str method)
                | Reply v \<Rightarrow> rpc_result msg_id v)) (\<lambda>_.
              print_stderr (''[ztab] Sent response for method: '' @ quoted (py_str method)
                @ '' (id: '' @ py_str msg_id @ '')'')))))))"

text \<open>One line of input: blank lines and undecodable ones are passed over.\<close>

definition process_line :: "ext \<Rightarrow> string \<Rightarrow> (mcp, unit) io" where
  "process_line ext raw =
     (let line = strip raw in
      if line = [] then io_return ()
      else case json_loads line of
        Inr msg \<Rightarrow> process_message ext msg
      | Inl e \<Rightarrow>
          if exn_kind e = JSONDecodeError
          then print_stderr (''[ztab] Invalid JSON format: '' @ concat (take 100 (chars_of line)))
          else io_raise e)"

fun serve :: "ext \<Rightarrow> string list \<Rightarrow> (mcp, unit) io" where
  "serve ext [] = io_return ()"
| "serve ext (raw # lines) = io_bind (process_line ext raw) (\<lambda>_. serve ext lines)"

definition mcp_main :: "ext \<Rightarrow> string list \<Rightarrow> (mcp, unit) io" where
  "mcp_main ext lines =
     io_bind (print_stderr ''[ztab] MCP stdio server starting...'') (\<lambda>_. serve ext lines)"

text \<open>Loading the module: \<^verbatim>\<open>sys.stdout\<close> is rebound to standard error, and nothing is cached.\<close>

definition mcp_start :: "world \<Rightarrow> string \<Rightarrow> mcp" where
  "mcp_start w home = world.extend (w\<lparr>w_sys_stdout := Stderr\<rparr>)
     \<lparr>pw_home = home, backends_mtime_ns = 0, backends_config = None, channel_cache = []\<rparr>"

end
