(* ===== verification/McpInvariant.thy ===== *)
theory McpInvariant
  imports McpServer
begin

text \<open>
  The channel cache invariant of the MCP server and its preservation by every handler and by the
  stdio loop: whatever requests arrive and whatever the outside answers, each cached channel is
  open, trusts exactly one certificate, and that certificate was accepted by the verifier of a
  policy that validated in the process environment.
\<close>

section \<open>The dictionary contract\<close>

locale dict_store =
  fixes lookup :: "'k \<Rightarrow> 'c \<Rightarrow> 'v option"
    and insert :: "'k \<Rightarrow> 'v \<Rightarrow> 'c \<Rightarrow> 'c"
    and remove :: "'k \<Rightarrow> 'c \<Rightarrow> 'c"
    and wf :: "'c \<Rightarrow> bool"
  assumes lookup_insert: "lookup k (insert k' v c) = (if k = k' then Some v else lookup k c)"
    and lookup_remove: "wf c \<Longrightarrow> lookup k (remove k' c) = (if k = k' then None else lookup k c)"
    and wf_insert: "wf c \<Longrightarrow> wf (insert k v c)"
    and wf_remove: "wf c \<Longrightarrow> wf (remove k c)"
begin

lemma reinsert: "lookup k (insert k v (remove k c)) = Some v"
  by (simp add: lookup_insert)

lemma evicted: "wf c \<Longrightarrow> lookup k (remove k c) = None"
  by (simp add: lookup_remove)

lemma others_kept: "wf c \<Longrightarrow> k \<noteq> k' \<Longrightarrow> lookup k (remove k' c) = lookup k c"
  by (simp add: lookup_remove)

end

lemma cache_lookup_Cons:
  "cache_lookup k ((k', v) # c) = (if py_eq k k' then Some v else cache_lookup k c)"
  by (simp add: cache_lookup_def)

lemma cache_lookup_Nil [simp]: "cache_lookup k [] = None"
  by (simp add: cache_lookup_def)

lemma cache_lookup_None_iff:
  "cache_lookup (PStr k) c = None \<longleftrightarrow> PStr k \<notin> fst ` set c"
proof (induction c)
  case (Cons e c)
  then show ?case by (cases e) (auto simp: cache_lookup_Cons image_iff)
qed simp

lemma cache_insert_keys: "fst ` set (cache_insert (PStr k) v c) = insert (PStr k) (fst ` set c)"
  by (induction "PStr k" v c rule: cache_insert.induct) auto

lemma cache_remove_keys: "fst ` set (cache_remove (PStr k) c) \<subseteq> fst ` set c"
  by (induction "PStr k" c rule: cache_remove.induct) auto

interpretation str_cache: dict_store "\<lambda>k. cache_lookup (PStr k)" "\<lambda>k. cache_insert (PStr k)" "\<lambda>k. cache_remove (PStr k)"
  "\<lambda>c. distinct (map fst c)"
proof (unfold_locales, goal_cases)
  case (1 k k' v c)
  show ?case by (induction c) (auto simp: cache_lookup_Cons)
next
  case (2 c k k')
  then show ?case
  proof (induction c)
    case (Cons e c)
    obtain b v where e: "e = (b, v)" by (cases e)
    from Cons have IH: "cache_lookup (PStr k) (cache_remove (PStr k') c) = (if k = k' then None else cache_lookup (PStr k) c)"
      by simp
    have "b = PStr k' \<Longrightarrow> cache_lookup (PStr k') c = None"
      using Cons.prems e by (auto simp: cache_lookup_None_iff)
    with IH show ?case by (auto simp: e cache_lookup_Cons)
  qed simp
next
  case (3 c k v)
  then show ?case
    using cache_insert_keys [of k v] by (induction "PStr k" v c rule: cache_insert.induct) (auto simp flip: set_map)
next
  case (4 c k)
  then show ?case
    using cache_remove_keys [of k] by (induction "PStr k" c rule: cache_remove.induct) (auto simp flip: set_map)
qed

lemma keeps_lift_bind: "(\<And>x. r = Inr x \<Longrightarrow> keeps I (f x)) \<Longrightarrow> keeps I (io_bind (io_lift r) f)"
  by (cases r) (auto simp: keeps_def io_simps)

lemma keeps_conj: "keeps I m \<Longrightarrow> keeps J m \<Longrightarrow> keeps (\<lambda>w. I w \<and> J w) m"
  by (simp add: keeps_def)

lemma cache_insert_fresh:
  assumes "py_hash_in bid (map fst c) = Inr False"
  shows "cache_insert bid e c = c @ [(bid, e)]"
proof -
  from assms have "\<forall>k \<in> fst ` set c. \<not> py_eq bid k" by (auto simp: py_hash_in_def split: if_splits)
  then show ?thesis by (induction bid e c rule: cache_insert.induct) auto
qed

lemma lookup_split:
  assumes "cache_lookup k c = Some e"
  shows "\<exists>xs k' ys. c = xs @ (k', e) # ys \<and> cache_remove k c = xs @ ys"
  using assms
proof (induction k c rule: cache_remove.induct)
  case (2 k k' v' c)
  show ?case
  proof (cases "py_eq k k'")
    case True
    with 2 show ?thesis by (auto simp: cache_lookup_Cons intro: exI [of _ "[]"])
  next
    case False
    with 2 obtain xs k'' ys where "c = xs @ (k'', e) # ys" "cache_remove k c = xs @ ys"
      by (auto simp: cache_lookup_Cons)
    with False show ?thesis by (auto intro!: exI [of _ "(k', v') # xs"])
  qed
qed simp

lemma lookup_none: "cache_lookup k c = None \<Longrightarrow> cache_remove k c = c"
  by (induction k c rule: cache_remove.induct) (auto simp: cache_lookup_Cons split: if_splits)

section \<open>Connecting\<close>

text \<open>The openings and closings of channels among the events.\<close>

fun is_chan_event :: "event \<Rightarrow> bool" where
  "is_chan_event (ChannelOpened _) = True"
| "is_chan_event (ChannelClosed _) = True"
| "is_chan_event _ = False"

definition chan_trace :: "'a world_scheme \<Rightarrow> event list" where
  "chan_trace w = filter is_chan_event (w_events w)"

lemma chan_trace_simps [simp]:
  "chan_trace (w_events_update (\<lambda>es. es @ [e]) w) = chan_trace w @ (if is_chan_event e then [e] else [])"
  "chan_trace (w_tick_update f w) = chan_trace w" "chan_trace (w_out_update g w) = chan_trace w"
  "chan_trace (w_chans_update h w) = chan_trace w"
  by (simp_all add: chan_trace_def)

lemma chan_trace_cong: "w_events w' = w_events w \<Longrightarrow> chan_trace w' = chan_trace w"
  by (simp add: chan_trace_def)

lemma key_traffic_trace: "key_traffic n w w' \<Longrightarrow> chan_trace w' = chan_trace w"
proof -
  assume "key_traffic n w w'"
  then obtain es where "w_events w' = w_events w @ es" "set es \<subseteq> {HttpGet ITA_JWKS_URL}" by (auto simp: key_traffic_def)
  moreover from this(2) have "filter is_chan_event es = []" by (induction es) auto
  ultimately show ?thesis by (simp add: chan_trace_def)
qed

lemma run_verifier_trace: "keeps (\<lambda>w. chan_trace w = tr) (run_verifier ext v token cert)"
proof -
  have "wp (ita_verifier ext q token cert) (\<lambda>_ w'. chan_trace w' = chan_trace w) (\<lambda>_ w'. chan_trace w' = chan_trace w) w" for q w
    by (rule wp_mono [OF ita_verifier_traffic]) (auto dest: key_traffic_trace)
  then have "keeps (\<lambda>w. chan_trace w = tr) (ita_verifier ext q token cert)" for q
    by (force simp: keeps_wp intro: wp_mono)
  moreover have "keeps (\<lambda>w. chan_trace w = tr) (noop_verifier token cert)"
    by (simp add: keeps_wp noop_verifier_def wp_simps)
  ultimately show ?thesis unfolding run_verifier_def
    by (cases v) (auto intro!: keeps_rules keeps_modify simp: emit_def)
qed

lemma attest_server_trace: "keeps (\<lambda>w. chan_trace w = tr) (attest_server ext self)"
  unfolding attest_server_def
  by (intro keeps_rules keeps_bind [OF run_verifier_trace])
    (auto simp: keeps_wp wp_simps fetch_server_cert_pem_def Let_def split: sum.split option.split)

lemma connect_trace:
  "wp (connect ext self) (\<lambda>ch w'. chan_trace w' = chan_trace w @ [ChannelOpened (the (zc_grpc ch))]) (\<lambda>_ w'. chan_trace w' = chan_trace w) w"
  unfolding connect_def wp_bind [of "attest_server ext self"]
  by (rule wp_mono [OF wp_keeps [OF attest_server_trace, of w "chan_trace w"]]) (auto simp: wp_simps split: prod.split)

definition stub_made :: "ext \<Rightarrow> verifier_policy \<Rightarrow> 'a world_scheme \<Rightarrow> cache_entry \<Rightarrow> 'a world_scheme \<Rightarrow> bool" where
  "stub_made ext policy w = (\<lambda>(ch, stub) w'.
     stub = length (w_chans w) \<and> zc_grpc ch = Some stub \<and> get_verifier (w_env w) policy = Inr (zc_verifier ch) \<and>
     chan_trace w' = chan_trace w @ [ChannelOpened stub] \<and>
     (\<exists>gc. w_chans w' = w_chans w @ [gc] \<and> gc_open gc \<and>
        accepted_by ext (zc_verifier ch) (w_env w') (w_events w') (gc_root gc)))"

lemma get_stub_effect:
  "wp (get_stub ext (host, port, policy)) (\<lambda>e w'. quiet w w' \<and> stub_made ext policy w e w')
     (\<lambda>_ w'. quiet w w' \<and> w_chans w' = w_chans w \<and> chan_trace w' = chan_trace w) w" (is "wp _ ?Q ?E w")
proof (cases "get_verifier (w_env w) policy")
  case (Inl e)
  then show ?thesis by (simp add: get_stub_def wp_simps)
next
  case (Inr v)
  let ?ch = "\<lparr>zc_host = host, zc_port = port, zc_verifier = v, zc_grpc = None, zc_token = None, zc_cert = None\<rparr>"
  have "wp (connect ext ?ch) (\<lambda>ch. wp (io_return (ch, the (zc_grpc ch))) ?Q ?E) ?E w"
    by (rule wp_mono [OF wp_conj [OF connect_effect connect_trace]])
      (auto simp: wp_simps stub_made_def Client.connected_def accepted_by_def Inr)
  with Inr show ?thesis by (simp add: get_stub_def wp_simps ZtabChannel_def)
qed

interpretation mcp_conn: connector "get_stub ext" snd
  "\<lambda>(host, port, policy) env es cert. \<exists>v. get_verifier env policy = Inr v \<and> accepted_by ext v env es cert" for ext
proof (unfold_locales, goal_cases)
  case (1 cf w)
  obtain host port policy where cf: "cf = (host, port, policy)" by (cases cf)
  show ?case unfolding cf
    by (rule wp_mono [OF get_stub_effect]) (auto simp: stub_made_def quiet_fields(1))
next
  case (2 cf env es cert es')
  then show ?case by (cases cf) (fastforce simp: accepted_by_def)
qed

lemma quiet_cache:
  fixes w w' :: mcp
  assumes "quiet w w'"
  shows "channel_cache w' = channel_cache w" "backends_config w' = backends_config w"
    "backends_mtime_ns w' = backends_mtime_ns w"
  using quiet_fields(4) [OF assms] by (cases w; cases w'; simp)+

section \<open>Invariants of the server, in layers\<close>

text \<open>
  What a predicate on the server's state must survive to be an invariant: first the primitives that
  loading the configuration uses, then the reload with its cache flush, then the three operations that open and close
  channels, then the writing of a response.  Each layer gives preservation by the code built on it.
\<close>

locale loader_invariant =
  fixes I :: "mcp \<Rightarrow> bool"
  assumes stderr: "keeps I (print_stderr s)"
    and stat: "keeps I (os_stat path)"
    and read: "keeps I (read_file path)"
begin

lemma env: "keeps I (env_get k)"
  by (simp add: env_get_def keeps_rules)

lemma check: "keeps I (check_backends p i seen bs)"
  by (induction p i seen bs rule: check_backends.induct) (auto simp: warn_def intro!: stderr keeps_rules)

lemma valid: "keeps I (validate_backends c p)"
  unfolding validate_backends_def warn_def by (auto intro!: check stderr keeps_rules split: pyval.split)

lemma load: "keeps I (load_backends_from p)"
  unfolding load_backends_from_def by (auto intro!: stderr read valid keeps_rules split: option.split)

lemma path: "keeps I backends_config_path"
  unfolding backends_config_path_def by (auto intro!: env keeps_rules split: option.split list.split)

end

locale config_invariant = loader_invariant +
  assumes new_config: "keeps I (io_modify (backends_config_update (\<lambda>_. c)))"
    and new_mtime: "keeps I (io_modify (backends_mtime_ns_update (\<lambda>_. t)))"
    and flush: "keeps I flush_channels"
begin

lemmas prim = stderr stat read new_config new_mtime flush env

lemma backends: "keeps I get_backends"
  unfolding get_backends_def by (auto intro!: prim load path keeps_rules split: option.split)

lemma backend_info: "keeps I (get_backend_info b)"
  unfolding get_backend_info_def by (intro backends keeps_rules)

lemma common: "keeps I (common_args args)"
  unfolding common_args_def by (auto intro!: backend_info keeps_rules)

end

locale server_invariant = config_invariant +
  fixes ext :: ext
  assumes uuid: "keeps I uuid4"
    and rpc: "keeps I (rpc_send stub req md)"
    and cached_stub: "keeps I (get_cached_stub ext args)"
    and evict: "keeps I (evict_backend args)"
    and connectivity: "keeps I (run_connectivity_test ext conn message)"
begin

lemma rpc_answer: "keeps I (rpc_call stub req md answer)"
  unfolding rpc_call_def by (intro rpc keeps_rules)

lemma nonce: "keeps I (client_nonce args)"
  unfolding client_nonce_def by (intro uuid keeps_rules)

lemma token: "keeps I (participant_token ext args)"
  unfolding participant_token_def pb_str_def by (intro keeps_rules)

lemma catching: "keeps I body \<Longrightarrow> keeps I (catch_rpc args body)"
  unfolding catch_rpc_def by (auto intro!: evict keeps_rules split: exn_kind.split)

lemmas session = rpc_answer nonce token catching cached_stub keeps_rules

lemma list_backends: "keeps I (run_list_backends args)"
  unfolding run_list_backends_def by (auto intro!: backends keeps_rules)

lemma create_session: "keeps I (run_create_session ext args)"
  unfolding run_create_session_def pb_str_def Let_def by (auto intro!: session)

lemma join_session: "keeps I (run_join_session ext args)"
  unfolding run_join_session_def pb_str_def by (auto intro!: session)

lemma accept_policy: "keeps I (run_accept_policy ext args)"
  unfolding run_accept_policy_def by (auto intro!: session)

lemma submit_input: "keeps I (run_submit_input ext args)"
  unfolding run_submit_input_def pb_str_def by (auto intro!: session)

lemma get_result: "keeps I (run_get_result ext args)"
  unfolding run_get_result_def by (auto intro!: session)

lemma session_status: "keeps I (run_get_session_status ext args)"
  unfolding run_get_session_status_def by (auto intro!: session)

lemmas handlers = list_backends create_session join_session accept_policy submit_input get_result session_status

lemma handler: "(n, h) \<in> set (TOOL_HANDLERS ext) \<Longrightarrow> keeps I (h args)"
  unfolding TOOL_HANDLERS_def by (auto intro!: handlers common connectivity keeps_rules)

lemma found_handler: "find_handler ext t = Inr (Some (n, h)) \<Longrightarrow> keeps I (h args)"
  by (rule handler [of n]) (auto simp: find_handler_def dest: map_of_SomeD split: pyval.splits)

lemma tool_run:
  assumes "find_handler ext t = Inr found"
  shows "keeps I (case found of Some (name, h) \<Rightarrow> io_bind (io_lift (validate_required_args name args)) (\<lambda>err.
      case err of Some e \<Rightarrow> io_return e | None \<Rightarrow> run_handler h args) | None \<Rightarrow> io_return r)"
proof (cases found)
  case (Some nh)
  obtain n h where "nh = (n, h)" by (cases nh)
  with found_handler assms Some show ?thesis by (auto simp: run_handler_def intro!: keeps_rules)
qed (simp add: keeps_rules)

lemma call: "keeps I (call_tool ext params)"
  unfolding call_tool_def
  by (rule keeps_lift_bind keeps_bind keeps_return tool_run | assumption)+

lemma request: "keeps I (handle_request ext method params)"
  unfolding handle_request_def by (auto intro!: call keeps_rules)

end

locale loop_invariant = server_invariant +
  assumes response: "keeps I (send r)"
begin

lemma message: "keeps I (process_message ext msg)"
  unfolding process_message_def by (auto intro!: request response stderr keeps_rules split: sum.split)

lemma line: "keeps I (process_line ext raw)"
  unfolding process_line_def Let_def by (auto intro!: message stderr keeps_rules split: sum.split)

lemma loop: "keeps I (serve ext lines)"
  by (induction lines) (auto intro!: line keeps_rules)

lemma main: "keeps I (mcp_main ext lines)"
  unfolding mcp_main_def by (intro loop stderr keeps_rules)

end

section \<open>Invariants about channels\<close>

text \<open>
  The operations that open and close channels, reduced to what they do to the state: storing a new
  channel, evicting one, and opening, using and closing one for a connectivity test, where \<open>J\<close> is
  what holds while that channel is open.
\<close>

locale channel_invariant = config_invariant +
  fixes ext :: ext and J :: "nat \<Rightarrow> mcp \<Rightarrow> bool"
  assumes ch_uuid: "keeps I uuid4"
    and ch_rpc: "keeps I (rpc_send stub req md)"
    and ch_failed: "I w \<Longrightarrow> quiet w w' \<Longrightarrow> w_chans w' = w_chans w \<Longrightarrow> chan_trace w' = chan_trace w \<Longrightarrow> I w'"
    and ch_stored: "I w \<Longrightarrow> quiet w w' \<Longrightarrow> stub_made ext policy w e w' \<Longrightarrow>
          py_hash_in bid (map fst (channel_cache w)) = Inr False \<Longrightarrow> I (channel_cache_update (cache_insert bid e) w')"
    and ch_absent: "I w \<Longrightarrow> cache_lookup bid (channel_cache w) = None \<Longrightarrow> I (channel_cache_update (cache_remove bid) w)"
    and ch_evicted: "I w \<Longrightarrow> cache_lookup bid (channel_cache w) = Some (ch, stub) \<Longrightarrow>
          (case zc_grpc ch of
             None \<Rightarrow> I (channel_cache_update (cache_remove bid) w)
           | Some c \<Rightarrow> I (w_events_update (\<lambda>es. es @ [ChannelClosed c]) (w_chans_update (shut c)
               (channel_cache_update (cache_remove bid) w))))"
    and ch_opened: "I w \<Longrightarrow> quiet w w1 \<Longrightarrow> stub_made ext policy w (ch, stub) w1 \<Longrightarrow> J stub w1"
    and ch_used: "keeps (J stub) (rpc_send stub req md)"
    and ch_closed: "J stub w \<Longrightarrow> I (w_events_update (\<lambda>es. es @ [ChannelClosed stub]) (w_chans_update (shut stub) w))"
begin

lemma opens:
  assumes "I w" "py_hash_in bid (map fst (channel_cache w)) = Inr False"
  shows "wp (open_backend ext bid backend) (\<lambda>_. I) (\<lambda>_. I) w"
proof -
  have "wp (io_bind (get_stub ext (host, port, policy)) (\<lambda>entry.
      io_bind (io_modify (channel_cache_update (cache_insert bid entry))) (\<lambda>_. print_stderr s))) (\<lambda>_. I) (\<lambda>_. I) w"
    for host port policy s
    unfolding wp_bind [of "get_stub _ _"]
  proof (rule wp_mono [OF get_stub_effect], goal_cases)
    case (1 e w')
    then have "I (channel_cache_update (cache_insert bid e) w')" using ch_stored assms by blast
    from wp_keeps [OF stderr this] show ?case by (simp only: wp_bind wp_modify)
  next
    case (2 e w')
    with ch_failed assms(1) show ?case by blast
  qed
  with assms(1) show ?thesis unfolding open_backend_def wp_bind [of "io_lift _"] wp_lift
    by (auto split: sum.split)
qed

lemma gets: "keeps I (get_cached_stub ext args)"
proof -
  have "wp (io_bind (io_get channel_cache) (\<lambda>cache. io_bind (io_lift (py_hash_in bid (map fst cache))) (\<lambda>cached.
      io_bind (if \<not> cached then open_backend ext bid backend else io_return ()) (\<lambda>_.
      io_bind (io_get (\<lambda>w. the (cache_lookup bid (channel_cache w)))) (\<lambda>(channel, stub). io_return (channel, stub, backend))))))
      (\<lambda>_. I) (\<lambda>_. I) w" if "I w" for w bid backend
  proof (cases "py_hash_in bid (map fst (channel_cache w))")
    case (Inr cached)
    show ?thesis
    proof (cases cached)
      case False
      with Inr wp_mono [OF opens [OF that]] show ?thesis by (simp add: wp_simps split: prod.split)
    qed (use Inr that in \<open>simp add: wp_simps split: prod.split\<close>)
  qed (use that in \<open>simp add: wp_simps\<close>)
  note tail = this
  show ?thesis
    unfolding get_cached_stub_def
    by (rule keeps_bind [OF keeps_lift], rule keeps_bind [OF backend_info], rule keeps_bind [OF keeps_lift])
      (simp add: keeps_wp tail)
qed

lemma evicts: "keeps I (evict_backend args)"
proof -
  have "wp (io_bind (io_get channel_cache) (\<lambda>cache. io_bind (io_lift (py_hash_in bid (map fst cache))) (\<lambda>_.
      io_bind (io_modify (channel_cache_update (cache_remove bid))) (\<lambda>_.
      case cache_lookup bid cache of None \<Rightarrow> io_return ()
      | Some (channel, _) \<Rightarrow> io_bind (io_catch (io_bind (zc_close channel) (\<lambda>_. io_return ())) (\<lambda>_. io_return ())) (\<lambda>_.
          print_stderr s)))))
      (\<lambda>_. I) (\<lambda>_. I) w" if ok: "I w" for w bid s
  proof (cases "py_hash_in bid (map fst (channel_cache w))")
    case (Inr b)
    show ?thesis
    proof (cases "cache_lookup bid (channel_cache w)")
      case None
      with Inr ch_absent [OF ok None] show ?thesis by (simp add: wp_simps)
    next
      case (Some e)
      obtain ch stub where e: "e = (ch, stub)" by (cases e)
      note ev = ch_evicted [OF ok Some [unfolded e]] wp_keeps [OF stderr]
      from ev Inr Some e show ?thesis
        by (cases "zc_grpc ch")
          (simp_all only: wp_bind wp_get wp_lift wp_modify wp_catch zc_close_def wp_close_channel wp_return sum.case option.case prod.case)
    qed
  qed (use ok in \<open>simp add: wp_simps\<close>)
  note tail = this
  show ?thesis
    unfolding evict_backend_def
    by (rule keeps_bind [OF keeps_lift], rule keeps_bind [OF backend_info], rule keeps_bind [OF keeps_lift])
      (simp add: keeps_wp tail)
qed

lemma tests: "keeps I (run_connectivity_test ext conn message)"
proof (subst keeps_wp, intro allI impI)
  fix w assume ok: "I w"
  obtain host port policy where conn: "conn = (host, port, policy)" by (cases conn)
  have body: "keeps (J stub) (io_bind (pb_str ext message) (\<lambda>msg.
        io_bind (rpc_call stub (EchoRequest msg) None (\<lambda>b. b_echo b msg)) (f msg)))"
    if "\<And>msg r. \<exists>v. f msg r = io_return v" for stub f
    using that unfolding pb_str_def rpc_call_def
    by (intro keeps_bind keeps_lift ch_used) (metis keeps_return)
  have closing: "wp (io_bind (zc_close ch) (\<lambda>_. io_return r)) (\<lambda>_. I) (\<lambda>_. I) w1"
    if "J stub w1" "zc_grpc ch = Some stub" for ch stub w1 and r :: pyval
    using ch_closed [OF that(1)] that(2) by (simp add: zc_close_def wp_simps)
  show "wp (run_connectivity_test ext conn message) (\<lambda>_. I) (\<lambda>_. I) w"
    unfolding run_connectivity_test_def conn wp_bind [of "get_stub _ _"]
  proof (rule wp_mono [OF get_stub_effect], goal_cases)
    case (1 e w1)
    obtain ch stub where e: "e = (ch, stub)" by (cases e)
    with 1 have grpc: "zc_grpc ch = Some stub" by (simp add: stub_made_def)
    from 1 e have j: "J stub w1" using ch_opened [OF ok] by blast
    show ?case
      unfolding e prod.case wp_bind [of "io_catch _ _"] wp_catch Let_def wp_return
      by (rule wp_mono [OF wp_keeps [OF body j]], blast) (rule closing [OF _ grpc], assumption)+
  next
    case (2 e w')
    with ch_failed ok show ?case by blast
  qed
qed

end

sublocale channel_invariant \<subseteq> server_invariant I ext
  by unfold_locales (rule ch_uuid ch_rpc gets evicts tests)+

end
