(* ===== verification/McpSafety.thy ===== *)
theory McpSafety
  imports McpInvariant
begin

text \<open>
  The security invariant of the MCP server: every channel it ever opened was accepted by the verifier
  of a policy that validated in the process environment, every RPC went over such a channel after
  that verdict, and every cached stub is bound to an open channel of its own.  It is an instance of
  \<open>loop_invariant\<close>, so it survives every request whatever the outside answers.
\<close>

section \<open>The invariant\<close>

text \<open>A verifier that came out of the factory in this environment has accepted the certificate.\<close>

definition factory_accepted :: "ext \<Rightarrow> env \<Rightarrow> event list \<Rightarrow> bytes \<Rightarrow> bool" where
  "factory_accepted ext env es cert \<longleftrightarrow>
     (\<exists>p v. get_verifier env p = Inr v \<and> accepted_by ext v env es cert)"

definition chans_ok :: "ext \<Rightarrow> mcp \<Rightarrow> bool" where
  "chans_ok ext w \<longleftrightarrow> (\<forall>gc \<in> set (w_chans w). factory_accepted ext (w_env w) (w_events w) (gc_root gc))"

definition rpcs_ok :: "ext \<Rightarrow> mcp \<Rightarrow> bool" where
  "rpcs_ok ext w \<longleftrightarrow> (\<forall>es c req md es'. w_events w = es @ RpcSent c req md # es' \<longrightarrow>
     c < length (w_chans w) \<and> factory_accepted ext (w_env w) es (gc_root (w_chans w ! c)))"

definition entry_ok :: "mcp \<Rightarrow> cache_entry \<Rightarrow> bool" where
  "entry_ok w = (\<lambda>(ch, stub). zc_grpc ch = Some stub \<and> stub < length (w_chans w) \<and> gc_open (w_chans w ! stub))"

definition cache_ok :: "mcp \<Rightarrow> bool" where
  "cache_ok w \<longleftrightarrow> (\<forall>e \<in> set (map snd (channel_cache w)). entry_ok w e) \<and>
     distinct (map (snd \<circ> snd) (channel_cache w))"

definition mcp_ok :: "ext \<Rightarrow> mcp \<Rightarrow> bool" where
  "mcp_ok ext w \<longleftrightarrow> chans_ok ext w \<and> rpcs_ok ext w \<and> cache_ok w"

lemma factory_accepted_mono: "factory_accepted ext env es cert \<Longrightarrow> factory_accepted ext env (es @ es') cert"
  unfolding factory_accepted_def accepted_by_def by fastforce

text \<open>A step that leaves cache and old channels alone, adds only accepted channels and sends no RPC.\<close>

definition extends :: "ext \<Rightarrow> mcp \<Rightarrow> mcp \<Rightarrow> bool" where
  "extends ext w w' \<longleftrightarrow> w_env w' = w_env w \<and> channel_cache w' = channel_cache w \<and>
     (\<exists>es. w_events w' = w_events w @ es \<and> (\<forall>e \<in> set es. \<not> is_rpc e)) \<and>
     (\<exists>gcs. w_chans w' = w_chans w @ gcs \<and>
        (\<forall>gc \<in> set gcs. factory_accepted ext (w_env w') (w_events w') (gc_root gc)))"

lemma rpc_in_prefix:
  assumes "w @ es = xs @ RpcSent c req md # ys" "\<forall>e \<in> set es. \<not> is_rpc e"
  shows "\<exists>zs. w = xs @ RpcSent c req md # zs"
proof -
  from assms have "\<not> length w \<le> length xs"
    by (auto simp: append_eq_append_conv_if split: if_splits)
  with assms(1) show ?thesis by (auto simp: append_eq_append_conv2 append_eq_Cons_conv)
qed

lemma rpcs_ok_grow:
  assumes "rpcs_ok ext w" "w_events w' = w_events w @ es" "\<forall>e \<in> set es. \<not> is_rpc e" "w_env w' = w_env w"
    "length (w_chans w) \<le> length (w_chans w')"
    "\<And>c. c < length (w_chans w) \<Longrightarrow> gc_root (w_chans w' ! c) = gc_root (w_chans w ! c)"
  shows "rpcs_ok ext w'"
  unfolding rpcs_ok_def
proof (intro allI impI)
  fix xs c req md ys
  assume "w_events w' = xs @ RpcSent c req md # ys"
  with rpc_in_prefix [OF _ assms(3)] assms(2) obtain zs where "w_events w = xs @ RpcSent c req md # zs" by metis
  with assms(1) have "c < length (w_chans w)" "factory_accepted ext (w_env w) xs (gc_root (w_chans w ! c))"
    unfolding rpcs_ok_def by blast+
  with assms(4-6) show "c < length (w_chans w') \<and> factory_accepted ext (w_env w') xs (gc_root (w_chans w' ! c))" by simp
qed

lemma extends_ok:
  assumes "extends ext w w'" "mcp_ok ext w"
  shows "mcp_ok ext w'"
proof -
  from assms(1) obtain es gcs where
    e: "w_events w' = w_events w @ es" "\<forall>e \<in> set es. \<not> is_rpc e" and
    c: "w_chans w' = w_chans w @ gcs" "\<forall>gc \<in> set gcs. factory_accepted ext (w_env w') (w_events w') (gc_root gc)" and
    s: "w_env w' = w_env w" "channel_cache w' = channel_cache w"
    by (auto simp: extends_def)
  have "chans_ok ext w'"
    using assms(2) c by (auto simp: mcp_ok_def chans_ok_def s e factory_accepted_mono)
  moreover have "rpcs_ok ext w'"
    using assms(2) by - (rule rpcs_ok_grow [OF _ e], simp_all add: mcp_ok_def s c nth_append)
  moreover have "cache_ok w'"
    using assms(2) by (auto simp: mcp_ok_def cache_ok_def entry_ok_def s c nth_append)
  ultimately show ?thesis by (simp add: mcp_ok_def)
qed

lemma extends_refl [simp]: "extends ext w w"
  by (simp add: extends_def)

lemma keeps_extends:
  assumes "\<And>w. wp m (\<lambda>_. extends ext w) (\<lambda>_. extends ext w) w"
  shows "keeps (mcp_ok ext) m"
proof (subst keeps_wp, intro allI impI)
  fix w assume "mcp_ok ext w"
  then show "wp m (\<lambda>_. mcp_ok ext) (\<lambda>_. mcp_ok ext) w"
    by (intro wp_mono [OF assms]) (rule extends_ok, assumption+)+
qed

section \<open>Closing and calling\<close>

lemma ok_close:
  assumes "mcp_ok ext w" "c \<notin> set (map (snd \<circ> snd) (channel_cache w))"
  shows "mcp_ok ext (w_events_update (\<lambda>es. es @ [ChannelClosed c]) (w_chans_update (shut c) w))"
proof -
  let ?w = "w_events_update (\<lambda>es. es @ [ChannelClosed c]) (w_chans_update (shut c) w)"
  have roots: "map gc_root (shut c (w_chans w)) = map gc_root (w_chans w)"
    by (rule nth_equalityI) (auto simp: nth_shut)
  then have "gc_root ` set (shut c (w_chans w)) = gc_root ` set (w_chans w)"
    by (metis set_map)
  moreover have "\<forall>r \<in> gc_root ` set (w_chans w). factory_accepted ext (w_env w) (w_events w @ [ChannelClosed c]) r"
    using assms(1) by (auto simp: mcp_ok_def chans_ok_def factory_accepted_mono)
  ultimately have "\<forall>r \<in> gc_root ` set (shut c (w_chans w)). factory_accepted ext (w_env w) (w_events w @ [ChannelClosed c]) r"
    by simp
  then have "chans_ok ext ?w" by (simp add: chans_ok_def)
  moreover have "rpcs_ok ext ?w"
    using assms(1) by - (rule rpcs_ok_grow [of ext w _ "[ChannelClosed c]"], simp_all add: mcp_ok_def nth_shut)
  moreover have "cache_ok ?w"
  proof -
    have "entry_ok ?w e" if "entry_ok w e" "snd e \<noteq> c" for e
      using that by (cases e) (simp add: entry_ok_def nth_shut)
    moreover have "snd (snd x) \<noteq> c" if "x \<in> set (channel_cache w)" for x
      using assms(2) that by auto
    ultimately show ?thesis using assms(1) by (simp add: mcp_ok_def cache_ok_def)
  qed
  ultimately show ?thesis by (simp add: mcp_ok_def)
qed

lemma keeps_rpc_send: "keeps (mcp_ok ext) (rpc_send c req md)"
proof (subst keeps_wp, intro allI impI)
  fix w assume ok: "mcp_ok ext w"
  let ?w = "w_events_update (\<lambda>es. es @ [RpcSent c req md]) (w_tick_update Suc w)"
  have tick: "mcp_ok ext (w_tick_update Suc w)"
    using ok by (simp add: mcp_ok_def chans_ok_def rpcs_ok_def cache_ok_def entry_ok_def)
  have "mcp_ok ext ?w" if "c < length (w_chans w)"
  proof -
    have "chans_ok ext ?w" "cache_ok ?w"
      using ok by (auto simp: mcp_ok_def chans_ok_def cache_ok_def entry_ok_def factory_accepted_mono)
    moreover have "rpcs_ok ext ?w"
      unfolding rpcs_ok_def
    proof (intro allI impI)
      fix es c' req' md' es'
      assume split: "w_events ?w = es @ RpcSent c' req' md' # es'"
      show "c' < length (w_chans ?w) \<and> factory_accepted ext (w_env ?w) es (gc_root (w_chans ?w ! c'))"
      proof (cases es' rule: rev_cases)
        case Nil
        with split have "es = w_events w" "c' = c" by simp_all
        then show ?thesis using ok that by (simp add: mcp_ok_def chans_ok_def)
      next
        case (snoc zs z)
        with split have "w_events w = es @ RpcSent c' req' md' # zs" by simp
        with ok show ?thesis by (simp add: mcp_ok_def rpcs_ok_def) blast
      qed
    qed
    ultimately show ?thesis by (simp add: mcp_ok_def)
  qed
  with tick show "wp (rpc_send c req md) (\<lambda>_. mcp_ok ext) (\<lambda>_. mcp_ok ext) w"
    by (simp add: wp_simps Let_def)
qed

section \<open>Connecting\<close>

lemma quiet_extends:
  assumes "quiet w w'" "w_chans w' = w_chans w @ gcs"
    "\<forall>gc \<in> set gcs. factory_accepted ext (w_env w') (w_events w') (gc_root gc)"
  shows "extends ext w w'"
  using assms by (auto simp: extends_def quiet_fields quiet_cache) (auto simp: quiet_def)

lemma stub_made_extends:
  assumes "quiet w w'" "stub_made ext policy w e w'"
  shows "extends ext w w'"
proof -
  obtain ch stub where e: "e = (ch, stub)" by (cases e)
  with assms(2) obtain gc where gc: "w_chans w' = w_chans w @ [gc]"
    "accepted_by ext (zc_verifier ch) (w_env w') (w_events w') (gc_root gc)"
    "get_verifier (w_env w') policy = Inr (zc_verifier ch)"
    by (auto simp: stub_made_def quiet_fields(1) [OF assms(1)])
  then have "factory_accepted ext (w_env w') (w_events w') (gc_root gc)"
    unfolding factory_accepted_def by blast
  with gc(1) show ?thesis by (intro quiet_extends [OF assms(1)]) auto
qed

lemma ok_store:
  assumes "mcp_ok ext w" "quiet w w'" "stub_made ext policy w e w'" "py_hash_in bid (map fst (channel_cache w)) = Inr False"
  shows "mcp_ok ext (channel_cache_update (cache_insert bid e) w')"
proof -
  obtain ch stub where e: "e = (ch, stub)" by (cases e)
  have c: "channel_cache (channel_cache_update (cache_insert bid e) w') = channel_cache w @ [(bid, e)]"
    by (simp add: quiet_cache [OF assms(2)] cache_insert_fresh [OF assms(4)])
  have ok: "mcp_ok ext w'"
    using extends_ok [OF stub_made_extends] assms by blast
  have old: "\<forall>e \<in> set (map snd (channel_cache w)). snd e < length (w_chans w)"
    using assms(1) by (auto simp: mcp_ok_def cache_ok_def entry_ok_def)
  have new: "entry_ok w' e" "snd e = length (w_chans w)"
    using assms(3) e by (auto simp: stub_made_def entry_ok_def)
  have "cache_ok (channel_cache_update (cache_insert bid e) w')"
    using ok old new unfolding cache_ok_def c by (auto simp: mcp_ok_def cache_ok_def quiet_cache [OF assms(2)] entry_ok_def)
  with ok show ?thesis by (simp add: mcp_ok_def chans_ok_def rpcs_ok_def)
qed

section \<open>The operations on channels keep the invariant\<close>

lemma keeps_same:
  assumes "\<And>w. w_env (f w) = w_env w \<and> w_events (f w) = w_events w \<and> w_chans (f w) = w_chans w \<and> channel_cache (f w) = channel_cache w"
  shows "keeps (mcp_ok ext) (io_modify f)"
  by (rule keeps_extends) (simp add: wp_simps extends_def assms)

lemma keeps_flush: "keeps (mcp_ok ext) flush_channels"
proof (subst keeps_wp, intro allI impI)
  fix w assume ok: "mcp_ok ext w"
  have "wp (close_all c) (\<lambda>_ w'. mcp_ok ext (w'\<lparr>channel_cache := []\<rparr>)) (\<lambda>_ _. False) w"
    if "mcp_ok ext (w\<lparr>channel_cache := []\<rparr>)" for c w
    using that
  proof (induction c arbitrary: w rule: close_all.induct)
    case (2 k ch s c)
    show ?case
    proof (cases "zc_grpc ch")
      case (Some i)
      let ?w = "w_events_update (\<lambda>es. es @ [ChannelClosed i]) (w_chans_update (shut i) w)"
      have "?w\<lparr>channel_cache := []\<rparr> =
          w_events_update (\<lambda>es. es @ [ChannelClosed i]) (w_chans_update (shut i) (w\<lparr>channel_cache := []\<rparr>))"
        by (cases w) simp
      then have "mcp_ok ext (?w\<lparr>channel_cache := []\<rparr>)" by (simp only:) (rule ok_close [OF "2.prems"], simp)
      from "2.IH" [OF this] Some show ?thesis by (simp add: wp_simps zc_close_def)
    qed (use 2 in \<open>simp add: wp_simps zc_close_def\<close>)
  qed (simp add: wp_simps)
  moreover from ok have "mcp_ok ext (w\<lparr>channel_cache := []\<rparr>)"
    by (simp add: mcp_ok_def chans_ok_def rpcs_ok_def cache_ok_def)
  ultimately have "wp (close_all (channel_cache w)) (\<lambda>_ w'. mcp_ok ext (w'\<lparr>channel_cache := []\<rparr>)) (\<lambda>_ _. False) w" by blast
  then show "wp flush_channels (\<lambda>_. mcp_ok ext) (\<lambda>_. mcp_ok ext) w"
    unfolding flush_channels_def wp_bind wp_get by (rule wp_mono) (simp_all add: wp_simps)
qed

interpretation mcp_ok: config_invariant "mcp_ok ext" for ext
proof (unfold_locales, goal_cases)
  case (6) show ?case by (rule keeps_flush)
qed (rule keeps_extends, auto simp: wp_simps extends_def Let_def split: sum.split)+

text \<open>Taking an entry out and closing its channel leaves the other entries open.\<close>

lemma ok_evict:
  assumes "mcp_ok ext w" "cache_lookup bid (channel_cache w) = Some (ch, stub)"
  shows "mcp_ok ext (channel_cache_update (cache_remove bid) w)" "zc_grpc ch = Some stub"
    "stub \<notin> set (map (snd \<circ> snd) (cache_remove bid (channel_cache w)))"
proof -
  from lookup_split [OF assms(2)] obtain xs k' ys where
    c: "channel_cache w = xs @ (k', (ch, stub)) # ys" "cache_remove bid (channel_cache w) = xs @ ys" by blast
  from assms(1) show "zc_grpc ch = Some stub" by (auto simp: mcp_ok_def cache_ok_def c(1) entry_ok_def)
  from assms(1) show "stub \<notin> set (map (snd \<circ> snd) (cache_remove bid (channel_cache w)))"
    unfolding c(2) by (auto simp: mcp_ok_def cache_ok_def c(1))
  have "channel_cache (channel_cache_update (cache_remove bid) w) = xs @ ys" using c(2) by simp
  with assms(1) have "cache_ok (channel_cache_update (cache_remove bid) w)"
    unfolding mcp_ok_def cache_ok_def [of "channel_cache_update _ _"] by (simp add: cache_ok_def c(1) entry_ok_def)
  with assms(1) show "mcp_ok ext (channel_cache_update (cache_remove bid) w)"
    by (simp add: mcp_ok_def chans_ok_def rpcs_ok_def)
qed

interpretation mcp_ok: channel_invariant "mcp_ok ext" ext "\<lambda>stub w. mcp_ok ext w \<and> stub \<notin> set (map (snd \<circ> snd) (channel_cache w))"
  for ext
proof (unfold_locales, goal_cases)
  case 1 show ?case by (rule keeps_extends) (simp add: wp_simps extends_def)
next
  case 2 show ?case by (rule keeps_rpc_send)
next
  case (3 w w')
  then show ?case using extends_ok [OF quiet_extends [of w w' "[]" ext]] by simp
next
  case (4 w w' policy e bid)
  then show ?case by (rule ok_store)
next
  case (5 w bid)
  then show ?case by (simp add: mcp_ok_def chans_ok_def rpcs_ok_def cache_ok_def entry_ok_def lookup_none)
next
  case (6 w bid ch stub)
  note ev = ok_evict [OF 6]
  have "mcp_ok ext (w_events_update (\<lambda>es. es @ [ChannelClosed stub]) (w_chans_update (shut stub)
      (channel_cache_update (cache_remove bid) w)))"
    by (rule ok_close [OF ev(1)]) (use ev(3) in simp)
  with ev(2) show ?case by simp
next
  case (7 w w1 policy ch stub)
  have "mcp_ok ext w1" using extends_ok stub_made_extends 7 by blast
  moreover have "stub = length (w_chans w)" using 7 by (simp add: stub_made_def)
  moreover have "\<forall>x \<in> set (channel_cache w). snd (snd x) < length (w_chans w)"
    using 7(1) by (auto simp: mcp_ok_def cache_ok_def entry_ok_def)
  ultimately show ?case using 7(2) by (fastforce simp: quiet_cache)
next
  case (8 stub req md)
  show ?case by (rule keeps_conj [OF keeps_rpc_send]) (simp add: keeps_wp wp_simps Let_def)
next
  case (9 stub w)
  then show ?case by (intro ok_close) simp_all
qed

interpretation mcp_ok: loop_invariant "mcp_ok ext" ext for ext
  by unfold_locales (rule keeps_extends, simp add: send_def wp_simps extends_def)

lemma mcp_ok_start: "w_chans w = [] \<Longrightarrow> w_events w = [] \<Longrightarrow> mcp_ok ext (mcp_start w home)"
  by (simp add: mcp_ok_def chans_ok_def rpcs_ok_def cache_ok_def mcp_start_def world.extend_def)

end
