(* ===== verification/McpDemo.thy ===== *)
theory McpDemo
  imports McpServer
begin

text \<open>
  Concrete surroundings for the MCP server: instances on which the properties of the later theories
  are evaluated.
\<close>

section \<open>A request\<close>

text \<open>
  A test environment with one backend that uses the no-op verifier, a server certificate with an
  attestation extension, and a broker that answers status requests; one \<^verbatim>\<open>tools/call\<close> request.
\<close>

definition js :: "string \<Rightarrow> string" where
  "js s = dquote_char # s @ [dquote_char]"

definition demo_config :: string where
  "demo_config = ''{'' @ js ''default_backend'' @ '':'' @ js ''b'' @ '','' @ js ''backends'' @ '':[{'' @ js ''backend_id'' @ '':''
     @ js ''b'' @ '','' @ js ''host'' @ '':'' @ js ''h'' @ '','' @ js ''port'' @ '':true,'' @ js ''verifier'' @ '':'' @ js ''noop'' @ ''}]}''"

definition demo_line :: string where
  "demo_line = ''{'' @ js ''id'' @ '':'' @ js ''1'' @ '','' @ js ''method'' @ '':'' @ js ''tools/call'' @ '','' @ js ''params'' @ '':{''
     @ js ''name'' @ '':'' @ js ''ztab_get_session_status'' @ '','' @ js ''arguments'' @ '':{'' @ js ''participant_token'' @ '':''
     @ js ''tok'' @ ''}}}''"

definition demo_ext :: ext where
  "demo_ext = null_ext\<lparr>der_to_pem := Inr, pem_extension := \<lambda>_ _. Inr (Some [4, 1, 116]), pb_string := \<lambda>v. Inr (py_str v)\<rparr>"

definition demo_world :: world where
  "demo_world = null_world\<lparr>w_env := [''ZTAB_TEST_ENVIRONMENT'' \<mapsto> ''1'', ''ZTAB_BACKENDS_FILE'' \<mapsto> ''f''],
     w_stat := \<lambda>_ _. Inr 1, w_file := \<lambda>_ _. Inr demo_config, w_tls := \<lambda>_ _ _. Inr (Some [9]),
     w_broker := \<lambda>_ _. null_broker\<lparr>b_status := \<lambda>_. Inr \<lparr>st_state = 2, st_joined = 2, st_accepted = 2, st_inputs = 0\<rparr>\<rparr>\<rparr>"

section \<open>A server with one cached channel\<close>

definition demo_backend :: pyval where
  "demo_backend = PDict [(''backend_id'', PStr ''b''), (''host'', PStr ''h''), (''port'', PBool True), (''verifier'', PStr ''noop'')]"

definition demo_loaded :: pyval where
  "demo_loaded = PDict [(''default_backend'', PStr ''b''), (''backends'', PList [demo_backend])]"

definition demo_chan :: ztab_channel where
  "demo_chan = \<lparr>zc_host = PStr ''h'', zc_port = 1, zc_verifier = noop_verifier_fn, zc_grpc = Some 0,
     zc_token = Some ''t'', zc_cert = Some [9]\<rparr>"

definition demo_state :: mcp where
  "demo_state = (mcp_start demo_world ''/'')\<lparr>backends_mtime_ns := 1, backends_config := Some demo_loaded,
     channel_cache := [(PStr ''b'', (demo_chan, 0))],
     w_chans := [\<lparr>gc_target = ''h:1'', gc_root = [9], gc_override = ''ztab-tee'', gc_open = True\<rparr>]\<rparr>"

text \<open>The same server while the file is rewritten: the next read fails, the one after succeeds.\<close>

definition flaky_state :: mcp where
  "flaky_state = demo_state\<lparr>w_stat := \<lambda>n _. Inr (int n + 2),
     w_file := \<lambda>n _. Inr (if n < 2 then ''junk'' else demo_config)\<rparr>"

lemma demo_state_fields:
  "w_stat demo_state = (\<lambda>_ _. Inr 1)" "backends_mtime_ns demo_state = 1" "backends_config demo_state = Some demo_loaded"
  "channel_cache demo_state = [(PStr ''b'', (demo_chan, 0))]" "zc_grpc demo_chan = Some 0" "length (w_chans demo_state) = 1"
  by (simp_all add: demo_state_def mcp_start_def world.extend_def demo_world_def demo_chan_def)

lemma demo_resolve: "resolve_backend (Some demo_loaded) PNone = Inr demo_backend"
  by code_simp

lemma demo_backend_id: "py_item demo_backend ''backend_id'' = Inr (PStr ''b'')"
  by (simp add: py_item_def demo_backend_def)

end
