(* ===== verification/McpCache.thy ===== *)
theory McpCache
  imports McpSafety McpDemo
begin

text \<open>
  How configuration and channel cache evolve: a run of \<open>get_backends\<close> in closed form, and what reload, reuse and eviction do
  to the cached channels.
\<close>

section \<open>Loading leaves channels and cache alone\<close>

definition frozen :: "mcp \<Rightarrow> mcp \<Rightarrow> bool" where
  "frozen w w' \<longleftrightarrow> channel_cache w' = channel_cache w \<and> w_chans w' = w_chans w \<and> w_events w' = w_events w \<and>
     backends_config w' = backends_config w \<and> backends_mtime_ns w' = backends_mtime_ns w \<and> w_env w' = w_env w"

interpretation frozen: loader_invariant "frozen w" for w
  by unfold_locales (auto simp: keeps_wp wp_simps frozen_def split: sum.split)

lemma load_frozen: "load_backends_from p w = (r, w') \<Longrightarrow> frozen w w'"
  using keepsD_run [OF frozen.load, of p w r w' w] by (simp add: frozen_def)

definition config_path :: "mcp \<Rightarrow> string" where
  "config_path w = (case w_env w ''ZTAB_BACKENDS_FILE'' of
      Some (c # p) \<Rightarrow> c # p | _ \<Rightarrow> expand_home (w_env w) (pw_home w))"

lemma config_path_run: "backends_config_path w = (Inr (config_path w), w)"
  by (auto simp: backends_config_path_def config_path_def env_get_def io_simps split: option.split list.split)

text \<open>The cache flush as a state change.\<close>

definition closed_all :: "(pyval \<times> cache_entry) list \<Rightarrow> mcp \<Rightarrow> mcp" where
  "closed_all c w = snd (close_all c w)"

lemma close_all_run: "close_all c w = (Inr (), closed_all c w)"
proof -
  have "wp (close_all c) (\<lambda>_ _. True) (\<lambda>_ _. False) w"
    by (induction c arbitrary: w rule: close_all.induct) (auto simp: wp_simps zc_close_def split: option.split)
  then show ?thesis by (auto simp: closed_all_def wp_def split: prod.splits sum.splits)
qed

lemma flush_run: "flush_channels w = (Inr (), (closed_all (channel_cache w) w)\<lparr>channel_cache := []\<rparr>)"
  by (simp add: flush_channels_def io_simps close_all_run)

text \<open>Closing: afterwards exactly the named channels are shut, the others are as before.\<close>

lemma closed_all_chans:
  "i < length (w_chans w) \<Longrightarrow> length (w_chans (closed_all c w)) = length (w_chans w) \<and>
    w_chans (closed_all c w) ! i =
      (if Some i \<in> zc_grpc ` fst ` snd ` set c then (w_chans w ! i)\<lparr>gc_open := False\<rparr> else w_chans w ! i)"
proof (induction c arbitrary: w rule: close_all.induct)
  case 1
  then show ?case by (simp add: closed_all_def io_simps)
next
  case (2 k ch s c)
  show ?case
  proof (cases "zc_grpc ch")
    case None
    then have "closed_all ((k, ch, s) # c) w = closed_all c w"
      by (simp add: closed_all_def io_simps zc_close_def)
    with 2 None show ?thesis by auto
  next
    case (Some j)
    let ?w = "w_events_update (\<lambda>es. es @ [ChannelClosed j]) (w_chans_update (shut j) w)"
    have "closed_all ((k, ch, s) # c) w = closed_all c ?w"
      using Some by (simp add: closed_all_def io_simps zc_close_def close_channel_def emit_def)
    with 2 "2.IH" [of ?w] Some show ?thesis by (auto simp: nth_shut)
  qed
qed

lemma closed_all_length: "length (w_chans (closed_all c w)) = length (w_chans w)"
proof -
  have "keeps (\<lambda>w'. length (w_chans w') = n) (close_all c)" for n
    by (induction c rule: close_all.induct)
      (auto intro!: keeps_rules simp: zc_close_def close_channel_def emit_def keeps_modify split: option.split)
  from keepsD [OF this, of w "length (w_chans w)"] show ?thesis by (simp add: closed_all_def)
qed

section \<open>A reload in closed form\<close>

definition reloaded :: "pyval option \<Rightarrow> int \<Rightarrow> mcp \<Rightarrow> mcp" where
  "reloaded new mtime w = (let w' = (if backends_config w \<noteq> None \<and> new \<noteq> None
      then (let w' = w_out_update (\<lambda>ls. ls @ [(Stderr, ''[ztab] backends.json changed, reloading and flushing channel cache'')]) w
            in (closed_all (channel_cache w) w')\<lparr>channel_cache := []\<rparr>) else w)
     in w'\<lparr>backends_config := new, backends_mtime_ns := mtime\<rparr>)"

lemma get_backends_run:
  "get_backends w = (let w1 = w_tick_update Suc w in
     case w_stat w (w_tick w) (config_path w) of
       Inl e \<Rightarrow> (if exn_kind e = FileNotFoundError then Inr None else Inl e, w1)
     | Inr mtime \<Rightarrow>
         if mtime = backends_mtime_ns w then (Inr (backends_config w), w1)
         else (case load_backends_from (config_path w) w1 of
             (Inl e, w2) \<Rightarrow> (Inl e, w2)
           | (Inr new, w2) \<Rightarrow> (Inr new, reloaded new mtime w2)))"
  by (auto simp: get_backends_def io_simps config_path_run os_stat_def tick_def Let_def reloaded_def flush_run
        print_stderr_def write_line_def split: sum.split prod.split option.split)

section \<open>Lookup\<close>

lemma get_backend_info_run:
  "get_backend_info b w = (case get_backends w of (Inl e, w') \<Rightarrow> (Inl e, w') | (Inr c, w') \<Rightarrow> (resolve_backend c b, w'))"
  by (simp add: get_backend_info_def io_bind_run io_lift_run split: sum.split prod.split)

lemma get_backends_unchanged:
  "w_stat w (w_tick w) (config_path w) = Inr (backends_mtime_ns w) \<Longrightarrow>
   get_backends w = (Inr (backends_config w), w_tick_update Suc w)"
  by (simp add: get_backends_run Let_def)

section \<open>Properties\<close>

text \<open>
  One connection per backend.  While \<^verbatim>\<open>backends.json\<close> is unchanged, a request for a backend whose
  channel is cached gets exactly that channel and stub: no TLS connection, no verifier run, no
  output, no change of state.
\<close>

theorem cached_stub_reused:
  assumes "w_stat w (w_tick w) (config_path w) = Inr (backends_mtime_ns w)"
    and "py_get args ''backend'' PNone = Inr b" and "resolve_backend (backends_config w) b = Inr backend"
    and "py_item backend ''backend_id'' = Inr (PStr k)"
    and "cache_lookup (PStr k) (channel_cache w) = Some (ch, stub)"
  shows "get_cached_stub ext args w = (Inr (ch, stub, backend), w_tick_update Suc w)"
proof -
  have "PStr k \<in> fst ` set (channel_cache w)"
    using assms(5) cache_lookup_None_iff [of k "channel_cache w"] by auto
  with assms get_backend_info_run [of b w] get_backends_unchanged [OF assms(1)] show ?thesis
    by (simp add: get_cached_stub_def io_simps del: py_get_Inr)
qed

theorem cached_stub_reused_witness:
  "get_cached_stub null_ext (PDict []) demo_state = (Inr (demo_chan, 0, demo_backend), w_tick_update Suc demo_state)"
  by (rule cached_stub_reused [where b = PNone and k = "''b''"])
    (simp_all add: demo_state_fields demo_resolve demo_backend_id cache_lookup_def)

text \<open>
  C25.  Reloading.  When the modification time of \<^verbatim>\<open>backends.json\<close> has changed, an earlier configuration
  was loaded and the new file loads, then the new configuration is returned and remembered, the
  cache is empty, and every channel that was cached is closed while all others stay as they were.
\<close>

theorem reload_flushes:
  assumes "w_stat w (w_tick w) (config_path w) = Inr mtime" and "mtime \<noteq> backends_mtime_ns w"
    and "backends_config w = Some old" and "fst (load_backends_from (config_path w) (w_tick_update Suc w)) = Inr (Some new)"
    and "get_backends w = (r, w')" and "i < length (w_chans w)"
  shows "r = Inr (Some new) \<and> backends_config w' = Some new \<and> backends_mtime_ns w' = mtime \<and> channel_cache w' = [] \<and>
    w_chans w' ! i = (if Some i \<in> zc_grpc ` fst ` snd ` set (channel_cache w)
      then (w_chans w ! i)\<lparr>gc_open := False\<rparr> else w_chans w ! i)"
proof -
  obtain w2 where l: "load_backends_from (config_path w) (w_tick_update Suc w) = (Inr (Some new), w2)"
    using assms(4) by (cases "load_backends_from (config_path w) (w_tick_update Suc w)") simp
  have f: "channel_cache w2 = channel_cache w" "w_chans w2 = w_chans w" "backends_config w2 = Some old"
    using load_frozen [OF l] assms(3) by (simp_all add: frozen_def)
  have "r = Inr (Some new)" "w' = reloaded (Some new) mtime w2"
    using assms(1,2,5) l by (simp_all add: get_backends_run Let_def)
  moreover have "w_chans (reloaded (Some new) mtime w2) ! i = (if Some i \<in> zc_grpc ` fst ` snd ` set (channel_cache w)
      then (w_chans w ! i)\<lparr>gc_open := False\<rparr> else w_chans w ! i)"
    using closed_all_chans [of i "w_out_update _ w2" "channel_cache w"] assms(6) f
    by (simp add: reloaded_def Let_def)
  ultimately show ?thesis using f by (simp add: reloaded_def Let_def)
qed

theorem reload_flushes_witness:
  "fst (get_backends (demo_state\<lparr>w_stat := \<lambda>_ _. Inr 2\<rparr>)) = Inr (Some demo_loaded) \<and>
   backends_config (snd (get_backends (demo_state\<lparr>w_stat := \<lambda>_ _. Inr 2\<rparr>))) = Some demo_loaded \<and>
   backends_mtime_ns (snd (get_backends (demo_state\<lparr>w_stat := \<lambda>_ _. Inr 2\<rparr>))) = 2 \<and>
   channel_cache (snd (get_backends (demo_state\<lparr>w_stat := \<lambda>_ _. Inr 2\<rparr>))) = [] \<and>
   w_chans (snd (get_backends (demo_state\<lparr>w_stat := \<lambda>_ _. Inr 2\<rparr>))) ! 0 =
     (if Some 0 \<in> zc_grpc ` fst ` snd ` set (channel_cache (demo_state\<lparr>w_stat := \<lambda>_ _. Inr 2\<rparr>))
      then (w_chans (demo_state\<lparr>w_stat := \<lambda>_ _. Inr 2\<rparr>) ! 0)\<lparr>gc_open := False\<rparr>
      else w_chans (demo_state\<lparr>w_stat := \<lambda>_ _. Inr 2\<rparr>) ! 0)"
proof (rule reload_flushes)
  show "fst (load_backends_from (config_path (demo_state\<lparr>w_stat := \<lambda>_ _. Inr 2\<rparr>))
      (w_tick_update Suc (demo_state\<lparr>w_stat := \<lambda>_ _. Inr 2\<rparr>))) = Inr (Some demo_loaded)"
    by code_simp
qed (simp_all add: demo_state_fields)

text \<open>
  A reload that is skipped.  If an unreadable version of \<^verbatim>\<open>backends.json\<close> is seen in between, the
  remembered configuration is dropped, and the next readable version is taken for the first one:
  the cache is kept and its channels stay open, although the configuration they were opened from is gone.
\<close>

theorem unreadable_config_skips_flush:
  assumes "w_stat w (w_tick w) (config_path w) = Inr t1" and "t1 \<noteq> backends_mtime_ns w"
    and "load_backends_from (config_path w) (w_tick_update Suc w) = (Inr None, w1)"
    and "w2 = snd (get_backends w)"
    and "w_stat w2 (w_tick w2) (config_path w2) = Inr t2" and "t2 \<noteq> t1"
    and "fst (load_backends_from (config_path w2) (w_tick_update Suc w2)) = Inr (Some new)"
    and "get_backends w2 = (r, w')"
  shows "r = Inr (Some new) \<and> backends_config w' = Some new \<and> channel_cache w' = channel_cache w \<and> w_chans w' = w_chans w"
proof -
  obtain w3 where l: "load_backends_from (config_path w2) (w_tick_update Suc w2) = (Inr (Some new), w3)"
    using assms(7) by (cases "load_backends_from (config_path w2) (w_tick_update Suc w2)") simp
  have w2: "w2 = w1\<lparr>backends_config := None, backends_mtime_ns := t1\<rparr>"
    using assms(1-4) by (simp add: get_backends_run Let_def reloaded_def)
  have "r = Inr (Some new)" "w' = reloaded (Some new) t2 w3"
    using assms(5,6,8) l w2 by (simp_all add: get_backends_run Let_def)
  with w2 load_frozen [OF l] load_frozen [OF assms(3)] show ?thesis
    by (simp add: reloaded_def frozen_def Let_def)
qed

theorem unreadable_config_skips_flush_witness:
  "fst (get_backends (snd (get_backends flaky_state))) = Inr (Some demo_loaded) \<and>
   backends_config (snd (get_backends (snd (get_backends flaky_state)))) = Some demo_loaded \<and>
   channel_cache (snd (get_backends (snd (get_backends flaky_state)))) = channel_cache flaky_state \<and>
   w_chans (snd (get_backends (snd (get_backends flaky_state)))) = w_chans flaky_state"
proof (rule unreadable_config_skips_flush)
  show "w_stat flaky_state (w_tick flaky_state) (config_path flaky_state) = Inr 2"
    "2 \<noteq> backends_mtime_ns flaky_state"
    by code_simp+
  have "fst (load_backends_from (config_path flaky_state) (w_tick_update Suc flaky_state)) = Inr None" by code_simp
  then show "load_backends_from (config_path flaky_state) (w_tick_update Suc flaky_state) =
      (Inr None, snd (load_backends_from (config_path flaky_state) (w_tick_update Suc flaky_state)))"
    by (simp add: prod_eq_iff)
  show "w_stat (snd (get_backends flaky_state)) (w_tick (snd (get_backends flaky_state)))
      (config_path (snd (get_backends flaky_state))) = Inr 4"
    by code_simp
  show "fst (load_backends_from (config_path (snd (get_backends flaky_state)))
      (w_tick_update Suc (snd (get_backends flaky_state)))) = Inr (Some demo_loaded)"
    by code_simp
qed simp_all

text \<open>
  Recovery from a lost connection.  When a session call ends with \<^verbatim>\<open>UNAVAILABLE\<close>, the error is
  reported as a result, the backend's channel is closed and its cache entry is gone, so that the
  next call connects and attests afresh; the entries of all other backends are kept.
\<close>

theorem unavailable_evicts:
  assumes "body w0 = (Inl (Exn (RpcError UNAVAILABLE) details), w)"
    and "w_stat w (w_tick w) (config_path w) = Inr (backends_mtime_ns w)"
    and "py_get args ''backend'' PNone = Inr b" and "resolve_backend (backends_config w) b = Inr backend"
    and "py_item backend ''backend_id'' = Inr (PStr k)"
    and "cache_lookup (PStr k) (channel_cache w) = Some (ch, stub)" and "distinct (map fst (channel_cache w))"
    and "zc_grpc ch = Some stub" and "stub < length (w_chans w)" and "catch_rpc args body w0 = (r, w')"
  shows "r = Inr (grpc_error_result UNAVAILABLE details) \<and> \<not> gc_open (w_chans w' ! stub) \<and>
    cache_lookup (PStr k') (channel_cache w') = (if k' = k then None else cache_lookup (PStr k') (channel_cache w))"
proof -
  have e: "evict_backend args w = (Inr (), snd (evict_backend args w))"
    "channel_cache (snd (evict_backend args w)) = cache_remove (PStr k) (channel_cache w)"
    "w_chans (snd (evict_backend args w)) = shut stub (w_chans w)"
    using assms(2-8) get_backend_info_run [of b w] get_backends_unchanged [OF assms(2)]
    by (simp_all add: evict_backend_def io_simps zc_close_def close_channel_def emit_def print_stderr_def write_line_def
        del: py_get_Inr)
  from assms(1,10) e(1) have "r = Inr (grpc_error_result UNAVAILABLE details)" "w' = snd (evict_backend args w)"
    by (cases "evict_backend args w"; simp add: catch_rpc_def io_simps)+
  with e str_cache.lookup_remove [OF assms(7), of k' k] assms(9) show ?thesis by (simp add: nth_shut)
qed

theorem unavailable_evicts_witness:
  "fst (catch_rpc (PDict []) (io_raise (Exn (RpcError UNAVAILABLE) ''gone'')) demo_state) =
     Inr (grpc_error_result UNAVAILABLE ''gone'') \<and>
   \<not> gc_open (w_chans (snd (catch_rpc (PDict []) (io_raise (Exn (RpcError UNAVAILABLE) ''gone'')) demo_state)) ! 0) \<and>
   cache_lookup (PStr ''b'') (channel_cache (snd (catch_rpc (PDict []) (io_raise (Exn (RpcError UNAVAILABLE) ''gone'')) demo_state))) =
     (if ''b'' = ''b'' then None else cache_lookup (PStr ''b'') (channel_cache demo_state))"
  by (rule unavailable_evicts [where b = PNone and w = demo_state and ch = demo_chan and backend = demo_backend and k = "''b''"])
    (simp_all add: io_simps demo_state_fields demo_resolve demo_backend_id cache_lookup_def)

end
