(* ===== verification/McpLoop.thy ===== *)
theory McpLoop
  imports McpSafety McpDemo
begin

text \<open>
  The protocol side of the MCP server: what appears on standard output.  \<open>quiet_invariant\<close> collects
  the state changes of the tool handlers; the facts about output and environment are instances
  of it.
\<close>

section \<open>Predicates the handlers cannot change\<close>

locale quiet_invariant =
  fixes I :: "mcp \<Rightarrow> bool"
  assumes quiet: "quiet w w' \<Longrightarrow> I w \<Longrightarrow> I w'"
    and cache: "I w \<Longrightarrow> I (channel_cache_update f w)"
    and config: "I w \<Longrightarrow> I (backends_config_update g w)"
    and mtime: "I w \<Longrightarrow> I (backends_mtime_ns_update h w)"
    and diagnostics: "I w \<Longrightarrow> I (w_out_update (\<lambda>ls. ls @ [(Stderr, s)]) w)"
    and trace: "I w \<Longrightarrow> I (w_events_update (\<lambda>es. es @ [e]) w)"
begin

lemma tick: "I w \<Longrightarrow> I (w_tick_update Suc w)"
  by (rule quiet [OF quiet_tick [OF quiet_refl]])

lemma chans: "I w \<Longrightarrow> I (w_chans_update f w)"
  by (rule quiet [OF quiet_chans [OF quiet_refl]])

lemma closing: "keeps I (zc_close ch)"
  unfolding zc_close_def close_channel_def emit_def
  by (intro keeps_rules keeps_modify chans trace | assumption)+

lemma err: "keeps I (print_stderr s)"
  unfolding print_stderr_def write_line_def by (rule keeps_modify) (rule diagnostics)

lemma flushing: "keeps I flush_channels"
proof -
  have "keeps I (close_all c)" for c
    by (induction c rule: close_all.induct) (auto intro!: keeps_rules closing)
  then show ?thesis unfolding flush_channels_def by (intro keeps_rules keeps_modify cache)
qed

lemma ticking: "keeps I tick"
  unfolding tick_def by (intro keeps_rules keeps_modify tick)

end

sublocale quiet_invariant \<subseteq> config_invariant I
  by unfold_locales (unfold os_stat_def read_file_def,
    (intro keeps_rules keeps_modify ticking err flushing config mtime | assumption)+)

context quiet_invariant
begin

lemma connecting: "keeps I (get_stub ext conn)"
proof -
  have "wp (get_stub ext conn) (\<lambda>_ w'. quiet w w') (\<lambda>_ w'. quiet w w') w" for w :: mcp
    by (rule wp_mono [OF mcp_conn.open_effect]) auto
  then have "wp (get_stub ext conn) (\<lambda>_. I) (\<lambda>_. I) w" if "I w" for w
    by (rule wp_mono) (use that quiet in blast)+
  then show ?thesis by (simp add: keeps_wp)
qed

lemma sending: "keeps I (rpc_send c req md)"
  unfolding rpc_send_def emit_def by (intro keeps_rules keeps_modify ticking trace | assumption)+

lemma cached: "keeps I (get_cached_stub ext args)"
  unfolding get_cached_stub_def open_backend_def
  by (intro keeps_rules keeps_modify backend_info connecting err cache | assumption)+

lemma evicting: "keeps I (evict_backend args)"
  unfolding evict_backend_def
  by (intro keeps_rules keeps_modify backend_info closing err cache | assumption)+

lemma probing: "keeps I (run_connectivity_test ext conn message)"
  unfolding run_connectivity_test_def pb_str_def rpc_call_def Let_def
  by (intro keeps_rules connecting sending closing)

lemma drawing: "keeps I uuid4"
  unfolding uuid4_def by (intro keeps_rules ticking)

end

sublocale quiet_invariant \<subseteq> server_invariant I ext for ext
  by unfold_locales (rule drawing sending cached evicting probing)+

section \<open>Standard output\<close>

text \<open>The lines of the protocol stream.\<close>

definition stdout_lines :: "'a world_scheme \<Rightarrow> string list" where
  "stdout_lines w = map snd (filter (\<lambda>l. fst l = Stdout) (w_out w))"

definition silent :: "string list \<Rightarrow> mcp \<Rightarrow> bool" where
  "silent ls w \<longleftrightarrow> w_sys_stdout w = Stderr \<and> stdout_lines w = ls"

interpretation silent: quiet_invariant "silent ls" for ls
proof (unfold_locales, goal_cases)
  case (1 w w')
  from 1(1) obtain new where "w_out w' = w_out w @ new" "fst ` set new \<subseteq> {w_sys_stdout w}"
    by (auto simp: quiet_def)
  with 1(2) have "filter (\<lambda>l. fst l = Stdout) new = []"
    by (auto simp: silent_def filter_empty_conv)
  with 1 \<open>w_out w' = w_out w @ new\<close> show ?case
    by (simp add: silent_def stdout_lines_def quiet_fields(3) [OF 1(1)])
qed (simp_all add: silent_def stdout_lines_def)

interpretation fixed_env: quiet_invariant "\<lambda>w. w_env w = env" for env
  by unfold_locales (simp_all add: quiet_fields)

interpretation fixed_env: loop_invariant "\<lambda>w. w_env w = env" ext for env ext
  by unfold_locales (simp add: keeps_wp send_def wp_simps)

section \<open>Responses\<close>

text \<open>The identifier of a message; absent and null mark a notification.\<close>

definition msg_id :: "pydict \<Rightarrow> pyval" where
  "msg_id d = (case map_of d ''id'' of None \<Rightarrow> PNone | Some i \<Rightarrow> i)"

definition response :: "pyval \<Rightarrow> string \<times> pyval \<Rightarrow> string" where
  "response i body = json_dumps (PDict [(''jsonrpc'', PStr ''2.0''), (''id'', i), body])"

text \<open>What a message adds to the protocol stream: one response with its identifier, or nothing.\<close>

definition answered :: "pydict \<Rightarrow> string list \<Rightarrow> bool" where
  "answered d ls \<longleftrightarrow> (if msg_id d = PNone then ls = []
     else \<exists>k v. k \<in> {''result'', ''error''} \<and> ls = [response (msg_id d) (k, v)])"

lemma py_get_dict: "py_get (PDict d) k x = Inr (case map_of d k of None \<Rightarrow> x | Some v \<Rightarrow> v)"
  by simp

lemma send_response:
  "send (rpc_error i c m) = write_line Stdout (response i (''error'', PDict [(''code'', PInt c), (''message'', PStr m)]))"
  "send (rpc_result i v) = write_line Stdout (response i (''result'', v))"
  by (simp_all add: send_def rpc_error_def rpc_result_def response_def)

lemma message_effect:
  assumes "silent ls w"
  shows "wp (process_message ext (PDict d)) (\<lambda>_ w'. \<exists>new. answered d new \<and> silent (ls @ new) w') (\<lambda>_ _. False) w"
    (is "wp _ ?Q ?E w")
proof -
  have none: "?Q () w'" if "silent ls w'" "msg_id d = PNone" for w'
    using that by (auto simp: answered_def)
  have sent: "wp (write_line Stdout (response (msg_id d) (k, v))) ?Q ?E w'"
    "wp (io_bind (write_line Stdout (response (msg_id d) (k, v))) (\<lambda>_. print_stderr s)) ?Q ?E w'"
    if "silent ls w'" "msg_id d \<noteq> PNone" "k \<in> {''result'', ''error''}" for w' k v s
    using that by (auto simp: wp_simps answered_def silent_def stdout_lines_def)
  have err: "silent ls (w_out_update (\<lambda>l. l @ [(Stderr, s)]) w')" if "silent ls w'" for w' s
    using that by (rule silent.diagnostics)
  show ?thesis
    unfolding process_message_def py_get_dict msg_id_def [symmetric] wp_bind [of "io_lift _"] wp_lift sum.case
      wp_bind [of "print_stderr _"] wp_bind [of "io_catch _ _"] wp_catch wp_print_stderr
      wp_bind [of "handle_request _ _ _"]
  proof (rule wp_mono [OF wp_keeps [OF silent.request err [OF assms]]], goal_cases)
    case (1 r w')
    then show ?case unfolding wp_return sum.case
      by (auto simp only: send_response wp_return intro!: none sent split: if_split reply.split; simp)
  next
    case (2 e w')
    then have "silent ls (w_out_update (\<lambda>l. l @ [(Stderr, s)]) w')" for s by (rule err)
    then show ?case unfolding wp_return sum.case
      by (auto simp only: send_response wp_return intro!: none sent split: if_split; simp)
  qed
qed

section \<open>The loop\<close>

text \<open>The message on a line, if it holds a JSON object.\<close>

definition line_msg :: "string \<Rightarrow> pydict option" where
  "line_msg raw = (if strip raw = [] then None
     else case json_loads (strip raw) of Inr (PDict d) \<Rightarrow> Some d | _ \<Rightarrow> None)"

text \<open>The lines the loop copes with: blank ones, JSON objects, and text that is not JSON.\<close>

definition tolerated :: "string \<Rightarrow> bool" where
  "tolerated raw \<longleftrightarrow> strip raw = [] \<or> line_msg raw \<noteq> None \<or>
     (case json_loads (strip raw) of Inl e \<Rightarrow> exn_kind e = JSONDecodeError | Inr _ \<Rightarrow> False)"

definition requests :: "string list \<Rightarrow> pydict list" where
  "requests lines = filter (\<lambda>d. msg_id d \<noteq> PNone) (List.map_filter line_msg lines)"

lemma requests_simps [simp]:
  "requests [] = []"
  "requests (raw # lines) = (case line_msg raw of None \<Rightarrow> [] | Some d \<Rightarrow> if msg_id d = PNone then [] else [d]) @ requests lines"
  by (auto simp: requests_def map_filter_simps split: option.split)

lemma line_processed: "line_msg raw = Some d \<Longrightarrow> process_line ext raw = process_message ext (PDict d)"
  by (auto simp: line_msg_def process_line_def Let_def split: if_splits sum.splits pyval.splits)

lemma line_effect:
  assumes "silent ls w" "tolerated raw"
  shows "wp (process_line ext raw)
    (\<lambda>_ w'. \<exists>new. (case line_msg raw of None \<Rightarrow> new = [] | Some d \<Rightarrow> answered d new) \<and> silent (ls @ new) w') (\<lambda>_ _. False) w"
proof (cases "line_msg raw")
  case None
  with assms show ?thesis
    by (auto simp: process_line_def Let_def wp_simps tolerated_def silent.diagnostics split: sum.splits)
next
  case (Some d)
  with message_effect [OF assms(1)] line_processed [OF Some] show ?thesis by simp
qed

text \<open>The responses to a sequence of requests, in order.\<close>

definition responses :: "pydict list \<Rightarrow> string list \<Rightarrow> bool" where
  "responses ds ls \<longleftrightarrow> (\<exists>bodies. length bodies = length ds \<and> fst ` set bodies \<subseteq> {''result'', ''error''} \<and>
     ls = map2 response (map msg_id ds) bodies)"

lemma responses_Nil [simp]: "responses [] []"
  by (simp add: responses_def)

lemma responses_Cons:
  assumes "k \<in> {''result'', ''error''}" "responses ds ls"
  shows "responses (d # ds) (response (msg_id d) (k, v) # ls)"
proof -
  from assms(2) obtain bodies where "length bodies = length ds" "fst ` set bodies \<subseteq> {''result'', ''error''}"
    "ls = map2 response (map msg_id ds) bodies" by (auto simp: responses_def)
  with assms(1) show ?thesis unfolding responses_def by (intro exI [of _ "(k, v) # bodies"]) auto
qed

lemma serve_effect:
  assumes "silent ls w" "list_all tolerated lines"
  shows "wp (serve ext lines) (\<lambda>_ w'. \<exists>new. responses (requests lines) new \<and> silent (ls @ new) w') (\<lambda>_ _. False) w"
  using assms
proof (induction lines arbitrary: ls w)
  case Nil
  then show ?case by (auto simp: wp_simps intro!: exI [of _ "[]"])
next
  case (Cons raw lines)
  have "wp (serve ext lines) (\<lambda>_ w'. \<exists>new. responses (requests (raw # lines)) new \<and> silent (ls @ new) w') (\<lambda>_ _. False) w'"
    if n: "case line_msg raw of None \<Rightarrow> n = [] | Some d \<Rightarrow> answered d n" "silent (ls @ n) w'" for n w'
  proof -
    have "responses (requests (raw # lines)) (n @ new)" if "responses (requests lines) new" for new
      using n(1) that
      by (auto simp: answered_def intro!: responses_Cons split: option.splits if_splits)
    note more = this
    from Cons.prems(2) have "list_all tolerated lines" by simp
    from Cons.IH [OF n(2) this] show ?thesis
      by (rule wp_mono) (metis append_assoc more, simp)
  qed
  then show ?case
    using Cons.prems
    by (simp only: serve.simps wp_bind) (rule wp_mono [OF line_effect], auto)
qed

lemma ascii_scalar_text: "list_all (\<lambda>c. (of_char c :: nat) < 128) s \<Longrightarrow> scalar_text s"
  by (induction s) (simp_all add: scalar_text_def utf8_text_def utf8_enc_def is_scalar_def)

lemma seven_bit: "\<not> digit7 c \<Longrightarrow> (of_char c :: nat) < 128"
  by (cases c) (auto simp: of_bool_def)

lemma seven_bit_text: "list_all (Not \<circ> digit7) s \<Longrightarrow> scalar_text s"
  by (intro ascii_scalar_text) (auto simp: list_all_iff intro: seven_bit)

section \<open>A run\<close>

lemma demo_events:
  "w_events (snd (mcp_main demo_ext [demo_line] (mcp_start demo_world ''/''))) =
    [TlsConnect (PStr ''h'') 1, VerifierReturned noop_verifier_fn ''t'' [9] True, ChannelOpened 0] @
     RpcSent 0 (GetSessionStatusRequest ''tok'') None # []"
  by code_simp

section \<open>Properties\<close>

text \<open>
  C2.  The MCP server talks to attested brokers only.  Whatever lines it is sent and whatever the
  files, the network and the broker answer: when an RPC goes out, its channel trusts one
  certificate, and at an earlier point of the trace the verifier of a policy that validates in
  this environment returned True for that certificate and the token it carries.
\<close>

theorem mcp_rpcs_attested:
  assumes "w_chans w = []" and "w_events w = []"
    and "w_events (snd (mcp_main ext lines (mcp_start w home))) = es @ RpcSent c req md # es'"
  shows "\<exists>p v token cert. gc_root (w_chans (snd (mcp_main ext lines (mcp_start w home))) ! c) = cert \<and>
    get_verifier (w_env w) p = Inr v \<and> extract_attestation_token ext cert = Inr (Some token) \<and>
    VerifierReturned v token cert True \<in> set es \<and> trusted_by ext (w_env w) v token cert"
proof -
  let ?w = "snd (mcp_main ext lines (mcp_start w home))"
  have "mcp_ok ext ?w" by (rule keepsD [OF mcp_ok.main mcp_ok_start [OF assms(1,2)]])
  moreover have "w_env ?w = w_env w"
    by (rule keepsD [OF fixed_env.main]) (simp add: mcp_start_def world.extend_def)
  ultimately have "factory_accepted ext (w_env w) es (gc_root (w_chans ?w ! c))"
    using assms(3) unfolding mcp_ok_def rpcs_ok_def by metis
  then show ?thesis by (auto simp: factory_accepted_def accepted_by_def)
qed

theorem mcp_rpcs_attested_witness:
  "\<exists>p v token cert. gc_root (w_chans (snd (mcp_main demo_ext [demo_line] (mcp_start demo_world ''/''))) ! 0) = cert \<and>
    get_verifier (w_env demo_world) p = Inr v \<and> extract_attestation_token demo_ext cert = Inr (Some token) \<and>
    VerifierReturned v token cert True \<in> set [TlsConnect (PStr ''h'') 1, VerifierReturned noop_verifier_fn ''t'' [9] True, ChannelOpened 0] \<and>
    trusted_by demo_ext (w_env demo_world) v token cert"
  by (rule mcp_rpcs_attested [OF _ _ demo_events]) (simp_all add: demo_world_def null_world_def)

text \<open>
  C11.  Every request is answered, in order.  On blank lines, JSON objects and undecodable text, in any
  mixture, the loop runs to the end of its input; for each message with an identifier, and for no
  other, exactly one line goes to the protocol stream: a JSON-RPC response with that identifier and
  either a result or an error.  Nothing else is ever written there, whatever the handlers, the
  verifier or the broker do.
\<close>

theorem serve_answers:
  assumes "w_sys_stdout w = Stderr" and "list_all tolerated lines"
  shows "\<exists>w' bodies. serve ext lines w = (Inr (), w') \<and>
    length bodies = length (requests lines) \<and> fst ` set bodies \<subseteq> {''result'', ''error''} \<and>
    stdout_lines w' = stdout_lines w @ map2 response (map msg_id (requests lines)) bodies"
proof -
  have "silent (stdout_lines w) w" using assms(1) by (simp add: silent_def)
  from serve_effect [OF this assms(2), of ext] show ?thesis
    by (auto simp: wp_def silent_def responses_def split: prod.splits sum.splits)
qed

theorem serve_answers_witness:
  "\<exists>w' bodies. serve demo_ext [''junk'', ''{}'', demo_line] (mcp_start demo_world ''/'') = (Inr (), w') \<and>
    length bodies = 1 \<and> fst ` set bodies \<subseteq> {''result'', ''error''} \<and>
    stdout_lines w' = map2 response [PStr ''1''] bodies"
proof -
  have r: "map msg_id (requests [''junk'', ''{}'', demo_line]) = [PStr ''1'']" by code_simp
  then have l: "length (requests [''junk'', ''{}'', demo_line]) = 1" by (metis length_map length_Cons list.size(3) One_nat_def)
  have "list_all tolerated [''junk'', ''{}'', demo_line]" by code_simp
  moreover have "w_sys_stdout (mcp_start demo_world ''/'') = Stderr" "stdout_lines (mcp_start demo_world ''/'') = []"
    by (simp_all add: mcp_start_def world.extend_def stdout_lines_def demo_world_def null_world_def)
  ultimately show ?thesis using serve_answers [of "mcp_start demo_world ''/''" "[''junk'', ''{}'', demo_line]" demo_ext] unfolding r l by simp
qed

text \<open>
  Where the loop stops.  A line that parses as JSON but is not an object, or whose parsing fails
  with a plain \<^verbatim>\<open>ValueError\<close> (an integer literal of more than 4300 digits), ends the server: the
  exception leaves \<^verbatim>\<open>main\<close>, the rest of the input stays unread and nothing is answered.
\<close>

theorem serve_stops:
  assumes "\<not> tolerated raw"
  shows "\<exists>e. serve ext (raw # rest) w = (Inl e, w) \<and> exn_kind e \<in> {AttributeError, ValueError}"
proof (cases "json_loads (strip raw)")
  case (Inl e)
  with assms json_loads_exn [OF Inl] show ?thesis
    by (auto simp: tolerated_def process_line_def Let_def io_simps json_exn_def)
next
  case (Inr v)
  with assms show ?thesis
    by (cases v) (auto simp: tolerated_def line_msg_def process_line_def process_message_def Let_def io_simps
        attribute_error_def)
qed

theorem serve_stops_witness:
  "\<exists>e. serve null_ext (''[]'' # [''{}'']) (mcp_start null_world ''/root'') = (Inl e, mcp_start null_world ''/root'') \<and>
    exn_kind e \<in> {AttributeError, ValueError}"
proof (rule serve_stops)
  show "\<not> tolerated ''[]''" by code_simp
qed

text \<open>
  What the server makes of a message before it writes the response: the state after the first diagnostic line, the outcome of
  the handler, and the result or error that belongs to it.
\<close>

definition item :: "pydict \<Rightarrow> string \<Rightarrow> pyval \<Rightarrow> pyval" where
  "item d k x = (case map_of d k of None \<Rightarrow> x | Some v \<Rightarrow> v)"

definition handled :: "ext \<Rightarrow> pydict \<Rightarrow> mcp \<Rightarrow> reply res \<times> mcp" where
  "handled ext d w = handle_request ext (item d ''method'' (PStr [])) (item d ''params'' (PDict []))
     (w_out_update (\<lambda>ls. ls @ [(Stderr, ''[ztab] Processing method: '' @ quoted (py_str (item d ''method'' (PStr []))) @ '' (id: ''
       @ py_str (msg_id d) @ '')'')]) w)"

definition reply_body :: "pyval \<Rightarrow> reply res \<Rightarrow> string \<times> pyval" where
  "reply_body method outcome = (case outcome of
      Inr (Reply v) \<Rightarrow> (''result'', v)
    | Inr NOT_HANDLED \<Rightarrow> (''error'', PDict [(''code'', PInt (- 32601)), (''message'', PStr (''Method not found: '' @ py_str method))])
    | Inl e \<Rightarrow> (''error'', PDict [(''code'', PInt (- 32603)),
        (''message'', PStr (''Internal error: '' @ exn_type_name (exn_kind e) @ '': '' @ exn_str e))]))"

lemma message_written:
  assumes "silent ls w" "msg_id d \<noteq> PNone"
  shows "wp (process_message ext (PDict d))
    (\<lambda>_ w'. silent (ls @ [response (msg_id d) (reply_body (item d ''method'' (PStr [])) (fst (handled ext d w)))]) w') (\<lambda>_ _. False) w"
    (is "wp _ ?Q ?E w")
proof -
  let ?m = "item d ''method'' (PStr [])" let ?p = "item d ''params'' (PDict [])"
  let ?w = "w_out_update (\<lambda>ls. ls @ [(Stderr, ''[ztab] Processing method: '' @ quoted (py_str ?m) @ '' (id: '' @ py_str (msg_id d) @ '')'')]) w"
  have err: "silent ls (w_out_update (\<lambda>l. l @ [(Stderr, s)]) w')" if "silent ls w'" for w' s
    using that by (rule silent.diagnostics)
  have quiet: "silent ls (snd (handle_request ext ?m ?p ?w))" by (rule keepsD [OF silent.request err [OF assms(1)]])
  have run: "wp (handle_request ext ?m ?p) (\<lambda>r w'. Inr r = fst (handled ext d w) \<and> silent ls w') (\<lambda>e w'. Inl e = fst (handled ext d w) \<and> silent ls w') ?w"
    using quiet by (auto simp: wp_def handled_def split: prod.splits sum.splits)
  have id: "item d ''id'' PNone = msg_id d" by (simp add: item_def msg_id_def)
  show ?thesis
    unfolding process_message_def py_get_dict item_def [symmetric] id wp_bind [of "io_lift _"] wp_lift sum.case
      wp_bind [of "print_stderr _"] wp_bind [of "io_catch _ _"] wp_catch wp_print_stderr
      wp_bind [of "handle_request _ _ _"]
  proof (rule wp_mono [OF run], goal_cases)
    case (1 r w')
    then show ?case unfolding wp_return sum.case using assms(2)
      by (cases r) (simp_all add: 1(1) [THEN conjunct1, symmetric] send_response wp_simps reply_body_def silent_def stdout_lines_def)
  next
    case (2 e w')
    then show ?case unfolding wp_return sum.case using assms(2)
      by (simp add: 2(1) [THEN conjunct1, symmetric] send_response wp_simps reply_body_def silent_def stdout_lines_def)
  qed
qed

lemma response_plain:
  assumes "json_plain i" and "json_plain v" and "k \<in> {''result'', ''error''}"
  shows "json_loads (response i (k, v)) = Inr (PDict [(''jsonrpc'', PStr ''2.0''), (''id'', i), (k, v)]) \<and>
    newline_char \<notin> set (response i (k, v))"
proof -
  have "scalar_text ''jsonrpc''" "scalar_text ''2.0''" "scalar_text ''id''" "scalar_text ''result''" "scalar_text ''error''"
    by (rule ascii_scalar_text, simp)+
  with assms have "json_plain (PDict [(''jsonrpc'', PStr ''2.0''), (''id'', i), (k, v)])" by auto
  then show ?thesis unfolding response_def
    by (intro conjI json_roundtrip(1) json_dump_line [of _ 0, folded json_dumps_def])
qed

text \<open>
  C33.  The client reads back what the server did.  For a line with a request, processing it ends normally and writes exactly one
  line to the protocol stream; it contains no newline, and \<^verbatim>\<open>json.loads\<close> of it is the JSON-RPC object with the request's
  identifier and with the handler's value as result, or the error \<open>- 32601\<close> for an unknown method, or \<open>- 32603\<close> with the exception that
  left the handler.  The identifier and the value have to be plain: no floats, integers of at most 4300 digits, text that is
  valid Unicode, distinct keys.
\<close>

theorem request_read_back:
  assumes "w_sys_stdout w = Stderr" and "line_msg raw = Some d" and "msg_id d \<noteq> PNone" and "json_plain (msg_id d)"
    and "json_plain (snd (reply_body (item d ''method'' (PStr [])) (fst (handled ext d w))))"
  shows "\<exists>w' line. process_line ext raw w = (Inr (), w') \<and> stdout_lines w' = stdout_lines w @ [line] \<and> newline_char \<notin> set line \<and>
    json_loads line = Inr (PDict [(''jsonrpc'', PStr ''2.0''), (''id'', msg_id d), reply_body (item d ''method'' (PStr [])) (fst (handled ext d w))])"
proof -
  let ?b = "reply_body (item d ''method'' (PStr [])) (fst (handled ext d w))"
  have "process_line ext raw = process_message ext (PDict d)" by (rule line_processed [OF assms(2)])
  moreover have "silent (stdout_lines w) w" using assms(1) by (simp add: silent_def)
  ultimately obtain w' where "process_line ext raw w = (Inr (), w')" "stdout_lines w' = stdout_lines w @ [response (msg_id d) ?b]"
    using message_written [OF _ assms(3), of "stdout_lines w" w ext] by (auto simp: wp_def silent_def split: prod.splits sum.splits)
  moreover have "fst ?b \<in> {''result'', ''error''}" by (auto simp: reply_body_def split: sum.split reply.split)
  note response_plain [OF assms(4,5) this]
  ultimately show ?thesis by (intro exI [of _ w'] exI [of _ "response (msg_id d) ?b"]) simp
qed

text \<open>The status request of the sample run: its answer, as the client reads it.\<close>

definition demo_request :: pydict where
  "demo_request = [(''id'', PStr ''1''), (''method'', PStr ''tools/call''), (''params'', PDict [(''name'', PStr ''ztab_get_session_status''),
     (''arguments'', PDict [(''participant_token'', PStr ''tok'')])])]"

definition demo_status :: string where
  "demo_status = json_dumps_indent (PDict [(''status'', PStr ''success''), (''state'', PStr ''SEALED''), (''participants_joined'', PInt 2),
     (''participants_accepted'', PInt 2), (''inputs_received'', PInt 0)])"

definition demo_answer :: pyval where
  "demo_answer = PDict [(''content'', PList [PDict [(''type'', PStr ''text''), (''text'', PStr demo_status)]])]"

theorem request_read_back_witness:
  "\<exists>w' line. process_line demo_ext demo_line (mcp_start demo_world ''/'') = (Inr (), w') \<and> stdout_lines w' = [line] \<and>
    json_loads line = Inr (PDict [(''jsonrpc'', PStr ''2.0''), (''id'', PStr ''1''), (''result'', demo_answer)])"
proof -
  let ?w = "mcp_start demo_world ''/''"
  have line: "line_msg demo_line = Some demo_request" by code_simp
  have id: "msg_id demo_request = PStr ''1''" by code_simp
  have "fst (handled demo_ext demo_request ?w) = Inr (Reply demo_answer)" by code_simp
  then have body: "reply_body m (fst (handled demo_ext demo_request ?w)) = (''result'', demo_answer)" for m by (simp add: reply_body_def)
  have "list_all (Not \<circ> digit7) demo_status" by code_simp
  then have "json_plain demo_answer" by (simp add: demo_answer_def seven_bit_text)
  moreover have "w_sys_stdout ?w = Stderr" "stdout_lines ?w = []"
    by (simp_all add: mcp_start_def world.extend_def stdout_lines_def demo_world_def null_world_def)
  ultimately show ?thesis
    using request_read_back [OF _ line, of ?w demo_ext] by (auto simp: body id seven_bit_text)
qed

end
