(* ===== verification/McpRefine.thy ===== *)
theory McpRefine
  imports McpCache McpLoop
begin

text \<open>
  The channel cache as an abstract machine.  Its state is an ordered dictionary from backend identifiers to
  channel numbers and the number of channels opened so far; a run of it has a trace, the openings and
  closings of channels in their order.  Every run of the server is a run of this machine, with the same trace
  and the same dictionary at its end.
\<close>

section \<open>The abstract machine\<close>

type_synonym cache_state = "(pyval \<times> nat) list \<times> nat"

text \<open>
  Connecting a backend that has no entry, opening and closing a channel outside the cache, and evicting an entry,
  which closes its channel.
\<close>

inductive cache_run :: "cache_state \<Rightarrow> event list \<Rightarrow> cache_state \<Rightarrow> bool" for s where
  Done: "cache_run s [] s"
| Open: "cache_run s tr (es, n) \<Longrightarrow> \<forall>k' \<in> fst ` set es. \<not> py_eq k k' \<Longrightarrow>
    cache_run s (tr @ [ChannelOpened n]) (es @ [(k, n)], Suc n)"
| Probe: "cache_run s tr (es, n) \<Longrightarrow> cache_run s (tr @ [ChannelOpened n, ChannelClosed n]) (es, Suc n)"
| Evict: "cache_run s tr (xs @ (k, c) # ys, n) \<Longrightarrow> cache_run s (tr @ [ChannelClosed c]) (xs @ ys, n)"

text \<open>No two entries are for the same backend or share a channel, and every cached channel has been opened.\<close>

definition cache_sound :: "cache_state \<Rightarrow> bool" where
  "cache_sound s \<longleftrightarrow> sorted_wrt (\<lambda>k k'. \<not> py_eq k' k) (map fst (fst s)) \<and> distinct (map snd (fst s)) \<and>
     (\<forall>c \<in> snd ` set (fst s). c < snd s)"

lemma run_sound: "cache_run s tr s' \<Longrightarrow> cache_sound s \<Longrightarrow> cache_sound s'"
  by (induction rule: cache_run.induct) (auto simp: cache_sound_def sorted_wrt_append less_SucI)

text \<open>Which channels a run leaves open, as its trace tells.\<close>

lemma run_open:
  assumes "cache_run ([], n0) tr (es, n)"
  shows "c \<in> snd ` set es \<longleftrightarrow> ChannelOpened c \<in> set tr \<and> ChannelClosed c \<notin> set tr"
    and "ChannelOpened c \<in> set tr \<Longrightarrow> c < n" "ChannelClosed c \<in> set tr \<Longrightarrow> c < n" "n0 \<le> n"
proof -
  have "(\<forall>c. (c \<in> snd ` set (fst s') \<longleftrightarrow> ChannelOpened c \<in> set tr \<and> ChannelClosed c \<notin> set tr) \<and>
      (ChannelOpened c \<in> set tr \<longrightarrow> c < snd s') \<and> (ChannelClosed c \<in> set tr \<longrightarrow> c < snd s')) \<and> n0 \<le> snd s' \<and>
      distinct (map snd (fst s'))" if "cache_run ([], n0) tr s'" for s'
    using that
  proof (induction rule: cache_run.induct)
    case (Open tr es n k)
    then show ?case by (auto simp: image_iff less_SucI)
  next
    case (Probe tr es n)
    then show ?case by (auto simp: less_SucI)
  next
    case (Evict tr xs k c ys n)
    then show ?case by (auto simp: image_iff)
  qed simp
  from this [OF assms] show "c \<in> snd ` set es \<longleftrightarrow> ChannelOpened c \<in> set tr \<and> ChannelClosed c \<notin> set tr"
    "ChannelOpened c \<in> set tr \<Longrightarrow> c < n" "ChannelClosed c \<in> set tr \<Longrightarrow> c < n" "n0 \<le> n" by simp_all
qed

section \<open>The concrete cache\<close>

definition abs_entries :: "(pyval \<times> cache_entry) list \<Rightarrow> (pyval \<times> nat) list" where
  "abs_entries c = map (\<lambda>(k, ch, stub). (k, stub)) c"

lemma abs_entries_simps [simp]:
  "abs_entries [] = []" "abs_entries ((k, ch, stub) # c) = (k, stub) # abs_entries c"
  "abs_entries (c @ c') = abs_entries c @ abs_entries c'"
  by (simp_all add: abs_entries_def)

lemma abs_keys: "fst ` set (abs_entries c) = fst ` set c"
  by (force simp: abs_entries_def image_image)

definition abs_cache :: "mcp \<Rightarrow> cache_state" where
  "abs_cache w = (abs_entries (channel_cache w), length (w_chans w))"

text \<open>
  The server at the end of a run of the machine from \<open>s\<close>, after the events \<open>tr0\<close>; the entries know the
  channels they hold.
\<close>

definition entries_ok :: "(pyval \<times> cache_entry) list \<Rightarrow> bool" where
  "entries_ok c \<longleftrightarrow> (\<forall>(k, ch, stub) \<in> set c. zc_grpc ch = Some stub)"

definition simulates :: "cache_state \<Rightarrow> event list \<Rightarrow> mcp \<Rightarrow> bool" where
  "simulates s tr0 w \<longleftrightarrow> (\<exists>tr. chan_trace w = tr0 @ tr \<and> cache_run s tr (abs_cache w)) \<and> entries_ok (channel_cache w)"

text \<open>While the channel of a connectivity test is open.\<close>

definition probing :: "cache_state \<Rightarrow> event list \<Rightarrow> nat \<Rightarrow> mcp \<Rightarrow> bool" where
  "probing s tr0 stub w \<longleftrightarrow> (\<exists>tr. chan_trace w = tr0 @ tr @ [ChannelOpened stub] \<and>
     cache_run s tr (abs_entries (channel_cache w), stub)) \<and> length (w_chans w) = Suc stub \<and> entries_ok (channel_cache w)"

lemma simulates_same:
  "simulates s tr0 w \<Longrightarrow> channel_cache w' = channel_cache w \<Longrightarrow> length (w_chans w') = length (w_chans w) \<Longrightarrow>
   chan_trace w' = chan_trace w \<Longrightarrow> simulates s tr0 w'"
  by (simp add: simulates_def abs_cache_def)

lemma simulates_store:
  assumes "simulates s tr0 w" "quiet w w'" "stub_made ext policy w e w'" "py_hash_in bid (map fst (channel_cache w)) = Inr False"
  shows "simulates s tr0 (channel_cache_update (cache_insert bid e) w')"
proof -
  obtain ch stub where e: "e = (ch, stub)" by (cases e)
  have m: "stub = length (w_chans w)" "zc_grpc ch = Some stub" "chan_trace w' = chan_trace w @ [ChannelOpened stub]"
    "length (w_chans w') = Suc (length (w_chans w))" using assms(3) by (auto simp: stub_made_def e)
  obtain tr where tr: "chan_trace w = tr0 @ tr" "cache_run s tr (abs_cache w)" "entries_ok (channel_cache w)"
    using assms(1) by (auto simp: simulates_def)
  have "\<forall>k' \<in> fst ` set (abs_entries (channel_cache w)). \<not> py_eq bid k'"
    using assms(4) by (simp add: abs_keys py_hash_in_def split: if_splits)
  from Open [OF tr(2) [unfolded abs_cache_def] this] tr m cache_insert_fresh [OF assms(4)] show ?thesis
    by (auto simp: simulates_def abs_cache_def e entries_ok_def quiet_cache [OF assms(2)] chan_trace_def intro!: exI [of _ "tr @ [ChannelOpened stub]"])
qed

lemma simulates_evict:
  assumes "simulates s tr0 w" "cache_lookup bid (channel_cache w) = Some (ch, stub)"
  shows "zc_grpc ch = Some stub"
    and "simulates s tr0 (w_events_update (\<lambda>es. es @ [ChannelClosed stub]) (w_chans_update (shut stub) (channel_cache_update (cache_remove bid) w)))"
proof -
  from lookup_split [OF assms(2)] obtain xs k ys where
    c: "channel_cache w = xs @ (k, (ch, stub)) # ys" "cache_remove bid (channel_cache w) = xs @ ys" by blast
  obtain tr where tr: "chan_trace w = tr0 @ tr" "cache_run s tr (abs_cache w)" "entries_ok (channel_cache w)"
    using assms(1) by (auto simp: simulates_def)
  then show "zc_grpc ch = Some stub" by (simp add: c(1) entries_ok_def)
  from tr(2) have "cache_run s tr (abs_entries xs @ (k, stub) # abs_entries ys, length (w_chans w))" by (simp add: abs_cache_def c(1))
  from Evict [OF this] tr(1,3) show "simulates s tr0 (w_events_update (\<lambda>es. es @ [ChannelClosed stub])
      (w_chans_update (shut stub) (channel_cache_update (cache_remove bid) w)))"
    using c(1)[THEN arg_cong [where f = set]]
    by (auto simp: simulates_def abs_cache_def c(2) entries_ok_def chan_trace_def intro!: exI [of _ "tr @ [ChannelClosed stub]"])
qed

text \<open>A flush closes the channels of the entries one after the other.\<close>

lemma close_all_trace:
  assumes "entries_ok c"
  shows "chan_trace (closed_all c w) = chan_trace w @ map (ChannelClosed \<circ> snd) (abs_entries c)"
  using assms
proof (induction c arbitrary: w)
  case (Cons e c)
  obtain k ch stub where e: "e = (k, ch, stub)" by (cases e)
  with Cons.prems have "closed_all (e # c) w =
      closed_all c (w_events_update (\<lambda>es. es @ [ChannelClosed stub]) (w_chans_update (shut stub) w))"
    by (simp add: closed_all_def entries_ok_def io_simps zc_close_def close_channel_def emit_def)
  with Cons e show ?case by (simp add: entries_ok_def)
qed (simp add: closed_all_def io_simps)

lemma run_evict_all: "cache_run s tr (es, n) \<Longrightarrow> cache_run s (tr @ map (ChannelClosed \<circ> snd) es) ([], n)"
proof (induction es arbitrary: tr)
  case (Cons e es)
  from Evict [of s tr "[]" "fst e" "snd e" es n] Cons have "cache_run s (tr @ [ChannelClosed (snd e)]) (es, n)" by simp
  from Cons.IH [OF this] show ?case by (simp add: comp_def)
qed simp

lemma simulates_flush:
  assumes "simulates s tr0 w"
  shows "simulates s tr0 (snd (flush_channels w))"
proof -
  obtain tr where tr: "chan_trace w = tr0 @ tr" "cache_run s tr (abs_cache w)" "entries_ok (channel_cache w)"
    using assms by (auto simp: simulates_def)
  with run_evict_all [of s tr "abs_entries (channel_cache w)"] close_all_trace [OF tr(3), of w] show ?thesis
    by (auto simp: simulates_def flush_run abs_cache_def closed_all_length entries_ok_def chan_trace_def)
qed

section \<open>Every operation of the server is a run of the machine\<close>

interpretation simulates: channel_invariant "simulates s tr0" ext "probing s tr0" for s tr0 ext
proof (unfold_locales, goal_cases)
  case 6
  show ?case by (rule keepsI) (rule simulates_flush)
next
  case (9 w w')
  then show ?case by (intro simulates_same [OF 9(1)]) (simp_all add: quiet_cache)
next
  case (10 w w' policy e bid)
  then show ?case by (rule simulates_store)
next
  case (11 w bid)
  then show ?case by (intro simulates_same [OF 11(1)]) (simp_all add: lookup_none chan_trace_def)
next
  case (12 w bid ch stub)
  note ev = simulates_evict [OF 12]
  show ?case using ev by simp
next
  case (13 w w1 policy ch stub)
  then show ?case by (auto simp: simulates_def probing_def stub_made_def abs_cache_def quiet_cache)
next
  case (15 stub w)
  then obtain tr where "chan_trace w = tr0 @ tr @ [ChannelOpened stub]" "cache_run s tr (abs_entries (channel_cache w), stub)"
    by (auto simp: probing_def)
  with Probe [OF this(2)] 15 show ?case
    by (auto simp: simulates_def probing_def abs_cache_def chan_trace_def)
qed (auto simp: keeps_wp wp_simps Let_def probing_def chan_trace_def intro: simulates_same split: sum.split)

interpretation simulates: loop_invariant "simulates s tr0" ext for s tr0 ext
  by unfold_locales (auto simp: keeps_wp send_def wp_simps chan_trace_def intro: simulates_same)

section \<open>Property\<close>

text \<open>
  C17.  Refinement of the channel cache.  Whatever the MCP server reads and whatever the outside answers, the openings and closings
  of channels during a run are, in their order, the trace of a run of the abstract machine that ends in the server's cache:
  a backend is connected only when the cache has no entry for it, its channel gets a number never used before, an entry leaves
  the cache only together with the closing of its channel, and any other channel is closed right after its use.  Hence at the end no
  two entries are for the same backend or share a channel, and the cached channels are exactly those opened and not closed in the run.
\<close>

theorem mcp_cache_refines:
  "\<exists>tr. chan_trace (snd (mcp_main ext lines (mcp_start w home))) = chan_trace w @ tr \<and>
     cache_run ([], length (w_chans w)) tr (abs_cache (snd (mcp_main ext lines (mcp_start w home)))) \<and>
     cache_sound (abs_cache (snd (mcp_main ext lines (mcp_start w home)))) \<and>
     (\<forall>c. c \<in> snd ` set (fst (abs_cache (snd (mcp_main ext lines (mcp_start w home))))) \<longleftrightarrow>
        ChannelOpened c \<in> set tr \<and> ChannelClosed c \<notin> set tr)"
proof -
  let ?w = "snd (mcp_main ext lines (mcp_start w home))"
  have "abs_cache (mcp_start w home) = ([], length (w_chans w))" "chan_trace (mcp_start w home) = chan_trace w"
    by (simp_all add: abs_cache_def chan_trace_def mcp_start_def world.extend_def)
  then have "simulates ([], length (w_chans w)) (chan_trace w) (mcp_start w home)"
    by (auto simp: simulates_def entries_ok_def mcp_start_def world.extend_def intro: Done)
  from keepsD [OF simulates.main this] obtain tr where
    tr: "chan_trace ?w = chan_trace w @ tr" "cache_run ([], length (w_chans w)) tr (abs_cache ?w)"
    by (auto simp: simulates_def)
  from run_sound [OF tr(2)] have "cache_sound (abs_cache ?w)" by (simp add: cache_sound_def)
  with tr run_open(1) [of "length (w_chans w)" tr "fst (abs_cache ?w)" "snd (abs_cache ?w)"] show ?thesis by auto
qed

end
