(* ===== verification/McpResources.thy ===== *)
theory McpResources
  imports McpCache
begin

text \<open>
  The channels of the MCP server as a resource: which of them are open.  Every connection is either
  in the channel cache or was closed again, so the number of open connections is the number of
  cache entries, however requests, reloads, failures and connectivity tests are interleaved.
\<close>

section \<open>Open channels\<close>

definition open_ids :: "grpc_chan list \<Rightarrow> nat set" where
  "open_ids cs = {i. i < length cs \<and> gc_open (cs ! i)}"

definition cached_ids :: "mcp \<Rightarrow> nat list" where
  "cached_ids w = map (snd \<circ> snd) (channel_cache w)"

lemma open_ids_shut [simp]: "open_ids (shut c cs) = open_ids cs - {c}"
  by (auto simp: open_ids_def nth_shut split: if_splits)

lemma open_ids_snoc [simp]: "gc_open gc \<Longrightarrow> open_ids (cs @ [gc]) = insert (length cs) (open_ids cs)"
  by (auto simp: open_ids_def nth_append split: if_splits)

lemma length_not_open [simp]: "length cs \<notin> open_ids cs"
  by (simp add: open_ids_def)

lemma open_ids_closed_all:
  "open_ids (w_chans (closed_all c w)) = open_ids (w_chans w) - {i. Some i \<in> zc_grpc ` fst ` snd ` set c}"
proof -
  have "i \<in> open_ids (w_chans (closed_all c w)) \<longleftrightarrow> i \<in> open_ids (w_chans w) - {i. Some i \<in> zc_grpc ` fst ` snd ` set c}" for i
  proof (cases "i < length (w_chans w)")
    case True
    with closed_all_chans [OF this, of c] show ?thesis by (simp add: open_ids_def)
  qed (simp add: open_ids_def closed_all_length)
  then show ?thesis by blast
qed

section \<open>The invariant\<close>

text \<open>Besides the cached channels exactly those of \<open>A\<close> are open; entries know the channel they hold.\<close>

definition tracked :: "nat set \<Rightarrow> mcp \<Rightarrow> bool" where
  "tracked A w \<longleftrightarrow> (\<forall>(k, ch, s) \<in> set (channel_cache w). zc_grpc ch = Some s) \<and> distinct (cached_ids w) \<and>
     open_ids (w_chans w) = A \<union> set (cached_ids w) \<and> A \<inter> set (cached_ids w) = {}"

lemma tracked_same:
  "tracked A w \<Longrightarrow> channel_cache w' = channel_cache w \<Longrightarrow> w_chans w' = w_chans w \<Longrightarrow> tracked A w'"
  by (simp add: tracked_def cached_ids_def)

lemma tracked_made:
  assumes "tracked A w" "quiet w w'" "stub_made ext policy w (ch, stub) w'"
  shows "stub \<notin> A \<and> tracked (insert stub A) w'"
proof -
  from assms(3) obtain gc where s: "stub = length (w_chans w)" "w_chans w' = w_chans w @ [gc]" "gc_open gc"
    by (auto simp: stub_made_def)
  then have "open_ids (w_chans w') = insert stub (open_ids (w_chans w))" "stub \<notin> open_ids (w_chans w)" by simp_all
  with assms(1) show ?thesis by (auto simp: tracked_def cached_ids_def quiet_cache [OF assms(2)])
qed

lemma tracked_store:
  assumes "tracked A w" "quiet w w'" "stub_made ext policy w e w'" "py_hash_in bid (map fst (channel_cache w)) = Inr False"
  shows "tracked A (channel_cache_update (cache_insert bid e) w')"
proof -
  obtain ch stub where e: "e = (ch, stub)" by (cases e)
  have c: "channel_cache (channel_cache_update (cache_insert bid e) w') = channel_cache w' @ [(bid, e)]"
    using cache_insert_fresh [OF assms(4)] by (simp add: quiet_cache [OF assms(2)])
  have "zc_grpc ch = Some stub" using assms(3) e by (simp add: stub_made_def)
  moreover have "stub \<notin> A" "tracked (insert stub A) w'" using tracked_made assms(1-3) e by blast+
  ultimately show ?thesis unfolding tracked_def cached_ids_def c by (auto simp: e)
qed

lemma tracked_close:
  assumes "stub \<notin> A" "tracked (insert stub A) w"
  shows "tracked A (w_events_update f (w_chans_update (shut stub) w))"
  using assms by (auto simp: tracked_def cached_ids_def)

lemma tracked_evict:
  assumes "tracked A w" "cache_lookup bid (channel_cache w) = Some (ch, stub)"
  shows "zc_grpc ch = Some stub" "stub \<notin> A" "tracked (insert stub A) (channel_cache_update (cache_remove bid) w)"
proof -
  from lookup_split [OF assms(2)] obtain xs k' ys where
    c: "channel_cache w = xs @ (k', (ch, stub)) # ys" "cache_remove bid (channel_cache w) = xs @ ys" by blast
  then have r: "channel_cache (channel_cache_update (cache_remove bid) w) = xs @ ys" by simp
  from assms(1) show "zc_grpc ch = Some stub" "stub \<notin> A" by (auto simp: tracked_def cached_ids_def c(1))
  from assms(1) show "tracked (insert stub A) (channel_cache_update (cache_remove bid) w)"
    unfolding tracked_def cached_ids_def r by (auto simp: c(1))
qed

lemma tracked_flush:
  assumes "tracked A w"
  shows "tracked A (snd (flush_channels w))"
proof -
  have e: "zc_grpc (fst (snd x)) = Some (snd (snd x))" if "x \<in> set (channel_cache w)" for x
    using assms that by (auto simp: tracked_def)
  have "{i. Some i \<in> zc_grpc ` fst ` snd ` set (channel_cache w)} = set (cached_ids w)"
    by (auto simp: cached_ids_def e image_iff)
  moreover have "open_ids (w_chans w) - set (cached_ids w) = A" using assms by (auto simp: tracked_def)
  ultimately show ?thesis
    by (simp add: flush_run tracked_def cached_ids_def [of "_\<lparr>channel_cache := []\<rparr>"] open_ids_closed_all)
qed

interpretation tracked: channel_invariant "tracked A" ext "\<lambda>stub w. stub \<notin> A \<and> tracked (insert stub A) w" for A ext
proof (unfold_locales, goal_cases)
  case 6 show ?case by (rule keepsI) (rule tracked_flush)
next
  case (9 w w')
  then show ?case by (intro tracked_same [OF 9(1)]) (simp_all add: quiet_cache)
next
  case (10 w w' policy e bid)
  then show ?case by (rule tracked_store)
next
  case (11 w bid)
  then show ?case by (intro tracked_same [OF 11(1)]) (simp_all add: lookup_none)
next
  case (12 w bid ch stub)
  note ev = tracked_evict [OF 12]
  show ?case using tracked_close [OF ev(2,3)] by (simp add: ev(1))
next
  case (13 w w1 policy ch stub)
  then show ?case by (rule tracked_made)
next
  case (15 stub w)
  then show ?case by (intro tracked_close) simp_all
qed (auto simp: keeps_wp wp_simps Let_def intro: tracked_same split: sum.split)

interpretation tracked: loop_invariant "tracked A" ext for A ext
  by unfold_locales (auto simp: keeps_wp send_def wp_simps intro: tracked_same)

section \<open>Property\<close>

text \<open>
  C16.  No connection is leaked.  Whatever the MCP server reads and whatever its files, the network and
  the brokers answer, after a run the channels that are open are those that were open before and
  those in the channel cache, one per cache entry; every other channel the run opened (by an
  earlier configuration, a failed backend or a connectivity test) has been closed.
\<close>

theorem mcp_open_channels:
  "open_ids (w_chans (snd (mcp_main ext lines (mcp_start w home)))) =
     open_ids (w_chans w) \<union> set (cached_ids (snd (mcp_main ext lines (mcp_start w home)))) \<and>
   card (open_ids (w_chans (snd (mcp_main ext lines (mcp_start w home))))) =
     card (open_ids (w_chans w)) + length (channel_cache (snd (mcp_main ext lines (mcp_start w home))))"
proof -
  let ?w = "snd (mcp_main ext lines (mcp_start w home))"
  have "tracked (open_ids (w_chans w)) (mcp_start w home)"
    by (simp add: tracked_def cached_ids_def mcp_start_def world.extend_def)
  from keepsD [OF tracked.main this] have t: "tracked (open_ids (w_chans w)) ?w" .
  have "finite (open_ids (w_chans w))" by (simp add: open_ids_def)
  moreover have "card (set (cached_ids ?w)) = length (channel_cache ?w)"
    using t distinct_card [of "cached_ids ?w"] by (simp add: tracked_def) (simp add: cached_ids_def)
  ultimately show ?thesis using t by (simp add: tracked_def card_Un_disjoint)
qed

end
