(* ===== verification/McpDispatch.thy ===== *)
theory McpDispatch
  imports McpLoop
begin

text \<open>
  Dispatch of \<^verbatim>\<open>tools/call\<close> and of the other methods: which requests reach a handler, which are refused
  before anything happens, and what the listing of backends gives away.
\<close>

section \<open>Calls\<close>

text \<open>The MCP content item that wraps the result of a tool.\<close>

definition tool_content :: "pyval \<Rightarrow> pyval" where
  "tool_content result = PDict [(''content'', PList [PDict [(''type'', PStr ''text''), (''text'', PStr (json_dumps_indent result))]])]"

lemma handler_names: "map fst (TOOL_HANDLERS ext) = map fst TOOL_SCHEMAS"
  unfolding tool_names by (simp add: TOOL_HANDLERS_def)

lemma find_handler_str: "find_handler ext (PStr n) = Inr (map_option (\<lambda>h. (n, h)) (map_of (TOOL_HANDLERS ext) n))"
  by (simp add: find_handler_def)

lemma handler_exists: "(\<exists>h. map_of (TOOL_HANDLERS ext) n = Some h) \<longleftrightarrow> n \<in> set (map fst TOOL_SCHEMAS)"
proof -
  have "fst ` set (TOOL_HANDLERS ext) = set (map fst TOOL_SCHEMAS)"
    using handler_names [of ext] by (metis set_map)
  then show ?thesis using map_of_eq_None_iff [of "TOOL_HANDLERS ext" n] by auto
qed

text \<open>What a call of a tool by name does once its arguments are known.\<close>

definition tool_outcome :: "ext \<Rightarrow> string \<Rightarrow> pyval \<Rightarrow> (mcp, pyval) io" where
  "tool_outcome ext n args = (case map_of (TOOL_HANDLERS ext) n of
      None \<Rightarrow> io_return (error_result (''Unknown tool: '' @ n))
    | Some h \<Rightarrow> io_bind (io_lift (validate_required_args n args)) (\<lambda>err.
        case err of Some e \<Rightarrow> io_return e | None \<Rightarrow> run_handler h args))"

definition call_arguments :: "pydict \<Rightarrow> pyval" where
  "call_arguments p = (case map_of p ''arguments'' of None \<Rightarrow> PDict [] | Some a \<Rightarrow> a)"

lemma call_tool_named:
  assumes "map_of p ''name'' = Some (PStr n)"
  shows "call_tool ext (PDict p) = io_bind (tool_outcome ext n (call_arguments p)) (\<lambda>r. io_return (tool_content r))"
proof (rule ext)
  fix w
  show "call_tool ext (PDict p) w = io_bind (tool_outcome ext n (call_arguments p)) (\<lambda>r. io_return (tool_content r)) w"
    by (cases "map_of (TOOL_HANDLERS ext) n")
      (simp_all add: assms call_tool_def tool_outcome_def tool_content_def call_arguments_def find_handler_str io_bind_run [of "io_lift _"]
        io_lift_run)
qed

lemma validate_dict_total: "\<exists>e. validate_required_args n (PDict a) = Inr e"
  by (simp add: validate_required_args_def missing_args_dict Let_def)

lemma tool_outcome_total:
  assumes "is_dict args"
  shows "\<exists>r w'. tool_outcome ext n args w = (Inr r, w')"
proof -
  from assms obtain a where "args = PDict a" by (cases args) auto
  with validate_dict_total [of n a] show ?thesis
    by (auto simp: tool_outcome_def run_handler_def io_simps split: option.splits prod.splits sum.splits)
qed

lemma out_update_const: "w_out_update f w = w\<lparr>w_out := f (w_out w)\<rparr>" for w :: mcp
  by (cases w) simp

text \<open>What the listing shows of a backend.\<close>

definition public_view :: "pydict \<Rightarrow> pydict" where
  "public_view b = (let f = (\<lambda>k. case map_of b k of None \<Rightarrow> PNone | Some v \<Rightarrow> v) in
     [(''backend_id'', f ''backend_id''), (''name'', f ''name''), (''description'', f ''description''),
      (''security_level'', PStr (if f ''verifier'' = PStr ''noop'' then ''development'' else ''production''))])"

lemma sanitize_view: "sanitize_backends (map PDict bs) = Inr (map (PDict \<circ> public_view) bs)"
  by (induction bs) (simp_all add: public_view_def Let_def)

section \<open>Properties\<close>

text \<open>
  The tools the server announces are exactly the tools it can run, in the same order.
\<close>

theorem handlers_match_tools:
  "map fst (TOOL_HANDLERS ext) = map (\<lambda>t. text_of (get_or t ''name'' PNone)) TOOLS"
  using handler_names [of ext] by (simp add: TOOL_SCHEMAS_def comp_def)

text \<open>
  A tool call with an object as arguments always yields a result: no exception of a handler, of
  the verifier or of the broker escapes \<^verbatim>\<open>handle_request\<close>.  A name that is not in the tool table
  gives an error result and changes nothing.
\<close>

theorem call_tool_total:
  assumes "map_of p ''name'' = Some (PStr n)" and "is_dict (call_arguments p)"
  shows "(\<exists>result w'. handle_request ext (PStr ''tools/call'') (PDict p) w = (Inr (Reply (tool_content result)), w')) \<and>
    (if n \<in> set (map fst TOOL_SCHEMAS) then True
     else handle_request ext (PStr ''tools/call'') (PDict p) w =
       (Inr (Reply (tool_content (error_result (''Unknown tool: '' @ n)))), w))"
proof -
  obtain r w' where "tool_outcome ext n (call_arguments p) w = (Inr r, w')"
    using tool_outcome_total [OF assms(2)] by blast
  moreover have "tool_outcome ext n (call_arguments p) = io_return (error_result (''Unknown tool: '' @ n))"
    if "n \<notin> set (map fst TOOL_SCHEMAS)"
    using that handler_exists [of ext n] by (auto simp: tool_outcome_def split: option.split)
  ultimately show ?thesis
    by (auto simp: handle_request_def call_tool_named [OF assms(1)] io_simps)
qed

theorem call_tool_total_witness:
  "(\<exists>result w'. handle_request null_ext (PStr ''tools/call'') (PDict [(''name'', PStr ''x'')]) demo_state =
      (Inr (Reply (tool_content result)), w')) \<and>
    (if ''x'' \<in> set (map fst TOOL_SCHEMAS) then True
     else handle_request null_ext (PStr ''tools/call'') (PDict [(''name'', PStr ''x'')]) demo_state =
       (Inr (Reply (tool_content (error_result (''Unknown tool: '' @ ''x'')))), demo_state))"
  by (rule call_tool_total) (simp_all add: call_arguments_def)

text \<open>
  Required arguments are checked first.  A call that leaves out a required argument of its tool
  is answered with the error of the validation and has no effect at all: no file is read, no
  connection is made, nothing is printed.
\<close>

theorem missing_args_refused:
  assumes "map_of p ''name'' = Some (PStr n)" and "call_arguments p = PDict a" and "n \<in> set (map fst TOOL_SCHEMAS)"
    and "r \<in> set (required_args n)" and "r \<notin> fst ` set a"
  shows "\<exists>msg. call_tool ext (PDict p) w = (Inr (tool_content (error_result msg)), w)"
proof -
  from handler_exists [of ext n] assms(3) obtain h where h: "map_of (TOOL_HANDLERS ext) n = Some h" by blast
  from assms(4,5) have "filter (\<lambda>r. r \<notin> fst ` set a) (required_args n) \<noteq> []" by (auto simp: filter_empty_conv)
  then obtain msg where "validate_required_args n (PDict a) = Inr (Some (error_result msg))"
    by (simp add: validate_required_args_def missing_args_dict Let_def)
  with h assms(2) show ?thesis
    by (auto simp: call_tool_named [OF assms(1)] tool_outcome_def io_simps)
qed

theorem missing_args_refused_witness:
  "\<exists>msg. call_tool demo_ext (PDict [(''name'', PStr ''ztab_submit_input''),
      (''arguments'', PDict [(''participant_token'', PStr ''t'')])]) demo_state =
    (Inr (tool_content (error_result msg)), demo_state)"
  by (rule missing_args_refused [where n = "''ztab_submit_input''" and r = "''input_json''"
      and a = "[(''participant_token'', PStr ''t'')]"])
    (simp_all add: call_arguments_def required_args_of tool_names)

text \<open>
  A request for a method the server does not know is answered with the JSON-RPC error -32601,
  and apart from the output nothing changes.
\<close>

theorem unknown_method_reported:
  assumes "map_of d ''method'' = Some (PStr m)" and "map_of d ''id'' = Some i" and "i \<noteq> PNone"
    and "m \<notin> {''initialize'', ''notifications/initialized'', ''tools/list'', ''tools/call''}"
  shows "\<exists>log w'. process_message ext (PDict d) w = (Inr (), w') \<and> w' = w\<lparr>w_out := log\<rparr> \<and>
    stdout_lines w' = stdout_lines w @
      [response i (''error'', PDict [(''code'', PInt (- 32601)), (''message'', PStr (''Method not found: '' @ m))])]"
  using assms
  by (auto simp: process_message_def handle_request_def io_simps send_response print_stderr_def write_line_def
      stdout_lines_def intro!: exI out_update_const)

theorem unknown_method_reported_witness:
  "\<exists>log w'. process_message null_ext (PDict [(''id'', PStr ''1''), (''method'', PStr ''server/discover'')]) demo_state = (Inr (), w') \<and>
    w' = demo_state\<lparr>w_out := log\<rparr> \<and>
    stdout_lines w' = stdout_lines demo_state @
      [response (PStr ''1'') (''error'', PDict [(''code'', PInt (- 32601)), (''message'', PStr (''Method not found: '' @ ''server/discover''))])]"
  by (rule unknown_method_reported) simp_all

text \<open>
  The listing of backends shows of each backend its identifier, name and description and
  whether it is a production backend, and nothing else: host, port, expected digests and the
  creator token stay inside the server.
\<close>

theorem list_backends_sanitized:
  assumes "get_backends w = (Inr (Some (PDict c)), w')" and "map_of c ''backends'' = Some (PList (map PDict bs))"
    and "run_list_backends args w = (r, w'')"
  shows "\<exists>dflt. r = Inr (PDict [(''status'', PStr ''success''), (''backends'', PList (map (PDict \<circ> public_view) bs)),
      (''default_backend'', dflt)]) \<and> w'' = w' \<and> (dflt = PNone \<or> Some dflt = map_of c ''default_backend'') \<and>
    list_all (\<lambda>b. map fst (public_view b) = [''backend_id'', ''name'', ''description'', ''security_level'']) bs"
proof -
  have "truthy (PDict c)" using assms(2) by (cases c) auto
  with assms show ?thesis
    by (auto simp: run_list_backends_def io_simps sanitize_view list_all_iff split: option.splits)
      (simp_all add: public_view_def Let_def)
qed

theorem list_backends_sanitized_witness:
  "\<exists>dflt. fst (run_list_backends (PDict []) demo_state) = Inr (PDict [(''status'', PStr ''success''),
      (''backends'', PList (map (PDict \<circ> public_view) [dict_of demo_backend])), (''default_backend'', dflt)]) \<and>
    snd (run_list_backends (PDict []) demo_state) = snd (get_backends demo_state) \<and>
    (dflt = PNone \<or> Some dflt = map_of (dict_of demo_loaded) ''default_backend'') \<and>
    list_all (\<lambda>b. map fst (public_view b) = [''backend_id'', ''name'', ''description'', ''security_level'']) [dict_of demo_backend]"
proof (rule list_backends_sanitized)
  have "fst (get_backends demo_state) = Inr (Some (PDict (dict_of demo_loaded)))" by code_simp
  then show "get_backends demo_state = (Inr (Some (PDict (dict_of demo_loaded))), snd (get_backends demo_state))"
    by (simp add: prod_eq_iff)
  show "map_of (dict_of demo_loaded) ''backends'' = Some (PList (map PDict [dict_of demo_backend]))" by code_simp
qed simp

end
