(* ===== verification/Cli.thy ===== *)
theory Cli
  imports Client
begin

text \<open>
  \<^verbatim>\<open>agent/cli.py\<close>: one command per process.  The option tables of \<^verbatim>\<open>build_parser\<close> are data; \<open>parse_args\<close>
  applies them to the options of the command line, given as pairs of option and text (how argparse
  splits the words of the command line into such pairs, its help text and its usage messages are
  outside the model).  The namespace is a dictionary, as \<^verbatim>\<open>getattr\<close> and \<^verbatim>\<open>hasattr\<close> see it.
\<close>

section \<open>Options\<close>

datatype opt_type = OptStr | OptInt | OptFlag | OptChoice "string list"

record option_spec =
  os_name :: string
  os_type :: opt_type
  os_required :: bool
  os_default :: pyval

definition opt :: "string \<Rightarrow> opt_type \<Rightarrow> pyval \<Rightarrow> option_spec" where
  "opt n t d = \<lparr>os_name = n, os_type = t, os_required = False, os_default = d\<rparr>"

definition required_opt :: "string \<Rightarrow> opt_type \<Rightarrow> option_spec" where
  "required_opt n t = \<lparr>os_name = n, os_type = t, os_required = True, os_default = PNone\<rparr>"

definition connection_args :: "option_spec list" where
  "connection_args =
     [opt ''host'' OptStr (PStr ''localhost''),
      opt ''port'' OptInt (PInt 8000),
      required_opt ''verifier'' (OptChoice [''noop'', ''ita'']),
      opt ''expected_digest'' OptStr PNone,
      opt ''allow_debug_tee'' OptFlag (PBool False),
      opt ''expected_project_id'' OptStr (PStr []),
      opt ''expected_service_account'' OptStr (PStr []),
      opt ''min_cs_version'' OptInt PNone,
      opt ''quiet'' OptFlag (PBool False)]"

definition token_opt :: "env \<Rightarrow> option_spec" where
  "token_opt env = opt ''token'' OptStr (case env ''ZTAB_TOKEN'' of None \<Rightarrow> PNone | Some t \<Rightarrow> PStr t)"

definition build_parser :: "env \<Rightarrow> (string \<times> option_spec list) list" where
  "build_parser env =
     [(''echo'', connection_args @ [opt ''message'' OptStr (PStr ''hello from ZTAB client'')]),
      (''create_session'', connection_args @
         [opt ''policy'' OptStr (PStr ''ScheduleOverlap''), opt ''participants'' OptInt (PInt 2),
          opt ''timeout'' OptInt (PInt 300), opt ''input_schema'' OptStr (PStr []),
          opt ''output_schema'' OptStr (PStr []), opt ''creator_token'' OptStr (PStr []),
          opt ''client_nonce'' OptStr (PStr [])]),
      (''join_session'', connection_args @
         [required_opt ''invitation_token'' OptStr, opt ''client_nonce'' OptStr (PStr []), opt ''role'' OptStr (PStr [])]),
      (''accept_policy'', connection_args @ [token_opt env]),
      (''submit_input'', connection_args @ [token_opt env, required_opt ''input'' OptStr]),
      (''get_result'', connection_args @ [token_opt env]),
      (''get_status'', connection_args @ [token_opt env])]"

text \<open>The value of an option given as text; argparse exits with status 2 when it does not convert.\<close>

definition convert_opt :: "opt_type \<Rightarrow> string \<Rightarrow> pyval res" where
  "convert_opt t text = (case t of
      OptStr \<Rightarrow> Inr (PStr text)
    | OptFlag \<Rightarrow> Inr (PBool True)
    | OptChoice cs \<Rightarrow> if text \<in> set cs then Inr (PStr text) else Inl (SystemExit 2)
    | OptInt \<Rightarrow> (case py_int (PStr text) of Inr n \<Rightarrow> Inr (PInt n) | Inl _ \<Rightarrow> Inl (SystemExit 2)))"

fun take_options :: "option_spec list \<Rightarrow> (string \<times> string) list \<Rightarrow> pydict \<Rightarrow> pydict res" where
  "take_options specs [] ns = Inr ns"
| "take_options specs ((n, text) # given) ns =
     (case find (\<lambda>s. os_name s = n) specs of
        None \<Rightarrow> Inl (SystemExit 2)
      | Some s \<Rightarrow> rbind (convert_opt (os_type s) text) (\<lambda>v. take_options specs given (dict_set n v ns)))"

fun fill_options :: "option_spec list \<Rightarrow> pydict \<Rightarrow> pydict res" where
  "fill_options [] ns = Inr []"
| "fill_options (s # specs) ns =
     (case map_of ns (os_name s) of
        Some v \<Rightarrow> rbind (fill_options specs ns) (\<lambda>r. Inr ((os_name s, v) # r))
      | None \<Rightarrow> if os_required s then Inl (SystemExit 2)
                else rbind (fill_options specs ns) (\<lambda>r. Inr ((os_name s, os_default s) # r)))"

definition parse_args :: "env \<Rightarrow> string option \<Rightarrow> (string \<times> string) list \<Rightarrow> (string option \<times> pydict) res" where
  "parse_args env command given = (case command of
      None \<Rightarrow> if given = [] then Inr (None, []) else Inl (SystemExit 2)
    | Some c \<Rightarrow> (case map_of (build_parser env) c of
        None \<Rightarrow> Inl (SystemExit 2)
      | Some specs \<Rightarrow> rbind (take_options specs given []) (\<lambda>ns. rbind (fill_options specs ns) (\<lambda>r. Inr (Some c, r)))))"

section \<open>Namespace\<close>

text \<open>\<^verbatim>\<open>args.name\<close> and \<^verbatim>\<open>getattr(args, name, default)\<close>.\<close>

definition attr :: "pydict \<Rightarrow> string \<Rightarrow> pyval res" where
  "attr args k = (case map_of args k of
      Some v \<Rightarrow> Inr v
    | None \<Rightarrow> Inl (Exn AttributeError (quoted ''Namespace'' @ '' object has no attribute '' @ quoted k)))"

definition getattr :: "pydict \<Rightarrow> string \<Rightarrow> pyval \<Rightarrow> pyval" where
  "getattr args k d = (case map_of args k of Some v \<Rightarrow> v | None \<Rightarrow> d)"

definition pb_field :: "ext \<Rightarrow> pyval res \<Rightarrow> string res" where
  "pb_field ext v = rbind v (pb_string ext)"

section \<open>Connection\<close>

text \<open>The distinct non-blank parts of a comma-separated list.\<close>

definition digest_list :: "string \<Rightarrow> string list" where
  "digest_list s = filter (\<lambda>d. d \<noteq> []) (map strip (split_on (CHR '','') s))"

text \<open>
  An option of type \<^verbatim>\<open>int\<close> as the integer that it is; argparse gives no other value (\<open>connection_value\<close> below), so
  the second equation is not used.
\<close>

fun int_value :: "pyval \<Rightarrow> int res" where
  "int_value (PInt n) = Inr n"
| "int_value v = Inl (Exn TypeError (''an integer is required (got type '' @ type_name v @ '')''))"

definition build_policy :: "pydict \<Rightarrow> ('a world_scheme, verifier_policy) io" where
  "build_policy args =
     io_bind (io_lift (attr args ''verifier'')) (\<lambda>name.
     if py_eq name (PStr ''noop'') then io_return NoopPolicy
     else if py_eq name (PStr ''ita'') then
       io_bind (io_lift (case getattr args ''expected_digest'' PNone of
           PStr (c # s) \<Rightarrow> py_frozenset (map PStr (digest_list (c # s)))
         | v \<Rightarrow> if truthy v then Inl (attribute_error v ''split'') else Inr [])) (\<lambda>digests.
       io_bind (io_lift (case getattr args ''min_cs_version'' PNone of PNone \<Rightarrow> Inr MIN_CS_VERSION_DEFAULT | v \<Rightarrow> int_value v)) (\<lambda>min_ver.
       io_return (ItaPolicy (ita_default\<lparr>expected_image_digests := digests,
         allow_debug := getattr args ''allow_debug_tee'' (PBool False),
         expected_project_id := getattr args ''expected_project_id'' (PStr []),
         expected_service_account := getattr args ''expected_service_account'' (PStr []),
         min_cs_version := min_ver\<rparr>))))
     else
       io_bind (print_stderr (''Unknown verifier: '' @ quoted (py_str name) @ ''. Use '' @ quoted ''noop'' @ '' or ''
         @ quoted ''ita'' @ ''.'')) (\<lambda>_. io_raise (SystemExit 1)))"

definition make_stub :: "ext \<Rightarrow> pydict \<Rightarrow> ('a world_scheme, nat \<times> ztab_channel) io" where
  "make_stub ext args =
     io_bind (build_policy args) (\<lambda>policy.
     io_bind (io_get w_env) (\<lambda>env.
     io_bind (io_lift (get_verifier env policy)) (\<lambda>verifier.
     io_bind (io_lift (attr args ''host'')) (\<lambda>host.
     io_bind (io_lift (rbind (attr args ''port'') int_value)) (\<lambda>port.
     io_bind (io_lift (ZtabChannel host port (Some verifier))) (\<lambda>channel_wrapper.
     io_bind (connect ext channel_wrapper) (\<lambda>ch.
     io_return (the (zc_grpc ch), ch))))))))"

text \<open>The frame of every command: connect, then \<^verbatim>\<open>try: body finally: channel.close()\<close>.\<close>

definition with_stub :: "ext \<Rightarrow> pydict \<Rightarrow> (nat \<Rightarrow> ('a world_scheme, unit) io) \<Rightarrow> ('a world_scheme, unit) io" where
  "with_stub ext args body =
     io_bind (make_stub ext args) (\<lambda>(stub, channel).
     io_bind (io_catch (body stub) (\<lambda>e. io_bind (zc_close channel) (\<lambda>_. io_raise e))) (\<lambda>_.
     io_bind (zc_close channel) (\<lambda>_. io_return ())))"

section \<open>Commands\<close>

definition nl :: "string \<Rightarrow> string" where
  "nl s = newline_char # s"

text \<open>Printing several lines one after the other.\<close>

fun print_all :: "string list \<Rightarrow> ('a world_scheme, unit) io" where
  "print_all [] = io_return ()"
| "print_all (s # ss) = io_bind (py_print s) (\<lambda>_. print_all ss)"

definition cmd_echo :: "ext \<Rightarrow> pydict \<Rightarrow> ('a world_scheme, unit) io" where
  "cmd_echo ext args = with_stub ext args (\<lambda>stub.
     io_bind (io_lift (attr args ''message'')) (\<lambda>message.
     io_bind (io_lift (pb_string ext message)) (\<lambda>msg.
     io_bind (py_print (''Sending Echo request: '' @ quoted (py_str message))) (\<lambda>_.
     io_bind (rpc_call stub (EchoRequest msg) None (\<lambda>b. b_echo b msg)) (\<lambda>reply.
     print_all [''Echo response: '' @ quoted reply, nl ''End-to-end TLS + gRPC test PASSED.''])))))"

text \<open>An optional schema: the field is set only when the option is not empty.\<close>

definition schema_field :: "ext \<Rightarrow> pydict \<Rightarrow> string \<Rightarrow> string res" where
  "schema_field ext args k = rbind (attr args k) (\<lambda>v. if truthy v then pb_string ext v else Inr [])"

definition cli_metadata :: "pyval \<Rightarrow> metadata" where
  "cli_metadata creator_token = (if truthy creator_token then Some [(''x-ztab-creator-token'', creator_token)] else None)"

definition em_dash :: string where
  "em_dash = [CHR 0xE2, CHR 0x80, CHR 0x94]"

definition cmd_create_session :: "ext \<Rightarrow> pydict \<Rightarrow> ('a world_scheme, unit) io" where
  "cmd_create_session ext args = with_stub ext args (\<lambda>stub.
     io_bind (io_lift (pb_field ext (attr args ''policy''))) (\<lambda>pc.
     io_bind (io_lift (rbind (attr args ''participants'') (pb_int32 ext))) (\<lambda>n.
     io_bind (io_lift (rbind (attr args ''timeout'') (pb_int32 ext))) (\<lambda>t.
     io_bind (io_lift (schema_field ext args ''input_schema'')) (\<lambda>ins.
     io_bind (io_lift (schema_field ext args ''output_schema'')) (\<lambda>outs.
     io_bind (io_lift (attr args ''creator_token'')) (\<lambda>creator_token.
     io_bind (io_lift (pb_field ext (attr args ''client_nonce''))) (\<lambda>nonce.
     let policy = \<lparr>sp_class = pc, sp_input_schema = ins, sp_output_schema = outs, sp_participants = n, sp_timeout = t\<rparr>;
         md = cli_metadata creator_token in
     io_bind (rpc_call stub (CreateSessionRequest policy nonce) md (\<lambda>b. b_create b md policy nonce)) (\<lambda>r.
     io_bind (print_all [''Session created successfully.'', ''  invitation_token: '' @ cr_invitation r]) (\<lambda>_.
     io_bind (io_lift (SessionState_Name (cr_state r))) (\<lambda>state.
     print_all [''  state:            '' @ state, ''  token:            '' @ cr_token r,
       nl ''Share the invitation_token with other participants.'',
       ''Your token is secret '' @ em_dash @ '' use it for subsequent RPCs.''])))))))))))"

text \<open>\<^verbatim>\<open>args.role or ""\<close>.\<close>

definition or_empty :: "pyval \<Rightarrow> pyval" where
  "or_empty v = (if truthy v then v else PStr [])"

definition cmd_join_session :: "ext \<Rightarrow> pydict \<Rightarrow> ('a world_scheme, unit) io" where
  "cmd_join_session ext args = with_stub ext args (\<lambda>stub.
     io_bind (io_lift (attr args ''invitation_token'')) (\<lambda>inv.
     io_bind (io_lift (attr args ''role'')) (\<lambda>role.
     io_bind (io_lift (attr args ''client_nonce'')) (\<lambda>nonce.
     io_bind (io_lift (pb_string ext inv)) (\<lambda>inv'.
     io_bind (io_lift (pb_string ext (or_empty role))) (\<lambda>role'.
     io_bind (io_lift (pb_string ext (or_empty nonce))) (\<lambda>nonce'.
     io_bind (rpc_call stub (JoinSessionRequest inv' role' nonce') None (\<lambda>b. b_join b inv' role' nonce')) (\<lambda>r.
     io_bind (py_print ''Joined session successfully.'') (\<lambda>_.
     io_bind (io_lift (SessionState_Name (jr_state r))) (\<lambda>state.
     print_all [''  state:        '' @ state, ''  policy_class: '' @ sp_class (jr_policy r),
       ''  expected:     '' @ int_str (sp_participants (jr_policy r)) @ '' participants'',
       ''  token:        '' @ jr_token r, nl ''Review the policy above, then call accept-policy.'']))))))))))"

definition cmd_accept_policy :: "ext \<Rightarrow> pydict \<Rightarrow> ('a world_scheme, unit) io" where
  "cmd_accept_policy ext args = with_stub ext args (\<lambda>stub.
     io_bind (io_lift (pb_field ext (attr args ''token''))) (\<lambda>tok.
     io_bind (rpc_call stub (AcceptPolicyRequest tok) None (\<lambda>b. b_accept b tok)) (\<lambda>st.
     io_bind (io_lift (SessionState_Name st)) (\<lambda>state_name.
     print_all ([''Policy accepted.'', ''  state: '' @ state_name] @
       (if st = SEALED then [nl ''All participants have accepted. Session is SEALED.'', ''You can now submit your input.'']
        else [nl ''Waiting for other participants to accept.'']))))))"

text \<open>
  The input comes from the option or, for \<^verbatim>\<open>-\<close>, from standard input, and has to be JSON.
\<close>

definition checked_input :: "string res \<Rightarrow> pydict \<Rightarrow> ('a world_scheme, string) io" where
  "checked_input stdin args =
     io_bind (io_lift (attr args ''input'')) (\<lambda>given.
     io_bind (io_lift (case given of
         PStr s \<Rightarrow> if s = ''-'' then stdin else Inr s
       | v \<Rightarrow> Inl (Exn TypeError (''the JSON object must be str, bytes or bytearray, not '' @ type_name v)))) (\<lambda>input_json.
     io_bind (io_catch (io_bind (io_lift (json_loads input_json)) (\<lambda>_. io_return ()))
        (\<lambda>e. if exn_kind e = JSONDecodeError
              then io_bind (print_stderr (''Error: Invalid JSON input: '' @ exn_str e)) (\<lambda>_. io_raise (SystemExit 1))
              else io_raise e)) (\<lambda>_.
     io_return input_json)))"

definition cmd_submit_input :: "ext \<Rightarrow> string res \<Rightarrow> pydict \<Rightarrow> ('a world_scheme, unit) io" where
  "cmd_submit_input ext stdin args = with_stub ext args (\<lambda>stub.
     io_bind (checked_input stdin args) (\<lambda>input_json.
     io_bind (io_lift (pb_field ext (attr args ''token''))) (\<lambda>tok.
     io_bind (io_lift (pb_string ext (PStr input_json))) (\<lambda>inp.
     io_bind (rpc_call stub (SubmitInputRequest tok inp) None (\<lambda>b. b_submit b tok inp)) (\<lambda>r.
     io_bind (io_lift (SessionState_Name (sr_state r))) (\<lambda>state_name.
     print_all ([''Input submitted.'', ''  state:     '' @ state_name,
         ''  remaining: '' @ int_str (sr_remaining r) @ '' inputs needed''] @
       (if sr_remaining r = 0
        then [nl ''All inputs received. LLM processing has started.'', ''Call get-result to retrieve the output.'']
        else [nl ''Waiting for '' @ int_str (sr_remaining r) @ '' more input(s).'']))))))))"

text \<open>What is printed of a result: pretty when it is JSON, raw otherwise.\<close>

definition result_lines :: "result_response \<Rightarrow> string \<Rightarrow> ('a world_scheme, unit) io" where
  "result_lines r state_name =
     (if rr_state r = CLOSED then
        io_bind (py_print (nl ''Result:'')) (\<lambda>_.
        case json_loads (rr_json r) of
          Inr v \<Rightarrow> py_print (json_dumps_indent v)
        | Inl e \<Rightarrow> if exn_kind e = JSONDecodeError then py_print (rr_json r) else io_raise e)
      else if rr_state r = ABORTED then
        io_bind (io_lift (SessionError_Name (rr_error r))) (\<lambda>error_name.
        print_all [nl ''Session ABORTED:'', ''  error: '' @ error_name, ''  detail: '' @ rr_detail r])
      else print_all [nl ''Result not yet available. Session is still '' @ state_name @ ''.'',
        ''Try again after all inputs are submitted.''])"

definition cmd_get_result :: "ext \<Rightarrow> pydict \<Rightarrow> ('a world_scheme, unit) io" where
  "cmd_get_result ext args = with_stub ext args (\<lambda>stub.
     io_bind (io_lift (pb_field ext (attr args ''token''))) (\<lambda>tok.
     io_bind (rpc_call stub (GetResultRequest tok) None (\<lambda>b. b_result b tok)) (\<lambda>r.
     io_bind (io_lift (SessionState_Name (rr_state r))) (\<lambda>state_name.
     io_bind (py_print (''  state: '' @ state_name)) (\<lambda>_.
     result_lines r state_name)))))"

definition cmd_get_status :: "ext \<Rightarrow> pydict \<Rightarrow> ('a world_scheme, unit) io" where
  "cmd_get_status ext args = with_stub ext args (\<lambda>stub.
     io_bind (io_lift (pb_field ext (attr args ''token''))) (\<lambda>tok.
     io_bind (rpc_call stub (GetSessionStatusRequest tok) None (\<lambda>b. b_status b tok)) (\<lambda>r.
     io_bind (io_lift (SessionState_Name (st_state r))) (\<lambda>state_name.
     print_all [''Session status:'', ''  state:    '' @ state_name, ''  joined:   '' @ int_str (st_joined r),
       ''  accepted: '' @ int_str (st_accepted r), ''  inputs:   '' @ int_str (st_inputs r)]))))"

section \<open>Main\<close>

definition commands :: "ext \<Rightarrow> string res \<Rightarrow> (string \<times> (pydict \<Rightarrow> ('a world_scheme, unit) io)) list" where
  "commands ext stdin =
     [(''echo'', cmd_echo ext), (''create_session'', cmd_create_session ext), (''join_session'', cmd_join_session ext),
      (''accept_policy'', cmd_accept_policy ext), (''submit_input'', cmd_submit_input ext stdin),
      (''get_result'', cmd_get_result ext), (''get_status'', cmd_get_status ext)]"

text \<open>The \<^verbatim>\<open>try\<close> statement of \<^verbatim>\<open>main\<close> around the command.\<close>

definition run_command :: "('a world_scheme, unit) io \<Rightarrow> ('a world_scheme, unit) io" where
  "run_command cmd = io_catch cmd (\<lambda>e.
     if is_exit e then io_raise e
     else io_bind (print_stderr (case exn_kind e of
              RpcError code \<Rightarrow> nl ''gRPC error: StatusCode.'' @ status_name code @ '': '' @ exn_str e
            | _ \<Rightarrow> nl ''Error: '' @ exn_str e)) (\<lambda>_. io_raise (SystemExit 1)))"

definition token_missing :: "pydict \<Rightarrow> bool" where
  "token_missing args \<longleftrightarrow> (case map_of args ''token'' of None \<Rightarrow> False | Some t \<Rightarrow> \<not> truthy t)"

definition cli_main :: "ext \<Rightarrow> string res \<Rightarrow> string \<Rightarrow> string option \<Rightarrow> (string \<times> string) list \<Rightarrow> ('a world_scheme, unit) io" where
  "cli_main ext stdin help_text command given =
     io_bind (io_get w_env) (\<lambda>env.
     io_bind (io_lift (parse_args env command given)) (\<lambda>(cmd, args).
     case cmd of
       None \<Rightarrow> io_bind (py_print help_text) (\<lambda>_. io_raise (SystemExit 1))
     | Some c \<Rightarrow>
         if token_missing args
         then io_bind (print_stderr (''Error: The --token flag or ZTAB_TOKEN environment variable is required ''
                @ ''for this command.'')) (\<lambda>_. io_raise (SystemExit 1))
         else run_command (case map_of (commands ext stdin) c of
            Some f \<Rightarrow> f args
          | None \<Rightarrow> io_raise (Exn KeyError (quoted c)))))"

text \<open>The exit status of the process.\<close>

definition exit_status :: "unit res \<Rightarrow> nat" where
  "exit_status r = (case r of Inr _ \<Rightarrow> 0 | Inl e \<Rightarrow> if e = SystemExit 2 then 2 else 1)"

section \<open>What a command does to channels and trace\<close>

text \<open>The body of a command talks on its own channel and opens or closes none.\<close>

definition stays :: "nat \<Rightarrow> 'a world_scheme \<Rightarrow> 'a world_scheme \<Rightarrow> bool" where
  "stays c w w' \<longleftrightarrow> w_env w' = w_env w \<and> w_chans w' = w_chans w \<and>
     (\<exists>es. w_events w' = w_events w @ es \<and> (\<forall>e \<in> set es. \<exists>req md. e = RpcSent c req md))"

lemma keeps_stays_prims [keeps_rules]:
  "keeps (stays c w) (py_print s)" "keeps (stays c w) (print_stderr s)" "keeps (stays c w) (rpc_call c req md answer)"
  by (auto simp: keeps_wp wp_simps stays_def Let_def split: sum.split)

lemma keeps_stays_print_all [keeps_rules]: "keeps (stays c w) (print_all ss)"
  by (induction ss) (auto intro!: keeps_rules)

lemma keeps_stays_input [keeps_rules]: "keeps (stays c w) (checked_input stdin args)"
  unfolding checked_input_def by (intro keeps_rules)

lemma keeps_stays_result [keeps_rules]: "keeps (stays c w) (result_lines r st)"
  unfolding result_lines_def by (intro keeps_rules)

text \<open>
  A run opens at most one channel.  Afterwards it is closed; its certificate was accepted by the
  verifier of a policy that validates in this environment; and every RPC of the run went over it.
\<close>

definition cli_effect :: "ext \<Rightarrow> 'a world_scheme \<Rightarrow> 'a world_scheme \<Rightarrow> bool" where
  "cli_effect ext w w' \<longleftrightarrow> w_env w' = w_env w \<and>
     (\<exists>gcs es. w_chans w' = w_chans w @ gcs \<and> w_events w' = w_events w @ es \<and> length gcs \<le> 1 \<and>
        list_all (\<lambda>gc. \<not> gc_open gc \<and> (\<exists>p v. get_verifier (w_env w) p = Inr v \<and>
          accepted_by ext v (w_env w) (w_events w') (gc_root gc))) gcs \<and>
        list_all (\<lambda>e. case e of RpcSent c _ _ \<Rightarrow> gcs \<noteq> [] \<and> c = length (w_chans w) | _ \<Rightarrow> True) es)"

definition no_effect :: "'a world_scheme \<Rightarrow> 'a world_scheme \<Rightarrow> bool" where
  "no_effect w w' \<longleftrightarrow> w_env w' = w_env w \<and> w_chans w' = w_chans w \<and>
     (\<exists>es. w_events w' = w_events w @ es \<and> (\<forall>e \<in> set es. \<not> is_rpc e))"

lemma no_effect_refl [simp]: "no_effect w w"
  by (simp add: no_effect_def)

lemma no_effect_cli: "no_effect w w' \<Longrightarrow> cli_effect ext w w'"
proof -
  assume "no_effect w w'"
  then obtain es where e: "w_env w' = w_env w" "w_chans w' = w_chans w" "w_events w' = w_events w @ es"
    "\<forall>e \<in> set es. \<not> is_rpc e" by (auto simp: no_effect_def)
  then show ?thesis unfolding cli_effect_def
    by (intro conjI exI [of _ "[] :: grpc_chan list"] exI [of _ es]) (fastforce simp: list_all_iff split: event.split)+
qed

lemma quiet_no_effect: "quiet w w' \<Longrightarrow> w_chans w' = w_chans w \<Longrightarrow> no_effect w w'"
  by (auto simp: no_effect_def quiet_fields) (auto simp: quiet_def)

lemma build_policy_effect: "wp (build_policy args) (\<lambda>_ w'. w' = w) (\<lambda>_ w'. no_effect w w') w"
  unfolding build_policy_def by (auto simp: wp_simps no_effect_def split: sum.split)

definition stub_ready :: "ext \<Rightarrow> 'a world_scheme \<Rightarrow> nat \<times> ztab_channel \<Rightarrow> 'a world_scheme \<Rightarrow> bool" where
  "stub_ready ext w = (\<lambda>(stub, ch) w'. stub = length (w_chans w) \<and> zc_grpc ch = Some stub \<and> quiet w w' \<and>
     (\<exists>p gc. w_chans w' = w_chans w @ [gc] \<and> get_verifier (w_env w) p = Inr (zc_verifier ch) \<and>
        accepted_by ext (zc_verifier ch) (w_env w) (w_events w') (gc_root gc)))"

lemma make_stub_effect: "wp (make_stub ext args) (stub_ready ext w) (\<lambda>_ w'. no_effect w w') w"
proof -
  have conn: "wp (connect ext ch0) (\<lambda>ch. wp (io_return (the (zc_grpc ch), ch)) (stub_ready ext w) (\<lambda>_ w'. no_effect w w'))
      (\<lambda>_ w'. no_effect w w') w"
    if "get_verifier (w_env w) policy = Inr (zc_verifier ch0)" for policy ch0
    by (rule wp_mono [OF connect_effect])
      (use that in \<open>auto simp: wp_simps stub_ready_def Client.connected_def accepted_by_def quiet_no_effect quiet_fields(1)\<close>)
  show ?thesis
    unfolding make_stub_def wp_bind [of "build_policy args"]
    by (rule wp_mono [OF build_policy_effect])
      (auto simp: wp_bind [of "io_lift _"] wp_bind [of "io_get _"] wp_bind [of "connect _ _"] wp_lift wp_get ZtabChannel_def
        split: sum.split intro!: conn)
qed

lemma closed_effect:
  assumes "stub_ready ext w (stub, ch) w1" "stays stub w1 w2"
  shows "cli_effect ext w (w_events_update (\<lambda>es. es @ [ChannelClosed stub]) (w_chans_update (shut stub) w2))"
proof -
  from assms(1) have q: "quiet w w1" by (simp add: stub_ready_def)
  from assms(1) obtain p gc where s: "stub = length (w_chans w)" "w_chans w1 = w_chans w @ [gc]"
    "get_verifier (w_env w) p = Inr (zc_verifier ch)" "accepted_by ext (zc_verifier ch) (w_env w) (w_events w1) (gc_root gc)"
    unfolding stub_ready_def prod.case by blast
  from q obtain es where e: "w_events w1 = w_events w @ es" "\<forall>e \<in> set es. \<not> is_rpc e" "w_env w1 = w_env w"
    using quiet_fields(1) [OF q] unfolding quiet_def by blast
  from assms(2) obtain es' where t: "w_env w2 = w_env w1" "w_chans w2 = w_chans w1" "w_events w2 = w_events w1 @ es'"
    "\<forall>e \<in> set es'. \<exists>req md. e = RpcSent stub req md"
    by (auto simp: stays_def)
  have "shut stub (w_chans w @ [gc]) = w_chans w @ [gc\<lparr>gc_open := False\<rparr>]"
    using s(1) by (simp add: shut_def list_update_append)
  moreover have "accepted_by ext (zc_verifier ch) (w_env w) (w_events w @ es @ es' @ [ChannelClosed stub]) (gc_root gc)"
    using ztab.accepts_mono [of ext ch "w_env w" "w_events w1" "gc_root gc" "es' @ [ChannelClosed stub]"] s(4) e(1) by simp
  moreover have "list_all (\<lambda>e. case e of RpcSent c _ _ \<Rightarrow> c = length (w_chans w) | _ \<Rightarrow> True) (es @ es' @ [ChannelClosed stub])"
    using s(1) e(2) t(4) by (fastforce simp: list_all_iff split: event.split)
  ultimately show ?thesis
    unfolding cli_effect_def
    by (intro conjI exI [of _ "[gc\<lparr>gc_open := False\<rparr>]"] exI [of _ "es @ es' @ [ChannelClosed stub]"])
      (simp_all add: s(1,2) e(1,3) t(1-3), use s(3) in blast)
qed

lemma with_stub_effect:
  assumes "\<And>c w. keeps (stays c w) (body c)"
  shows "wp (with_stub ext args body) (\<lambda>_. cli_effect ext w) (\<lambda>_. cli_effect ext w) w"
  unfolding with_stub_def wp_bind [of "make_stub _ _"]
proof (rule wp_mono [OF make_stub_effect], goal_cases)
  case (1 sc w1)
  obtain stub ch where sc: "sc = (stub, ch)" by (cases sc)
  with 1 have g: "zc_grpc ch = Some stub" by (simp add: stub_ready_def)
  have "stays stub w1 w1" by (simp add: stays_def)
  note run = wp_keeps [OF assms this]
  show ?case
    unfolding sc prod.case wp_bind [of "io_catch _ _"] wp_catch
    by (rule wp_mono [OF run]) (use closed_effect [OF 1 [unfolded sc]] g in \<open>auto simp: zc_close_def wp_simps\<close>)
qed (rule no_effect_cli)

lemma command_effect:
  assumes "map_of (commands ext stdin) c = Some f"
  shows "wp (f args) (\<lambda>_. cli_effect ext w) (\<lambda>_. cli_effect ext w) w"
proof -
  have "f \<in> {cmd_echo ext, cmd_create_session ext, cmd_join_session ext, cmd_accept_policy ext,
      cmd_submit_input ext stdin, cmd_get_result ext, cmd_get_status ext}"
    using assms by (auto simp: commands_def split: if_splits)
  then show ?thesis
    unfolding cmd_echo_def cmd_create_session_def cmd_join_session_def cmd_accept_policy_def cmd_submit_input_def
      cmd_get_result_def cmd_get_status_def Let_def
    by (auto intro!: with_stub_effect keeps_rules)
qed

lemma cli_effect_err: "cli_effect ext w w' \<Longrightarrow> cli_effect ext w (w_out_update f w')"
  by (simp add: cli_effect_def)

lemma cli_main_effect:
  fixes w :: "'a world_scheme"
  shows "wp (cli_main ext stdin usage command given) (\<lambda>_. cli_effect ext w) (\<lambda>_. cli_effect ext w) w"
proof -
  have same: "cli_effect ext w w" "cli_effect ext w (w_out_update f w)" for f
    by (simp_all add: no_effect_cli cli_effect_err)
  have cmd: "wp (run_command (f args)) (\<lambda>_. cli_effect ext w) (\<lambda>_. cli_effect ext w) w"
    if "map_of (commands ext stdin) c = Some f" for c f args
    unfolding run_command_def wp_catch
    by (rule wp_mono [OF command_effect [OF that]]) (auto simp: wp_simps cli_effect_err)
  have none: "wp (run_command (io_raise e)) (\<lambda>_. cli_effect ext w) (\<lambda>_. cli_effect ext w) w" for e
    by (simp add: run_command_def wp_simps same cli_effect_err)
  show ?thesis
    unfolding cli_main_def by (auto simp: wp_simps same split: sum.split option.split intro: cmd none)
qed

text \<open>A command whose body fails before it sends anything.\<close>

definition no_rpc_run :: "'a world_scheme \<Rightarrow> 'a world_scheme \<Rightarrow> bool" where
  "no_rpc_run w w' \<longleftrightarrow> (\<exists>es gcs. w_events w' = w_events w @ es \<and> list_all (\<lambda>ev. \<not> is_rpc ev) es \<and>
     w_chans w' = w_chans w @ gcs \<and> list_all (\<lambda>gc. \<not> gc_open gc) gcs)"

lemma with_stub_fails:
  assumes "\<And>c w1. wp (body c) (\<lambda>_ _. False) (\<lambda>_ w2. w_events w2 = w_events w1 \<and> w_chans w2 = w_chans w1) w1"
  shows "wp (with_stub ext args body) (\<lambda>_ _. False) (\<lambda>_ w2. no_rpc_run w w2) w"
  unfolding with_stub_def wp_bind [of "make_stub _ _"]
proof (rule wp_mono [OF make_stub_effect], goal_cases)
  case (1 sc w1)
  obtain stub ch where sc: "sc = (stub, ch)" by (cases sc)
  with 1 obtain gc where g: "zc_grpc ch = Some stub" "stub = length (w_chans w)" "w_chans w1 = w_chans w @ [gc]" "quiet w w1"
    by (auto simp: stub_ready_def)
  then obtain es where e: "w_events w1 = w_events w @ es" "\<forall>e \<in> set es. \<not> is_rpc e"
    unfolding quiet_def by blast
  have "shut stub (w_chans w @ [gc]) = w_chans w @ [gc\<lparr>gc_open := False\<rparr>]"
    using g(2) by (simp add: shut_def list_update_append)
  then have "no_rpc_run w (w_events_update (\<lambda>es. es @ [ChannelClosed stub]) (w_chans_update (shut stub) w2))"
    if "w_events w2 = w_events w1" "w_chans w2 = w_chans w1" for w2
    unfolding no_rpc_run_def
    by (intro exI [of _ "es @ [ChannelClosed stub]"] exI [of _ "[gc\<lparr>gc_open := False\<rparr>]"])
      (use e g that in \<open>simp add: list_all_iff\<close>)
  then show ?case
    unfolding sc prod.case wp_bind [of "io_catch _ _"] wp_catch
    by (intro wp_mono [OF assms]) (auto simp: zc_close_def wp_simps g(1))
next
  case (2 e w1)
  then show ?case by (auto simp: no_effect_def no_rpc_run_def list_all_iff)
qed

section \<open>Option tables\<close>

lemma command_names: "map fst (commands ext stdin) = map fst (build_parser env)"
  by (simp add: commands_def build_parser_def)

lemma fill_options_names: "fill_options specs ns = Inr r \<Longrightarrow> map fst r = map os_name specs"
  by (induction specs arbitrary: r) (auto split: option.splits if_splits)

lemma fill_options_required:
  "fill_options specs ns = Inr r \<Longrightarrow> s \<in> set specs \<Longrightarrow> os_required s \<Longrightarrow> os_name s \<in> fst ` set ns"
  by (induction specs arbitrary: r) (auto split: option.splits if_splits, force dest: map_of_SomeD)

lemma take_options_names: "take_options specs given ns = Inr r \<Longrightarrow> fst ` set r = fst ` set ns \<union> fst ` set given"
proof (induction specs given ns arbitrary: r rule: take_options.induct)
  case (2 specs n v given ns)
  from "2.prems" obtain sp x where "find (\<lambda>s. os_name s = n) specs = Some sp" "convert_opt (os_type sp) v = Inr x"
    "take_options specs given (dict_set n x ns) = Inr r" by (auto split: option.splits)
  from "2.IH" [OF this] show ?case by (simp add: dom_map_of_conv_image_fst [symmetric])
qed simp

text \<open>The values an option can have after parsing: of its type, or its default if it is not required.\<close>

definition opt_value :: "option_spec \<Rightarrow> pyval \<Rightarrow> bool" where
  "opt_value s v \<longleftrightarrow> (\<not> os_required s \<and> v = os_default s) \<or> (case os_type s of
      OptStr \<Rightarrow> is_str v
    | OptInt \<Rightarrow> (\<exists>n. v = PInt n)
    | OptFlag \<Rightarrow> v = PBool True
    | OptChoice cs \<Rightarrow> \<exists>c \<in> set cs. v = PStr c)"

lemma convert_opt_value: "convert_opt (os_type s) x = Inr v \<Longrightarrow> opt_value s v"
  by (auto simp: convert_opt_def opt_value_def split: opt_type.splits if_splits sum.splits)

lemma take_options_typed:
  assumes "take_options specs given ns = Inr r" "\<And>k v. map_of ns k = Some v \<Longrightarrow> \<exists>s. find (\<lambda>s. os_name s = k) specs = Some s \<and> opt_value s v"
  shows "map_of r k = Some v \<Longrightarrow> \<exists>s. find (\<lambda>s. os_name s = k) specs = Some s \<and> opt_value s v"
  using assms
proof (induction specs given ns arbitrary: r rule: take_options.induct)
  case (2 specs n x given ns)
  from "2.prems"(2) obtain sp y where f: "find (\<lambda>s. os_name s = n) specs = Some sp" "convert_opt (os_type sp) x = Inr y"
    "take_options specs given (dict_set n y ns) = Inr r" by (auto split: option.splits)
  show ?case
  proof (rule "2.IH" [OF f(1,2) "2.prems"(1) f(3)])
    fix k v
    assume "map_of (dict_set n y ns) k = Some v"
    then show "\<exists>s. find (\<lambda>s. os_name s = k) specs = Some s \<and> opt_value s v"
      using "2.prems"(3) f(1) convert_opt_value [OF f(2)] by (auto split: if_splits)
  qed
qed auto

lemma fill_options_value:
  "fill_options specs ns = Inr r \<Longrightarrow> map_of r k = Some v \<Longrightarrow>
   map_of ns k = Some v \<or> (map_of ns k = None \<and> (\<exists>s. find (\<lambda>s. os_name s = k) specs = Some s \<and> v = os_default s \<and> \<not> os_required s))"
  by (induction specs arbitrary: r) (auto split: option.splits if_splits)

lemma parse_args_typed:
  assumes "parse_args env (Some c) given = Inr (cmd, args)" "map_of args k = Some v"
  shows "\<exists>specs s. map_of (build_parser env) c = Some specs \<and> find (\<lambda>s. os_name s = k) specs = Some s \<and> opt_value s v"
proof -
  from assms(1) obtain specs ns where p: "map_of (build_parser env) c = Some specs" "take_options specs given [] = Inr ns"
    "fill_options specs ns = Inr args"
    by (auto simp: parse_args_def split: option.splits)
  have "\<exists>s. find (\<lambda>s. os_name s = k) specs = Some s \<and> opt_value s v" if "map_of ns k = Some v"
    using take_options_typed [OF p(2) _ that] by simp
  then show ?thesis
    using fill_options_value [OF p(3) assms(2)] p(1) by (auto simp: opt_value_def)
qed

lemma find_named:
  "distinct (map os_name xs) \<Longrightarrow> s \<in> set xs \<Longrightarrow> find (\<lambda>x. os_name x = os_name s) (xs @ ys) = Some s"
proof (induction xs)
  case (Cons x xs)
  then show ?case by (cases "x = s") (auto simp: image_iff)
qed simp

lemma connection_args_distinct: "distinct (map os_name connection_args)"
  by (simp add: connection_args_def opt_def required_opt_def)

lemma connection_spec:
  assumes "map_of (build_parser env) c = Some specs" "s \<in> set connection_args"
  shows "find (\<lambda>x. os_name x = os_name s) specs = Some s" "os_name s \<in> set (map os_name specs)"
proof -
  from assms(1) obtain rest where specs: "specs = connection_args @ rest"
    by (auto simp: build_parser_def split: if_splits)
  show "os_name s \<in> set (map os_name specs)" using assms(2) by (auto simp: specs)
  show "find (\<lambda>x. os_name x = os_name s) specs = Some s"
    unfolding specs by (rule find_named [OF connection_args_distinct assms(2)])
qed

text \<open>Each connection option is present and has a value of its kind.\<close>

lemma connection_value:
  assumes "parse_args env (Some c) given = Inr (cmd, args)" "s \<in> set connection_args"
  shows "\<exists>v. map_of args (os_name s) = Some v \<and> opt_value s v"
proof -
  from assms(1) obtain specs ns where p: "map_of (build_parser env) c = Some specs" "fill_options specs ns = Inr args"
    by (auto simp: parse_args_def split: option.splits)
  have "os_name s \<in> fst ` set args"
    using connection_spec(2) [OF p(1) assms(2)] fill_options_names [OF p(2)] by (metis set_map)
  then obtain v where v: "map_of args (os_name s) = Some v" by (cases "map_of args (os_name s)") (auto simp: map_of_eq_None_iff)
  from parse_args_typed [OF assms(1) v] connection_spec(1) [OF p(1) assms(2)] p(1) v show ?thesis by auto
qed

lemma digests_typed:
  assumes "v = PNone \<or> is_str v"
  shows "\<exists>ds. (case v of PStr (c # s) \<Rightarrow> py_frozenset (map PStr (digest_list (c # s)))
      | v \<Rightarrow> if truthy v then Inl (attribute_error v ''split'') else Inr []) = Inr ds \<and> list_all is_str ds"
proof -
  have "\<exists>ds. py_frozenset (map PStr ss) = Inr ds \<and> list_all is_str ds" for ss
    using py_set_from_strs [of "[]" ss] by (auto simp: py_frozenset_def list_all_iff)
  with assms show ?thesis by (cases v) (auto split: list.split)
qed

lemma build_ita_policy:
  assumes "map_of args ''verifier'' = Some (PStr ''ita'')"
    and "getattr args ''expected_digest'' PNone = PNone \<or> is_str (getattr args ''expected_digest'' PNone)"
    and "getattr args ''min_cs_version'' PNone = PNone \<or> (\<exists>n. getattr args ''min_cs_version'' PNone = PInt n)"
    and "is_bool (getattr args ''allow_debug_tee'' (PBool False))"
    and "is_str (getattr args ''expected_project_id'' (PStr []))"
    and "is_str (getattr args ''expected_service_account'' (PStr []))"
  shows "\<exists>p. build_policy args w = (Inr p, w) \<and> (case p of NoopPolicy \<Rightarrow> True | ItaPolicy q \<Rightarrow> ita_typed q)"
proof -
  from digests_typed [OF assms(2)] obtain ds where ds: "(case getattr args ''expected_digest'' PNone of
      PStr (c # s) \<Rightarrow> py_frozenset (map PStr (digest_list (c # s)))
    | v \<Rightarrow> if truthy v then Inl (attribute_error v ''split'') else Inr []) = Inr ds" "list_all is_str ds" by blast
  from assms(3) obtain n where mv: "(case getattr args ''min_cs_version'' PNone of
      PNone \<Rightarrow> Inr MIN_CS_VERSION_DEFAULT | v \<Rightarrow> int_value v) = Inr n" by auto
  let ?q = "ita_default\<lparr>expected_image_digests := ds,
       allow_debug := getattr args ''allow_debug_tee'' (PBool False),
       expected_project_id := getattr args ''expected_project_id'' (PStr []),
       expected_service_account := getattr args ''expected_service_account'' (PStr []), min_cs_version := n\<rparr>"
  from ds(1) mv assms(1) have "build_policy args w = (Inr (ItaPolicy ?q), w)"
    unfolding build_policy_def by (simp add: attr_def io_simps)
  moreover have "ita_typed ?q" using ds(2) assms(4-6) by (simp add: ita_typed_def ita_default_def)
  ultimately show ?thesis by (intro exI [of _ "ItaPolicy ?q"]) simp
qed

section \<open>Properties\<close>

text \<open>
  C12.  Whatever the command line, the environment and the other side do, and whether the command
  succeeds, fails or exits: a run of the command line client opens at most one channel, which is
  closed again at the end; the verifier of a policy that validates in this environment accepted
  the certificate that channel trusts; and all RPCs of the run went over that channel.
\<close>

theorem cli_closes_attested_channel:
  "\<exists>gcs es. w_chans (snd (cli_main ext stdin usage command given w)) = w_chans w @ gcs \<and>
    w_events (snd (cli_main ext stdin usage command given w)) = w_events w @ es \<and> length gcs \<le> 1 \<and>
    list_all (\<lambda>gc. \<not> gc_open gc \<and> (\<exists>p v. get_verifier (w_env w) p = Inr v \<and>
      accepted_by ext v (w_env w) (w_events w @ es) (gc_root gc))) gcs \<and>
    list_all (\<lambda>e. case e of RpcSent c _ _ \<Rightarrow> gcs \<noteq> [] \<and> c = length (w_chans w) | _ \<Rightarrow> True) es"
proof -
  have "cli_effect ext w (snd (cli_main ext stdin usage command given w))"
    using cli_main_effect [of ext stdin usage command given w] by (auto simp: wp_def split: prod.splits sum.splits)
  then obtain gcs es where "w_chans (snd (cli_main ext stdin usage command given w)) = w_chans w @ gcs"
    "w_events (snd (cli_main ext stdin usage command given w)) = w_events w @ es" "length gcs \<le> 1"
    "list_all (\<lambda>gc. \<not> gc_open gc \<and> (\<exists>p v. get_verifier (w_env w) p = Inr v \<and>
      accepted_by ext v (w_env w) (w_events (snd (cli_main ext stdin usage command given w))) (gc_root gc))) gcs"
    "list_all (\<lambda>e. case e of RpcSent c _ _ \<Rightarrow> gcs \<noteq> [] \<and> c = length (w_chans w) | _ \<Rightarrow> True) es"
    unfolding cli_effect_def by blast
  then show ?thesis by (intro exI [of _ gcs] exI [of _ es]) simp
qed

text \<open>
  No ordinary exception leaves \<^verbatim>\<open>main\<close>: a run ends normally exactly when the options parse, a
  token is there if the command takes one, and the command returns; every other run ends with
  \<^verbatim>\<open>SystemExit\<close>.
\<close>

theorem cli_exits:
  "case fst (cli_main ext stdin usage command given w) of
     Inl e \<Rightarrow> is_exit e
   | Inr _ \<Rightarrow> \<exists>c args f. parse_args (w_env w) command given = Inr (Some c, args) \<and> \<not> token_missing args \<and>
       map_of (commands ext stdin) c = Some f \<and> fst (f args w) = Inr ()"
proof -
  have parse_exit: "is_exit e" if "parse_args env command given = Inl e" for env e
  proof -
    have "is_exit e" if "take_options specs gs ns = Inl e" for specs gs ns
      using that by (induction specs gs ns rule: take_options.induct)
        (auto simp: convert_opt_def rbind_eq_Inl is_exit_def SystemExit_def split: option.splits opt_type.splits if_splits sum.splits)
    moreover have "is_exit e" if "fill_options specs ns = Inl e" for specs ns
      using that by (induction specs) (auto simp: rbind_eq_Inl is_exit_def SystemExit_def split: option.splits if_splits)
    ultimately show ?thesis using that
      by (auto simp: parse_args_def rbind_eq_Inl is_exit_def SystemExit_def split: option.splits if_splits)
  qed
  show ?thesis
    by (auto simp: cli_main_def run_command_def io_simps is_exit_def SystemExit_def print_stderr_def write_line_def py_print_def
        dest: parse_exit [unfolded is_exit_def] split: sum.splits prod.splits option.splits if_splits)
qed

text \<open>
  The token gate.  A session command with neither \<^verbatim>\<open>--token\<close> nor \<^verbatim>\<open>ZTAB_TOKEN\<close> stops with exit
  status 1 and a message on standard error before anything is sent anywhere.
\<close>

theorem cli_token_gate:
  assumes "parse_args (w_env w) command given = Inr (Some c, args)" and "map_of args ''token'' = Some t" and "\<not> truthy t"
  shows "\<exists>msg. cli_main ext stdin usage command given w = (Inl (SystemExit 1), w_out_update (\<lambda>ls. ls @ [(Stderr, msg)]) w)"
  using assms by (auto simp: cli_main_def io_simps token_missing_def print_stderr_def write_line_def)

theorem cli_token_gate_witness:
  "\<exists>msg. cli_main null_ext (Inr []) [] (Some ''get_status'') [(''verifier'', ''ita'')] null_world =
    (Inl (SystemExit 1), w_out_update (\<lambda>ls. ls @ [(Stderr, msg)]) null_world)"
proof (rule cli_token_gate)
  show "parse_args (w_env null_world) (Some ''get_status'') [(''verifier'', ''ita'')] = Inr (Some ''get_status'',
      [(''host'', PStr ''localhost''), (''port'', PInt 8000), (''verifier'', PStr ''ita''), (''expected_digest'', PNone),
       (''allow_debug_tee'', PBool False), (''expected_project_id'', PStr []), (''expected_service_account'', PStr []),
       (''min_cs_version'', PNone), (''quiet'', PBool False), (''token'', PNone)])"
    by code_simp
  show "map_of [(''host'', PStr ''localhost''), (''port'', PInt 8000), (''verifier'', PStr ''ita''), (''expected_digest'', PNone),
       (''allow_debug_tee'', PBool False), (''expected_project_id'', PStr []), (''expected_service_account'', PStr []),
       (''min_cs_version'', PNone), (''quiet'', PBool False), (''token'', PNone)] ''token'' = Some PNone"
    by simp
qed simp

text \<open>
  An accepted command line is complete: the namespace has exactly the options of the command's
  table, in order, and every required option was given.  In particular every command runs with an
  explicit choice of verifier.
\<close>

theorem parse_args_complete:
  assumes "parse_args env (Some c) given = Inr (cmd, args)"
  shows "\<exists>specs. map_of (build_parser env) c = Some specs \<and> cmd = Some c \<and> map fst args = map os_name specs \<and>
    list_all (\<lambda>s. if os_required s then os_name s \<in> fst ` set given else True) specs \<and> ''verifier'' \<in> fst ` set given"
proof -
  from assms obtain specs ns where p: "map_of (build_parser env) c = Some specs" "take_options specs given [] = Inr ns"
    "fill_options specs ns = Inr args" "cmd = Some c"
    by (auto simp: parse_args_def split: option.splits)
  have req: "os_name s \<in> fst ` set given" if "s \<in> set specs" "os_required s" for s
    using fill_options_required [OF p(3) that] take_options_names [OF p(2)] by simp
  have "required_opt ''verifier'' (OptChoice [''noop'', ''ita'']) \<in> set specs"
    using p(1) by (auto simp: build_parser_def connection_args_def split: if_splits)
  from req [OF this] have "''verifier'' \<in> fst ` set given" by (simp add: required_opt_def)
  with p fill_options_names [OF p(3)] req show ?thesis by (auto simp: list_all_iff)
qed

theorem parse_args_complete_witness:
  "\<exists>specs. map_of (build_parser (\<lambda>_. None)) ''echo'' = Some specs \<and> Some ''echo'' = Some ''echo'' \<and>
    map fst [(''host'', PStr ''localhost''), (''port'', PInt 8000), (''verifier'', PStr ''noop''), (''expected_digest'', PNone),
       (''allow_debug_tee'', PBool False), (''expected_project_id'', PStr []), (''expected_service_account'', PStr []),
       (''min_cs_version'', PNone), (''quiet'', PBool False), (''message'', PStr ''hi'')] = map os_name specs \<and>
    list_all (\<lambda>s. if os_required s then os_name s \<in> fst ` set [(''verifier'', ''noop''), (''message'', ''hi'')] else True) specs \<and>
    ''verifier'' \<in> fst ` set [(''verifier'', ''noop''), (''message'', ''hi'')]"
  by (rule parse_args_complete) code_simp

text \<open>
  Without a pinned digest the ITA verifier is not even built: the client stops before any
  network traffic, in every environment.
\<close>

theorem cli_unpinned_refused:
  assumes "map_of args ''verifier'' = Some (PStr ''ita'')" and "\<not> truthy (getattr args ''expected_digest'' PNone)"
  shows "\<exists>e. make_stub ext args w = (Inl e, w)"
proof -
  have "\<exists>e. get_verifier env (ItaPolicy (ita_default\<lparr>expected_image_digests := [], allow_debug := a, expected_project_id := b,
      expected_service_account := c, min_cs_version := n\<rparr>)) = Inl e" for env a b c n
    by (auto simp: get_verifier_def ita_validate_def)
  then have none: "\<exists>e. (get_verifier env (ItaPolicy (ita_default\<lparr>expected_image_digests := [], allow_debug := a,
      expected_project_id := b, expected_service_account := c, min_cs_version := n\<rparr>)) = Inl e)" for env a b c n .
  have digests: "(case getattr args ''expected_digest'' PNone of
      PStr (c # s) \<Rightarrow> py_frozenset (map PStr (digest_list (c # s)))
    | v \<Rightarrow> if truthy v then Inl (attribute_error v ''split'') else Inr []) = Inr []"
    using assms(2) by (auto split: pyval.split list.split)
  show ?thesis
  proof (cases "case getattr args ''min_cs_version'' PNone of PNone \<Rightarrow> Inr MIN_CS_VERSION_DEFAULT | v \<Rightarrow> int_value v")
    case (Inr n)
    let ?p = "ItaPolicy (ita_default\<lparr>expected_image_digests := [],
         allow_debug := getattr args ''allow_debug_tee'' (PBool False),
         expected_project_id := getattr args ''expected_project_id'' (PStr []),
         expected_service_account := getattr args ''expected_service_account'' (PStr []), min_cs_version := n\<rparr>)"
    from Inr digests assms(1) have "build_policy args w = (Inr ?p, w)"
      unfolding build_policy_def by (simp add: attr_def io_simps)
    moreover obtain e where "get_verifier (w_env w) ?p = Inl e" using none by blast
    ultimately show ?thesis by (simp add: make_stub_def io_simps)
  next
    case (Inl e)
    with digests assms(1) have "build_policy args w = (Inl e, w)"
      unfolding build_policy_def by (simp add: attr_def io_simps)
    then show ?thesis by (simp add: make_stub_def io_simps)
  qed
qed

theorem cli_unpinned_refused_witness:
  "\<exists>e. make_stub null_ext [(''verifier'', PStr ''ita'')] null_world = (Inl e, null_world)"
  by (rule cli_unpinned_refused) (simp_all add: getattr_def)

text \<open>
  C34.  Input that is not JSON never leaves the machine.  \<^verbatim>\<open>submit_input\<close> with such an input, given with the option or, for \<^verbatim>\<open>-\<close>, read
  from standard input, fails and sends no RPC at all; the connection it had opened is closed.
\<close>

theorem submit_rejects_invalid_json:
  assumes "map_of args ''input'' = Some (PStr s)" and "(if s = ''-'' then stdin else Inr s) = Inr input" and "json_loads input = Inl e"
    and "cmd_submit_input ext stdin args w = (r, w')"
  shows "\<exists>e' es gcs. r = Inl e' \<and> w_events w' = w_events w @ es \<and> list_all (\<lambda>ev. \<not> is_rpc ev) es \<and>
    w_chans w' = w_chans w @ gcs \<and> list_all (\<lambda>gc. \<not> gc_open gc) gcs"
proof -
  have chk: "wp (checked_input stdin args) (\<lambda>_ _. False) (\<lambda>_ w2. w_events w2 = w_events w1 \<and> w_chans w2 = w_chans w1) w1"
    for w1 :: "'a world_scheme"
    using assms(1-3) by (simp add: checked_input_def attr_def wp_simps)
  have "wp (cmd_submit_input ext stdin args) (\<lambda>_ _. False) (\<lambda>_ w2. no_rpc_run w w2) w"
    unfolding cmd_submit_input_def by (rule with_stub_fails, subst wp_bind, rule wp_mono [OF chk]) simp_all
  with assms(4) show ?thesis by (cases r) (auto simp: wp_def no_rpc_run_def)
qed

text \<open>A run that connects, in a test environment with the no-op verifier, and finds junk on standard input.\<close>

definition cli_ext :: ext where
  "cli_ext = null_ext\<lparr>der_to_pem := Inr, pem_extension := \<lambda>_ _. Inr (Some [4, 1, 116])\<rparr>"

definition cli_world :: world where
  "cli_world = null_world\<lparr>w_env := [''ZTAB_TEST_ENVIRONMENT'' \<mapsto> ''1''], w_tls := \<lambda>_ _ _. Inr (Some [9])\<rparr>"

definition cli_args :: pydict where
  "cli_args = [(''host'', PStr ''h''), (''port'', PInt 1), (''verifier'', PStr ''noop''), (''token'', PStr ''tok''), (''input'', PStr ''-'')]"

lemma cli_junk_connects: "length (w_chans (snd (cmd_submit_input cli_ext (Inr ''junk'') cli_args cli_world))) = 1"
  by code_simp

theorem submit_rejects_invalid_json_witness:
  "\<exists>e' gc. fst (cmd_submit_input cli_ext (Inr ''junk'') cli_args cli_world) = Inl e' \<and>
    w_chans (snd (cmd_submit_input cli_ext (Inr ''junk'') cli_args cli_world)) = [gc] \<and> \<not> gc_open gc \<and>
    list_all (\<lambda>ev. \<not> is_rpc ev) (w_events (snd (cmd_submit_input cli_ext (Inr ''junk'') cli_args cli_world)))"
proof -
  let ?r = "cmd_submit_input cli_ext (Inr ''junk'') cli_args cli_world"
  have "json_loads ''junk'' = Inl (Exn JSONDecodeError ''Expecting value'')" by code_simp
  from submit_rejects_invalid_json [OF _ _ this, of cli_args "''-''" "Inr ''junk''" cli_ext cli_world "fst ?r" "snd ?r"]
  have "\<exists>e' es gcs. fst ?r = Inl e' \<and> w_events (snd ?r) = w_events cli_world @ es \<and> list_all (\<lambda>ev. \<not> is_rpc ev) es \<and>
    w_chans (snd ?r) = w_chans cli_world @ gcs \<and> list_all (\<lambda>gc. \<not> gc_open gc) gcs" by (simp add: cli_args_def)
  with cli_junk_connects show ?thesis by (auto simp: cli_world_def null_world_def length_Suc_conv)
qed

text \<open>
  C35.  From every accepted command line a policy can be built: \<^verbatim>\<open>_build_policy\<close> neither raises nor
  reaches its branch for unknown verifiers, and the fields of an ITA policy it builds have the
  types their annotations ask for.
\<close>

theorem cli_policy_typed:
  assumes "parse_args env (Some c) given = Inr (cmd, args)"
  shows "\<exists>p. build_policy args w = (Inr p, w) \<and> (case p of NoopPolicy \<Rightarrow> True | ItaPolicy q \<Rightarrow> ita_typed q)"
proof -
  note val = connection_value [OF assms]
  note attrs = connection_args_def opt_value_def opt_def required_opt_def getattr_def
  from val [of "required_opt ''verifier'' (OptChoice [''noop'', ''ita''])"]
  have "map_of args ''verifier'' = Some (PStr ''noop'') \<or> map_of args ''verifier'' = Some (PStr ''ita'')"
    by (auto simp: attrs)
  moreover have "?thesis" if "map_of args ''verifier'' = Some (PStr ''noop'')"
    using that by (simp add: build_policy_def attr_def io_simps)
  moreover have "?thesis" if "map_of args ''verifier'' = Some (PStr ''ita'')"
  proof (rule build_ita_policy [OF that])
    show "getattr args ''expected_digest'' PNone = PNone \<or> is_str (getattr args ''expected_digest'' PNone)"
      using val [of "opt ''expected_digest'' OptStr PNone"] by (auto simp: attrs)
    show "getattr args ''min_cs_version'' PNone = PNone \<or> (\<exists>n. getattr args ''min_cs_version'' PNone = PInt n)"
      using val [of "opt ''min_cs_version'' OptInt PNone"] by (auto simp: attrs)
    show "is_bool (getattr args ''allow_debug_tee'' (PBool False))"
      using val [of "opt ''allow_debug_tee'' OptFlag (PBool False)"] by (auto simp: attrs)
    show "is_str (getattr args ''expected_project_id'' (PStr []))"
      using val [of "opt ''expected_project_id'' OptStr (PStr [])"] by (auto simp: attrs)
    show "is_str (getattr args ''expected_service_account'' (PStr []))"
      using val [of "opt ''expected_service_account'' OptStr (PStr [])"] by (auto simp: attrs)
  qed
  ultimately show ?thesis by blast
qed

theorem cli_policy_typed_witness:
  "\<exists>p. build_policy [(''host'', PStr ''localhost''), (''port'', PInt 8000), (''verifier'', PStr ''ita''), (''expected_digest'', PNone),
       (''allow_debug_tee'', PBool False), (''expected_project_id'', PStr []), (''expected_service_account'', PStr []),
       (''min_cs_version'', PNone), (''quiet'', PBool False), (''message'', PStr ''hi'')] null_world = (Inr p, null_world) \<and>
    (case p of NoopPolicy \<Rightarrow> True | ItaPolicy q \<Rightarrow> ita_typed q)"
  by (rule cli_policy_typed [where env = "\<lambda>_. None" and c = "''echo''" and cmd = "Some ''echo''"
      and given = "[(''verifier'', ''ita''), (''message'', ''hi'')]"]) code_simp

end
