(* ===== verification/DiagnoseTls.thy ===== *)
theory DiagnoseTls
  imports Cli McpServer
begin

text \<open>
  \<^verbatim>\<open>agent/diagnose_tls.py\<close>: a connectivity check that fetches the certificate, prints the token in it and
  compares a few claims for display.  Subject, issuer and validity dates of a certificate, as
  the cryptography package prints them, are the parameter \<open>describe\<close>.
\<close>

section \<open>Operations\<close>

definition fetch_cert_and_extract_token :: "ext \<Rightarrow> pyval \<Rightarrow> int \<Rightarrow> ('a world_scheme, bytes \<times> string option) io" where
  "fetch_cert_and_extract_token ext host port =
     io_bind (tls_peer_cert host port) (\<lambda>der_cert.
     case der_cert of
       None \<Rightarrow> io_raise (Exn RuntimeError ''Server did not present a certificate.'')
     | Some der \<Rightarrow>
         io_bind (io_lift (der_to_pem ext der)) (\<lambda>cert_pem.
         io_bind (io_lift (extract_attestation_token ext cert_pem)) (\<lambda>token.
         io_return (cert_pem, token))))"

text \<open>The script carries its own copy of the payload decoder.\<close>

definition diag_decode_jwt_payload :: "string \<Rightarrow> pyval" where
  "diag_decode_jwt_payload token =
     (case split_on (CHR ''.'') token of
        _ # p # _ \<Rightarrow>
          (let padded = p @ replicate (4 - length p mod 4) (CHR ''='');
               std = replace_char (CHR ''_'') (CHR ''/'') (replace_char (CHR ''-'') (CHR ''+'') padded)
           in case rbind (b64decode std) json_loads_bytes of Inr v \<Rightarrow> v | Inl _ \<Rightarrow> PNone)
      | _ \<Rightarrow> PNone)"

definition diag_checks :: "(string \<times> pyval) list" where
  "diag_checks = [(''iss'', PStr ''https://confidentialcomputing.googleapis.com''), (''hwmodel'', PStr ''GCP_INTEL_TDX''),
     (''secboot'', PBool True)]"

text \<open>The loop over the expected claims; its result is the variable \<^verbatim>\<open>all_ok\<close>.\<close>

fun check_claims :: "pyval \<Rightarrow> (string \<times> pyval) list \<Rightarrow> bool \<Rightarrow> ('a world_scheme, bool) io" where
  "check_claims payload [] all_ok = io_return all_ok"
| "check_claims payload ((key, expected) # cs) all_ok =
     io_bind (io_lift (py_get payload key PNone)) (\<lambda>actual.
     io_bind (py_print (''  '' @ key @ '': '' @ py_str actual @ '' ['' @ (if py_eq actual expected then ''OK'' else ''MISMATCH'') @ '']'')) (\<lambda>_.
     check_claims payload cs (all_ok \<and> py_eq actual expected)))"

text \<open>\<^verbatim>\<open>payload['eat_nonce'][:40]\<close> as it is printed.\<close>

definition nonce_prefix :: "pyval \<Rightarrow> string res" where
  "nonce_prefix v = (case v of
      PStr s \<Rightarrow> Inr (concat (take 40 (chars_of s)))
    | PList xs \<Rightarrow> Inr (py_str (PList (take 40 xs)))
    | PDict _ \<Rightarrow> Inl (Exn TypeError (''unhashable type: '' @ quoted ''slice''))
    | _ \<Rightarrow> Inl (Exn TypeError (quoted (type_name v) @ '' object is not subscriptable'')))"

definition show_claims :: "pyval \<Rightarrow> ('a world_scheme, unit) io" where
  "show_claims payload =
     (if truthy payload then
        io_bind (print_all [''Decoded JWT payload (mock attestation claims):'', json_dumps_indent payload, []]) (\<lambda>_.
        io_bind (check_claims payload diag_checks True) (\<lambda>all_ok.
        io_bind (io_lift (py_in (PStr ''eat_nonce'') payload)) (\<lambda>present.
        io_bind (if present
          then io_bind (io_lift (rbind (py_get payload ''eat_nonce'' PNone) nonce_prefix)) (\<lambda>n.
               py_print (''  eat_nonce: '' @ n @ ''... [PRESENT]''))
          else io_return ()) (\<lambda>_. py_print []))))
      else io_return ())"

definition diag_main :: "ext \<Rightarrow> (bytes \<Rightarrow> (string \<times> string \<times> string \<times> string) res) \<Rightarrow> pyval \<Rightarrow> int \<Rightarrow> ('a world_scheme, unit) io" where
  "diag_main ext describe host port =
     io_bind (py_print (''Connecting to '' @ py_str host @ '':'' @ int_str port @ '' via TLS...'')) (\<lambda>_.
     io_bind (io_catch (fetch_cert_and_extract_token ext host port) (\<lambda>e.
        io_bind (print_stderr (''FAILED: Could not connect: '' @ exn_str e)) (\<lambda>_. io_raise (SystemExit 1)))) (\<lambda>(cert_pem, token).
     io_bind (print_all [''TLS connection established. Certificate received ('' @ nat_str (length cert_pem) @ '' bytes PEM).'', []]) (\<lambda>_.
     io_bind (io_lift (describe cert_pem)) (\<lambda>(subject, issuer, not_before, not_after).
     io_bind (print_all [''Certificate Subject: '' @ subject, ''Certificate Issuer:  '' @ issuer,
        ''Not Before: '' @ not_before, ''Not After:  '' @ not_after, []]) (\<lambda>_.
     case token of
       None \<Rightarrow>
         io_bind (print_all [''WARNING: No attestation extension found in certificate.'', ''  Expected OID: '' @ ATTESTATION_OID]) (\<lambda>_.
         io_raise (SystemExit 1))
     | Some tok \<Rightarrow>
         io_bind (print_all [''Attestation token extracted from X.509 extension (OID '' @ ATTESTATION_OID @ ''):'',
            replicate 70 (CHR ''=''), tok, replicate 70 (CHR ''=''), []]) (\<lambda>_.
         io_bind (show_claims (diag_decode_jwt_payload tok)) (\<lambda>_.
         print_all [''TLS connectivity test PASSED.'', ''  - TLS handshake:       OK'',
            ''  - Certificate:         Self-signed, CN=ztab-tee'',
            ''  - Attestation token:   Extracted from custom X.509 extension'',
            ''  - Token format:        Unsigned JWT (mock, alg=none)''])))))))"

section \<open>Facts\<close>

lemma print_all_run: "print_all ss w = (Inr (), w_out_update (\<lambda>ls. ls @ map (Pair (w_sys_stdout w)) ss) w)"
  by (induction ss arbitrary: w) (simp_all add: io_simps py_print_def write_line_def comp_def)

text \<open>Printing only: the outcome of a step that returns and adds lines to the output.\<close>

definition prints :: "('a world_scheme, 'b) io \<Rightarrow> bool" where
  "prints m \<longleftrightarrow> (\<forall>w. \<exists>x ls. m w = (Inr x, w_out_update (\<lambda>l. l @ ls) w))"

lemma prints_return [simp]: "prints (io_return x)"
proof -
  have "w_out_update (\<lambda>l. l @ []) w = w" for w :: "'a world_scheme" by (cases w) simp
  then show ?thesis unfolding prints_def io_return_def by metis
qed

lemma prints_lift [simp]: "prints (io_lift (Inr x))"
  using prints_return [of x] by (simp add: io_return_def io_lift_def)

lemma prints_print [simp]: "prints (py_print s)" "prints (print_all ss)"
  unfolding prints_def by (auto simp: py_print_def write_line_def io_simps print_all_run)

lemma prints_bind:
  assumes "prints m" "\<And>x. prints (f x)"
  shows "prints (io_bind m f)"
  unfolding prints_def
proof
  fix w
  from assms(1) obtain x ls where "m w = (Inr x, w_out_update (\<lambda>l. l @ ls) w)" unfolding prints_def by blast
  moreover from assms(2) obtain y ls' where "f x (w_out_update (\<lambda>l. l @ ls) w) =
      (Inr y, w_out_update (\<lambda>l. l @ ls') (w_out_update (\<lambda>l. l @ ls) w))" unfolding prints_def by blast
  ultimately show "\<exists>x ls. io_bind m f w = (Inr x, w_out_update (\<lambda>l. l @ ls) w)"
    by (auto simp: io_simps comp_def intro!: exI [of _ "ls @ ls'"])
qed

lemma prints_if: "prints a \<Longrightarrow> prints b \<Longrightarrow> prints (if c then a else b)"
  by simp

lemma prints_check: "prints (check_claims (PDict d) cs ok)"
  by (induction cs arbitrary: ok) (auto intro!: prints_bind)

lemma io_bind_lift_Inr: "io_bind (io_lift (Inr x)) f = f x"
  by (simp add: io_bind_def io_lift_def)

lemma prints_claims:
  assumes "case map_of d ''eat_nonce'' of None \<Rightarrow> True | Some v \<Rightarrow> is_str v"
  shows "prints (show_claims (PDict d))"
proof -
  have "prints (if ''eat_nonce'' \<in> fst ` set d then io_bind (io_lift (rbind (py_get (PDict d) ''eat_nonce'' PNone) nonce_prefix)) (\<lambda>n.
      py_print (''  eat_nonce: '' @ n @ ''... [PRESENT]'')) else io_return ())"
  proof (cases "map_of d ''eat_nonce''")
    case None
    then show ?thesis by (simp add: map_of_eq_None_iff)
  next
    case (Some v)
    with assms obtain s where "v = PStr s" by (cases v) auto
    with Some show ?thesis by (auto simp: nonce_prefix_def intro!: prints_bind)
  qed
  note nonce = this
  have "py_in (PStr ''eat_nonce'') (PDict d) = Inr (''eat_nonce'' \<in> fst ` set d)" by auto
  then show ?thesis unfolding show_claims_def
    by (simp only: io_bind_lift_Inr) (rule nonce prints_return prints_print prints_check prints_bind prints_if)+
qed

lemma prints_run: "prints m \<Longrightarrow> \<exists>x w'. m w = (Inr x, w') \<and> w_events w' = w_events w \<and> w_chans w' = w_chans w \<and>
    w_sys_stdout w' = w_sys_stdout w"
  by (fastforce simp: prints_def)

section \<open>Properties\<close>

text \<open>
  The verdict of the diagnostic script does not depend on the claims.  If the TLS server presents
  a certificate with an attestation extension, the script ends normally and reports PASSED,
  whatever token is in it: when its payload is an object (with a text as nonce, if any), or when
  it does not decode at all.  The comparison of issuer, hardware model and secure boot only shows
  in the lines printed before.
\<close>

theorem diag_passes_any_claims:
  assumes "w_tls w (w_tick w) host port = Inr (Some der)" and "der_to_pem ext der = Inr pem"
    and "extract_attestation_token ext pem = Inr (Some tok)" and "describe pem = Inr (sub, iss, nb, na)"
    and "case diag_decode_jwt_payload tok of PNone \<Rightarrow> True
         | PDict d \<Rightarrow> (case map_of d ''eat_nonce'' of None \<Rightarrow> True | Some v \<Rightarrow> is_str v) | _ \<Rightarrow> False"
  shows "\<exists>w'. diag_main ext describe host port w = (Inr (), w') \<and> (w_sys_stdout w, ''TLS connectivity test PASSED.'') \<in> set (w_out w') \<and>
    w_events w' = w_events w @ [TlsConnect host port] \<and> w_chans w' = w_chans w"
proof -
  have p: "prints (show_claims (diag_decode_jwt_payload tok))"
  proof (cases "diag_decode_jwt_payload tok")
    case PNone
    then show ?thesis by (simp add: show_claims_def)
  next
    case (PDict d)
    with assms(5) show ?thesis by (simp add: prints_claims)
  qed (use assms(5) in simp_all)
  let ?w = "w_events_update (\<lambda>es. es @ [TlsConnect host port]) (w_tick_update Suc w)"
  have wp: "wp (show_claims (diag_decode_jwt_payload tok)) (\<lambda>_ w'. w_events w' = w_events w1 \<and> w_chans w' = w_chans w1 \<and>
      w_sys_stdout w' = w_sys_stdout w1) (\<lambda>_ _. False) w1" for w1
    using prints_run [OF p, of w1] by (auto simp: wp_def)
  have all: "wp (print_all ss) Q E w1 = Q () (w_out_update (\<lambda>ls. ls @ map (Pair (w_sys_stdout w1)) ss) w1)" for ss Q E w1
    by (simp add: wp_def print_all_run)
  have "wp (diag_main ext describe host port) (\<lambda>_ w'. (w_sys_stdout w, ''TLS connectivity test PASSED.'') \<in> set (w_out w') \<and>
      w_events w' = w_events w @ [TlsConnect host port] \<and> w_chans w' = w_chans w) (\<lambda>_ _. False) w"
    unfolding diag_main_def fetch_cert_and_extract_token_def
    by (simp add: wp_bind wp_catch wp_py_print wp_tls_peer_cert wp_lift wp_return all assms(1-4))
      (rule wp_mono [OF wp], simp_all add: wp_bind wp_py_print wp_return)
  then show ?thesis by (auto simp: wp_def split: prod.splits sum.splits)
qed

theorem diag_passes_any_claims_witness:
  "\<exists>w'. diag_main (null_ext\<lparr>der_to_pem := Inr, pem_extension := \<lambda>_ _. Inr (Some [4, 1, 116])\<rparr>) (\<lambda>_. Inr ([], [], [], []))
      (PStr ''h'') 1 (null_world\<lparr>w_tls := \<lambda>_ _ _. Inr (Some [9])\<rparr>) = (Inr (), w') \<and>
    (w_sys_stdout (null_world\<lparr>w_tls := \<lambda>_ _ _. Inr (Some [9])\<rparr>), ''TLS connectivity test PASSED.'') \<in> set (w_out w') \<and>
    w_events w' = w_events (null_world\<lparr>w_tls := \<lambda>_ _ _. Inr (Some [9])\<rparr>) @ [TlsConnect (PStr ''h'') 1] \<and>
    w_chans w' = w_chans (null_world\<lparr>w_tls := \<lambda>_ _ _. Inr (Some [9])\<rparr>)"
proof (rule diag_passes_any_claims)
  have "token_of_extension [4, 1, 116] = Some ''t''" by code_simp
  then show "extract_attestation_token (null_ext\<lparr>der_to_pem := Inr, pem_extension := \<lambda>_ _. Inr (Some [4, 1, 116])\<rparr>) [9] = Inr (Some ''t'')"
    by (simp add: extract_attestation_token_def)
  show "case diag_decode_jwt_payload ''t'' of PNone \<Rightarrow> True
      | PDict d \<Rightarrow> (case map_of d ''eat_nonce'' of None \<Rightarrow> True | Some v \<Rightarrow> is_str v) | _ \<Rightarrow> False"
    by (simp add: diag_decode_jwt_payload_def)
qed simp_all

end
