(* ===== verification/PyPath.thy ===== *)
theory PyPath
  imports Codec
begin

text \<open>The two functions of \<^verbatim>\<open>os.path\<close> (POSIX) that the scripts build their file names with.\<close>

definition path_join :: "string \<Rightarrow> string \<Rightarrow> string" where
  "path_join a b =
     (if startswith b ''/'' then b
      else if a = [] \<or> last a = CHR ''/'' then a @ b
      else a @ ''/'' @ b)"

definition path_dirname :: "string \<Rightarrow> string" where
  "path_dirname p =
     (let head = rev (dropWhile (\<lambda>c. c \<noteq> CHR ''/'') (rev p))
      in if list_all (\<lambda>c. c = CHR ''/'') head then head else rstrip_char (CHR ''/'') head)"

definition path_basename :: "string \<Rightarrow> string" where
  "path_basename p = rev (takeWhile (\<lambda>c. c \<noteq> CHR ''/'') (rev p))"

text \<open>A name joined to a directory is found in that directory under that name.\<close>

lemma rev_take_name: "CHR ''/'' \<notin> set n \<Longrightarrow> takeWhile (\<lambda>c. c \<noteq> CHR ''/'') (rev n @ CHR ''/'' # s) = rev n"
  by (subst takeWhile_append2) auto

lemma rev_drop_name: "CHR ''/'' \<notin> set n \<Longrightarrow> dropWhile (\<lambda>c. c \<noteq> CHR ''/'') (rev n @ CHR ''/'' # s) = CHR ''/'' # s"
  by (subst dropWhile_append2) auto

lemma join_parts:
  assumes "d \<noteq> []" "last d \<noteq> CHR ''/''" "n \<noteq> []" "CHR ''/'' \<notin> set n"
  shows "path_dirname (path_join d n) = d" "path_basename (path_join d n) = n"
proof -
  have "hd n \<noteq> CHR ''/''" using assms(3,4) by (metis list.set_sel(1))
  then have j: "path_join d n = d @ ''/'' @ n"
    using assms(1-3) by (cases n) (simp_all add: path_join_def startswith_def)
  have r: "rstrip_char (CHR ''/'') (d @ ''/'') = d"
    using assms(1,2) by (cases d rule: rev_cases) (simp_all add: rstrip_char_def)
  have "\<not> list_all (\<lambda>c. c = CHR ''/'') (d @ ''/'')"
    using assms(1,2) by (cases d rule: rev_cases) simp_all
  with r show "path_dirname (path_join d n) = d"
    by (simp add: path_dirname_def j rev_drop_name [OF assms(4)] Let_def)
  show "path_basename (path_join d n) = n"
    by (simp add: path_basename_def j rev_take_name [OF assms(4)])
qed

end
