(* ===== verification/Calendar.thy ===== *)
theory Calendar
  imports PyPath Json World
begin

text \<open>
  \<^verbatim>\<open>examples/calendar/scenario.py\<close> with its \<^verbatim>\<open>test_data.py\<close>: the calendar scenario of the end-to-end
  tests.  \<open>validate_result\<close> compares the list of slots the broker returned with the expected one as
  sets.  A set is a list without repetitions; the order in which the interpreter enumerates a set,
  which shows in one message, is the parameter \<open>set_order\<close>.
\<close>

section \<open>Sets\<close>

text \<open>Membership is by identity or equality, so that the one \<^verbatim>\<open>nan\<close> of the JSON reader is found again.\<close>

definition set_has :: "pyval \<Rightarrow> pyval list \<Rightarrow> bool" where
  "set_has x ys \<longleftrightarrow> (\<exists>y \<in> set ys. x = y \<or> py_eq x y)"

fun set_from :: "pyval list \<Rightarrow> pyval list \<Rightarrow> pyval list res" where
  "set_from acc [] = Inr acc"
| "set_from acc (x # xs) =
     (if hashable x then set_from (if set_has x acc then acc else acc @ [x]) xs
      else Inl (Exn TypeError (''unhashable type: '' @ quoted (type_name x))))"

definition py_set :: "pyval \<Rightarrow> pyval list res" where
  "py_set v = rbind (py_iter v) (set_from [])"

definition issubset :: "pyval list \<Rightarrow> pyval list \<Rightarrow> bool" where
  "issubset xs ys \<longleftrightarrow> list_all (\<lambda>x. set_has x ys) xs"

definition set_equal :: "pyval list \<Rightarrow> pyval list \<Rightarrow> bool" where
  "set_equal xs ys \<longleftrightarrow> length xs = length ys \<and> issubset xs ys"

definition set_repr :: "pyval list \<Rightarrow> string" where
  "set_repr xs = ''{'' @ join_str '', '' (map py_repr xs) @ ''}''"

section \<open>The scenario\<close>

record test_case =
  tc_name :: string
  tc_inputs :: "pyval list"
  tc_expected :: "pyval list"
  tc_allow_subset :: bool

definition PARTICIPANT_A_SLOTS :: "pyval list" where
  "PARTICIPANT_A_SLOTS = map PStr [''2026-07-15T10:00:00Z'', ''2026-07-15T14:00:00Z'', ''2026-07-16T09:00:00Z'']"

definition PARTICIPANT_B_SLOTS :: "pyval list" where
  "PARTICIPANT_B_SLOTS = map PStr [''2026-07-15T14:00:00Z'', ''2026-07-15T16:00:00Z'', ''2026-07-16T09:00:00Z'']"

definition EXPECTED_OVERLAP :: "pyval list" where
  "EXPECTED_OVERLAP = map PStr [''2026-07-15T14:00:00Z'', ''2026-07-16T09:00:00Z'']"

definition scenario_name :: string where
  "scenario_name = ''calendar''"

definition policy_json_path :: "string \<Rightarrow> string" where
  "policy_json_path module_file = path_join (path_dirname module_file) ''policy.json''"

definition scenario_policy_class :: string where
  "scenario_policy_class = ''ScheduleOverlap''"

definition num_participants :: nat where
  "num_participants = 2"

definition get_test_cases :: "test_case list" where
  "get_test_cases = [\<lparr>tc_name = ''full_overlap'',
     tc_inputs = [PDict [(''available_slots'', PList PARTICIPANT_A_SLOTS)],
                  PDict [(''available_slots'', PList PARTICIPANT_B_SLOTS)]],
     tc_expected = EXPECTED_OVERLAP, tc_allow_subset = False\<rparr>]"

definition validate_result :: "(pyval list \<Rightarrow> pyval list) \<Rightarrow> pyval \<Rightarrow> pyval \<Rightarrow> bool \<Rightarrow> (bool \<times> string) res" where
  "validate_result set_order result_json expected allow_subset =
     (case (case result_json of PStr s \<Rightarrow> json_loads s | v \<Rightarrow> Inr v) of
        Inl e \<Rightarrow> if exn_kind e = JSONDecodeError then Inr (False, ''Invalid JSON: '' @ exn_str e) else Inl e
      | Inr result \<Rightarrow>
          rbind (py_set expected) (\<lambda>expected_set.
          rbind (py_set result) (\<lambda>got.
          if set_equal got expected_set then Inr (True, ''Exact match.'')
          else if allow_subset \<and> issubset got expected_set \<and> 1 \<le> length got
          then let missing = filter (\<lambda>x. \<not> set_has x got) expected_set
               in Inr (True, ''Subset match (missing: '' @ set_repr (set_order missing) @ '').'')
          else rbind (py_sorted expected_set) (\<lambda>es. rbind (py_sorted got) (\<lambda>gs.
               Inr (False, ''Expected '' @ py_repr (PList es) @ '', got '' @ py_repr (PList gs) @ ''.''))))))"

section \<open>Sets of strings\<close>

lemma set_has_PStr [simp]: "set_has (PStr s) xs \<longleftrightarrow> PStr s \<in> set xs"
  by (auto simp: set_has_def)

lemma set_from_strs:
  "\<exists>us. set_from (map PStr acc) (map PStr ss) = Inr (map PStr us) \<and> set us = set acc \<union> set ss \<and>
     (distinct acc \<longrightarrow> distinct us)"
proof (induction ss arbitrary: acc)
  case (Cons s ss)
  let ?acc = "if s \<in> set acc then acc else acc @ [s]"
  have "set_from (map PStr acc) (map PStr (s # ss)) = set_from (map PStr ?acc) (map PStr ss)" by auto
  with Cons.IH [of ?acc] show ?case by (auto split: if_splits)
qed auto

lemma py_set_strs:
  obtains us where "py_set (PList (map PStr ss)) = Inr (map PStr us)" "set us = set ss" "distinct us"
  using set_from_strs [of "[]" ss] by (auto simp: py_set_def)

lemma issubset_strs: "issubset (map PStr us) (map PStr vs) \<longleftrightarrow> set us \<subseteq> set vs"
  by (auto simp: issubset_def list_all_iff)

lemma set_equal_strs:
  assumes "distinct us" "distinct vs"
  shows "set_equal (map PStr us) (map PStr vs) \<longleftrightarrow> set us = set vs"
proof -
  have "set us = set vs" if "length us = length vs" "set us \<subseteq> set vs"
    using that assms by (intro card_subset_eq) (simp_all add: distinct_card)
  moreover have "length us = length vs" if "set us = set vs"
    using that assms by (metis distinct_card)
  ultimately show ?thesis by (auto simp: set_equal_def issubset_strs)
qed

lemma validate_strs:
  assumes "json_loads reply = Inr (PList (map PStr ss))"
  shows "\<exists>detail. validate_result set_order (PStr reply) (PList (map PStr es)) allow_subset =
    Inr (set ss = set es \<or> (allow_subset \<and> ss \<noteq> [] \<and> set ss \<subseteq> set es), detail)"
proof -
  obtain us where us: "py_set (PList (map PStr ss)) = Inr (map PStr us)" "set us = set ss" "distinct us" by (rule py_set_strs)
  obtain vs where vs: "py_set (PList (map PStr es)) = Inr (map PStr vs)" "set vs = set es" "distinct vs" by (rule py_set_strs)
  have "list_all is_str (map PStr zs)" for zs by (simp add: list_all_iff)
  from py_sorted_strs [OF this] obtain so where so: "\<And>zs. py_sorted (map PStr zs) = Inr (map PStr (so zs))" by metis
  have "us \<noteq> [] \<longleftrightarrow> ss \<noteq> []" using us(2) by (metis set_empty)
  then have "1 \<le> length (map PStr us) \<longleftrightarrow> ss \<noteq> []" by (simp add: Suc_le_eq)
  then show ?thesis
    by (auto simp: validate_result_def assms us(1) vs(1) set_equal_strs [OF us(3) vs(3)] issubset_strs us(2) vs(2) so Let_def)
qed

text \<open>The slots in which every participant of a test case is available.\<close>

fun available :: "pyval \<Rightarrow> pyval list" where
  "available (PDict d) = (case map_of d ''available_slots'' of Some (PList xs) \<Rightarrow> xs | _ \<Rightarrow> [])"
| "available _ = []"

definition common_slots :: "test_case \<Rightarrow> pyval list" where
  "common_slots tc = filter (\<lambda>x. list_all (\<lambda>inp. x \<in> set (available inp)) (tc_inputs tc)) (available (hd (tc_inputs tc)))"

section \<open>Properties\<close>

text \<open>
  C36.  A reply that is a JSON list of strings is always judged, and judged right: it passes exactly
  when it has the expected slots, in any order and with any repetitions, or when partial matches
  are allowed and it has at least one slot and none that is not expected.
\<close>

theorem validate_result_decides:
  assumes "json_loads reply = Inr (PList (map PStr ss))"
  shows "\<exists>detail. validate_result set_order (PStr reply) (PList (map PStr es)) allow_subset =
    Inr (set ss = set es \<or> (allow_subset \<and> ss \<noteq> [] \<and> set ss \<subseteq> set es), detail)"
  by (rule validate_strs [OF assms])

theorem validate_result_decides_witness:
  "\<exists>detail. validate_result rev (PStr (json_dumps (PList [PStr ''b'', PStr ''a'', PStr ''b'']))) (PList (map PStr [''a'', ''b'', ''c''])) True =
    Inr (set [''b'', ''a'', ''b''] = set [''a'', ''b'', ''c''] \<or>
      (True \<and> [''b'', ''a'', ''b''] \<noteq> [] \<and> set [''b'', ''a'', ''b''] \<subseteq> set [''a'', ''b'', ''c'']), detail)"
proof (rule validate_result_decides)
  show "json_loads (json_dumps (PList [PStr ''b'', PStr ''a'', PStr ''b''])) = Inr (PList (map PStr [''b'', ''a'', ''b'']))"
    by code_simp
qed

text \<open>
  The scenario's own test data are consistent: each test case has as many inputs as the scenario
  has participants, and a JSON list of strings passes its validation exactly when its entries are
  the slots all participants have in common.
\<close>

theorem test_cases_consistent:
  assumes "tc \<in> set get_test_cases" and "json_loads reply = Inr (PList (map PStr ss))"
  shows "length (tc_inputs tc) = num_participants \<and>
    (\<exists>detail. validate_result set_order (PStr reply) (PList (tc_expected tc)) (tc_allow_subset tc) =
      Inr (PStr ` set ss = set (common_slots tc), detail))"
proof -
  have "list_all (\<lambda>tc. length (tc_inputs tc) = num_participants \<and> tc_expected tc = EXPECTED_OVERLAP \<and>
      common_slots tc = EXPECTED_OVERLAP \<and> \<not> tc_allow_subset tc) get_test_cases" by code_simp
  with assms(1) have tc: "length (tc_inputs tc) = num_participants" "tc_expected tc = EXPECTED_OVERLAP"
    "common_slots tc = EXPECTED_OVERLAP" "\<not> tc_allow_subset tc" by (simp_all add: list_all_iff)
  obtain es where es: "EXPECTED_OVERLAP = map PStr es" unfolding EXPECTED_OVERLAP_def by blast
  have "PStr ` set ss = set (map PStr es) \<longleftrightarrow> set ss = set es" by (simp add: inj_image_eq_iff inj_def)
  with validate_strs [OF assms(2), of set_order es "tc_allow_subset tc"] show ?thesis by (simp add: tc es)
qed

theorem test_cases_consistent_witness:
  "length (tc_inputs (hd get_test_cases)) = num_participants \<and>
    (\<exists>detail. validate_result rev (PStr (json_dumps (PList [PStr ''2026-07-16T09:00:00Z'']))) (PList (tc_expected (hd get_test_cases)))
        (tc_allow_subset (hd get_test_cases)) =
      Inr (PStr ` set [''2026-07-16T09:00:00Z''] = set (common_slots (hd get_test_cases)), detail))"
proof (rule test_cases_consistent)
  show "hd get_test_cases \<in> set get_test_cases" by (simp add: get_test_cases_def)
  show "json_loads (json_dumps (PList [PStr ''2026-07-16T09:00:00Z''])) = Inr (PList (map PStr [''2026-07-16T09:00:00Z'']))"
    by code_simp
qed

text \<open>
  A reply that is JSON but not a collection of scalars is not judged: for a number, a boolean or
  \<^verbatim>\<open>null\<close>, and for a list with a list or an object in it, \<^verbatim>\<open>validate_result\<close> raises \<^verbatim>\<open>TypeError\<close> instead of
  returning the pair its documentation promises.
\<close>

theorem validate_result_raises:
  assumes "json_loads reply = Inr v" and "v = PNone \<or> is_num v \<or> (\<exists>xs. v = PList xs \<and> \<not> list_all hashable xs)"
  shows "\<exists>msg. validate_result set_order (PStr reply) (PList (map PStr es)) allow_subset = Inl (Exn TypeError msg)"
proof -
  obtain vs where vs: "py_set (PList (map PStr es)) = Inr (map PStr vs)" by (rule py_set_strs)
  have "\<exists>msg. set_from acc xs = Inl (Exn TypeError msg)" if "\<not> list_all hashable xs" for acc xs
    using that by (induction acc xs rule: set_from.induct) auto
  with assms(2) have "\<exists>msg. py_set v = Inl (Exn TypeError msg)"
    by (cases v) (auto simp: py_set_def)
  then show ?thesis by (auto simp: validate_result_def assms(1) vs)
qed

theorem validate_result_raises_witness:
  "\<exists>msg. validate_result rev (PStr ''5'') (PList (map PStr [''a''])) False = Inl (Exn TypeError msg)"
  by (rule validate_result_raises [where v = "PInt 5"]) (code_simp, simp)

end
