(* ===== verification/GenerateProtos.thy ===== *)
theory GenerateProtos
  imports PyPath World
begin

text \<open>
  \<^verbatim>\<open>agent/generate_protos.py\<close>: the stub generator.  The file system is a list of files with their contents
  and a list of directories; \<open>fs_denied\<close> is what the operating system answers to an attempt to
  create something.  The compiler it runs is the parameter \<open>protoc\<close>: any function from the
  command line and the file system to an exit status (or an exception of \<^verbatim>\<open>subprocess.run\<close>) and a file
  system.  \<open>script\<close> is the absolute path of the script itself, whose directory exists.
\<close>

section \<open>Files\<close>










section \<open>The script\<close>









fun print_lines :: "string list \<Rightarrow> ('a world_scheme, unit) io" where
  "print_lines [] = io_return ()"
| "print_lines (s # ss) = io_bind (py_print s) (\<lambda>_. print_lines ss)"




section \<open>Runs\<close>


lemma wp_print_lines [wp_simps]:
  "wp (print_lines ss) Q E w = Q () (w_out_update (\<lambda>ls. ls @ map (Pair (w_sys_stdout w)) ss) w)"
proof (induction ss arbitrary: w)
  case Nil
  have same: "w_out_update (\<lambda>ls. ls) w = w" by (rule world.equality) simp_all
  show ?case by (simp add: wp_simps) (simp only: same)
next
  case (Cons s ss)
  have "(\<lambda>ls. ls @ xs) \<circ> (\<lambda>ls. ls @ [x]) = (\<lambda>ls. ls @ x # xs)" for x :: "stream \<times> string" and xs by (rule ext) simp
  with Cons show ?case by (simp add: wp_simps)
qed





section \<open>Property\<close>


end
