(* ===== verification/LiveDemo.thy ===== *)
theory LiveDemo
  imports Client McpDemo
begin

text \<open>
  A production run of the MCP server, on concrete surroundings: no test environment, a configuration file with one backend that
  pins an image digest and a project, the sample key set, token and claims behind a TLS server, and a broker that answers
  status requests.  One \<^verbatim>\<open>tools/call\<close> request makes the server open a channel.
\<close>

section \<open>The surroundings\<close>

definition live_ext :: ext where
  "live_ext = sample_ext\<lparr>der_to_pem := Inr, pem_extension := \<lambda>_ _. Inr (Some [4, 1, 116]), pb_string := \<lambda>v. Inr (py_str v)\<rparr>"

definition live_config :: string where
  "live_config = ''{'' @ js ''default_backend'' @ '':'' @ js ''b'' @ '','' @ js ''backends'' @ '':[{'' @ js ''backend_id'' @ '':''
     @ js ''b'' @ '','' @ js ''host'' @ '':'' @ js ''h'' @ '','' @ js ''port'' @ '':true,'' @ js ''verifier'' @ '':'' @ js ''ita''
     @ '','' @ js ''expected_digest'' @ '':['' @ js ''sha256:ab'' @ ''],'' @ js ''expected_project_id'' @ '':'' @ js ''proj'' @ ''}]}''"

definition live_backend :: pyval where
  "live_backend = PDict [(''backend_id'', PStr ''b''), (''host'', PStr ''h''), (''port'', PBool True), (''verifier'', PStr ''ita''),
     (''expected_digest'', PList [PStr ''sha256:ab'']), (''expected_project_id'', PStr ''proj'')]"

definition live_loaded :: pyval where
  "live_loaded = PDict [(''default_backend'', PStr ''b''), (''backends'', PList [live_backend])]"

definition live_world :: world where
  "live_world = sample_world\<lparr>w_env := [''ZTAB_BACKENDS_FILE'' \<mapsto> ''f''], w_stat := \<lambda>_ _. Inr 1, w_file := \<lambda>_ _. Inr live_config,
     w_tls := \<lambda>_ _ _. Inr (Some [9]),
     w_broker := \<lambda>_ _. null_broker\<lparr>b_status := \<lambda>_. Inr \<lparr>st_state = 2, st_joined = 2, st_accepted = 2, st_inputs = 0\<rparr>\<rparr>\<rparr>"

lemma live_parse: "json_loads live_config = Inr live_loaded"
  by code_simp

lemma live_resolve: "resolve_backend (Some live_loaded) PNone = Inr live_backend"
  by code_simp

lemma live_policy: "build_policy_from_backend live_backend = Inr (ItaPolicy sample_policy)"
  by code_simp

lemma live_seen: "py_hash_in (PStr ''b'') [] = Inr False" "py_hash_in (PStr ''b'') [PStr ''b''] = Inr True"
  by code_simp+

lemma live_ext_fields:
  "jwks_from_dict live_ext d = Inr [(PStr ''k1'', PInt 7)]" "jwt_header live_ext s = Inr (PDict [(''kid'', PStr ''k1'')])"
  "jwt_decode live_ext s k a b c n = Inr sample_claims" "der_to_pem live_ext = Inr" "pb_string live_ext = (\<lambda>v. Inr (py_str v))"
  by (simp_all add: live_ext_def sample_ext_def)

lemma live_token: "extract_attestation_token live_ext cert = Inr (Some ''t'')"
proof -
  have "token_of_extension [4, 1, 116] = Some ''t''" by code_simp
  then show ?thesis by (simp add: extract_attestation_token_def live_ext_def)
qed

lemma live_verify: "verify_claims live_ext sample_policy sample_claims pem = Inr True"
proof -
  have "compute_pubkey_hash_b64url live_ext pem = Inr sample_nonce"
    by (simp add: compute_pubkey_hash_b64url_def extract_pubkey_from_cert_def live_ext_def sample_ext_def sample_nonce_def)
  from verify_claims_cs [OF sample_shaped sample_policy_ok(1,2) this] sample_trusted show ?thesis by simp
qed

lemmas live_connection = connect_def attest_server_def fetch_server_cert_pem_def run_verifier_def live_token
  ita_verifier_def decode_token_def decode_claims_def signing_key_def wp_simps wp_get_jwks Let_def jwks_fresh_def
  JWKS_TTL_def matching_key_def live_verify live_ext_fields

section \<open>The run\<close>

text \<open>The server before it has connected anywhere.\<close>

definition at_work :: "mcp \<Rightarrow> bool" where
  "at_work w \<longleftrightarrow> w_env w = w_env live_world \<and> w_tls w = w_tls live_world \<and> w_broker w = w_broker live_world \<and> jwks_data w = Some (PDict [])
     \<and> w_clock w = w_clock live_world \<and> jwks_timestamp w = jwks_timestamp live_world \<and> channel_cache w = []"

lemma live_backend_info:
  "wp (get_backend_info PNone) (\<lambda>b w'. b = live_backend \<and> at_work w') (\<lambda>_ _. False)
     (w_out_update f (mcp_start live_world ''/''))"
  by (simp add: get_backend_info_def get_backends_def backends_config_path_def load_backends_from_def wp_simps live_parse live_resolve
     validate_backends_def at_work_def mcp_start_def world.extend_def live_world_def sample_world_def null_world_def os_stat_def read_file_def live_loaded_def live_backend_def live_seen live_resolve [unfolded live_loaded_def live_backend_def])

lemma live_verifier: "get_verifier (w_env live_world) (ItaPolicy sample_policy) = Inr (ita_verifier_fn sample_policy)"
  using sample_policy_ok(3) by (simp add: get_verifier_Inr)

lemma live_stub:
  fixes w :: mcp
  assumes "at_work w"
  shows "wp (get_stub live_ext (PStr ''h'', 1, ItaPolicy sample_policy)) (\<lambda>_ w'. w_chans w' \<noteq> [] \<and> w_broker w' = w_broker live_world) (\<lambda>_ _. False) w"
proof -
  have e: "w_env w = w_env live_world" "w_broker w = w_broker live_world" and t: "w_tls w = (\<lambda>_ _ _. Inr (Some [9]))" "jwks_data w = Some (PDict [])" "w_clock w = (\<lambda>_. 0)" "jwks_timestamp w = 0"
      "w_env w = [''ZTAB_BACKENDS_FILE'' \<mapsto> ''f'']"
    using assms by (simp_all add: at_work_def) (simp_all add: live_world_def sample_world_def null_world_def)
  show ?thesis unfolding get_stub_def prod.case wp_bind [of "io_get _"] wp_get wp_bind [of "io_lift _"] wp_lift e(1) live_verifier sum.case ZtabChannel_def
     by (simp add: live_connection t e(2))
qed

definition live_arguments :: pyval where
  "live_arguments = PDict [(''participant_token'', PStr ''tok'')]"

definition live_params :: pyval where
  "live_params = PDict [(''name'', PStr ''ztab_get_session_status''), (''arguments'', live_arguments)]"

abbreviation live_start :: mcp where "live_start \<equiv> mcp_start live_world ''/''"

abbreviation opened :: "'r \<Rightarrow> mcp \<Rightarrow> bool" where "opened _ w \<equiv> w_chans w \<noteq> []"

lemma live_cached:
  "wp (get_cached_stub live_ext live_arguments) (\<lambda>_ w'. w_chans w' \<noteq> [] \<and> w_broker w' = w_broker live_world) (\<lambda>_ _. False)
     (w_out_update f live_start)"
proof -
  have b: "py_get live_backend ''host'' (PStr ''localhost'') = Inr (PStr ''h'')" "rbind (py_get live_backend ''port'' (PInt 8000)) py_int = Inr 1"
      "py_item live_backend ''backend_id'' = Inr (PStr ''b'')" "py_get live_arguments ''backend'' PNone = Inr PNone"
    by (simp_all add: live_backend_def live_arguments_def py_item_def)
  show ?thesis
    unfolding get_cached_stub_def wp_bind [of "io_lift _"] wp_lift b sum.case wp_bind [of "get_backend_info _"]
  proof (rule wp_mono [OF live_backend_info], goal_cases)
    case (1 x w')
    then show ?case
      by (auto simp: b wp_simps live_seen at_work_def [of w'] open_backend_def live_policy split_beta simp del: py_get.simps intro!: wp_mono [OF live_stub])
  qed simp
qed

lemma live_status: "wp (run_get_session_status live_ext live_arguments) opened opened (w_out_update f live_start)"
proof -
  have "SessionState_Name SEALED = Inr ''SEALED''" by code_simp
  then show ?thesis
    unfolding run_get_session_status_def wp_bind [of "get_cached_stub _ _"]
    by (intro wp_mono [OF live_cached]) (auto simp: catch_rpc_def wp_simps participant_token_def pb_str_def py_item_def live_arguments_def
        live_ext_fields live_world_def split: prod.split sum.split)
qed

lemma live_tool: "wp (call_tool live_ext live_params) opened opened (w_out_update f live_start)"
proof -
  have "find_handler live_ext (PStr ''ztab_get_session_status'') = Inr (Some (''ztab_get_session_status'', run_get_session_status live_ext))"
    by (simp add: find_handler_def TOOL_HANDLERS_def py_hash_in_def)
  moreover have "validate_required_args ''ztab_get_session_status'' live_arguments = Inr None" by code_simp
  ultimately show ?thesis
    by (simp add: call_tool_def live_params_def wp_simps run_handler_def, intro wp_mono [OF live_status]) (auto simp: wp_simps)
qed

lemma live_request: "wp (handle_request live_ext (PStr ''tools/call'') live_params) opened opened (w_out_update f live_start)"
  by (simp add: handle_request_def wp_simps, rule wp_mono [OF live_tool]) (auto simp: wp_simps)

definition live_message :: pydict where
  "live_message = [(''id'', PStr ''1''), (''method'', PStr ''tools/call''), (''params'', live_params)]"

lemma live_processed: "wp (process_message live_ext (PDict live_message)) opened opened (w_out_update f live_start)"
proof -
  have get: "py_get (PDict live_message) ''id'' PNone = Inr (PStr ''1'')" "py_get (PDict live_message) ''method'' (PStr []) = Inr (PStr ''tools/call'')"
     "py_get (PDict live_message) ''params'' (PDict []) = Inr live_params" by (simp_all add: live_message_def)
  have out: "w_out_update g (w_out_update f s) = w_out_update (g \<circ> f) s" for f g and s :: mcp by simp
  show ?thesis
    unfolding process_message_def get wp_bind [of "io_lift _"] wp_lift sum.case wp_bind [of "print_stderr _"]
      wp_bind [of "io_catch _ _"] wp_catch wp_print_stderr out wp_bind [of "handle_request _ _ _"]
    by (rule wp_mono [OF live_request]) (simp_all add: wp_simps send_def)
qed

text \<open>After the run there is a channel.\<close>

lemma live_run: "w_chans (snd (mcp_main live_ext [demo_line] live_start)) \<noteq> []"
proof -
  have "strip demo_line \<noteq> []" by code_simp
  moreover have "json_loads (strip demo_line) = Inr (PDict live_message)" by code_simp
  ultimately have line: "process_line live_ext demo_line = process_message live_ext (PDict live_message)" by (simp add: process_line_def)
  have "wp (mcp_main live_ext [demo_line]) opened opened live_start"
    unfolding mcp_main_def serve.simps line wp_bind wp_print_stderr by (rule wp_mono [OF live_processed]) (simp_all add: wp_simps)
  then show ?thesis by (auto simp: wp_def split: prod.splits sum.splits)
qed

end
