(* ===== verification/BrokerSchema.thy ===== *)
theory BrokerSchema
  imports World
begin

text \<open>
  The JSON side of the session broker (\<^verbatim>\<open>tee/session_manager.cc\<close>, the anonymous namespace and
  \<^verbatim>\<open>ValidateJsonSchema\<close>): bounded parsing, validation of a value against a schema node, the comparison of a
  retried input with the stored one, and the extraction of an answer from a fenced block of a model's output.

  The packages the broker calls are the fields of \<open>bext\<close>.  A status the code returns is an exception of
  kind \<open>RpcError\<close>; a C++ exception of the JSON package, which the code does not catch, is one of
  kind \<open>OtherException\<close>.
\<close>

section \<open>JSON values and packages\<close>

text \<open>The values of \<^verbatim>\<open>nlohmann::json\<close>.  Objects are sorted maps; here they are lists of their items in order.\<close>

datatype njson =
    NNull | NBool bool | NInt int | NFloat rat | NStr string
  | NArr "njson list" | NObj "(string \<times> njson) list"

fun nj_type_name :: "njson \<Rightarrow> string" where
  "nj_type_name NNull = ''null''"
| "nj_type_name (NBool _) = ''boolean''"
| "nj_type_name (NInt _) = ''number''"
| "nj_type_name (NFloat _) = ''number''"
| "nj_type_name (NStr _) = ''string''"
| "nj_type_name (NArr _) = ''array''"
| "nj_type_name (NObj _) = ''object''"

text \<open>The exceptions of \<^verbatim>\<open>json::parse\<close>: a \<^verbatim>\<open>parse_error\<close>, or an \<^verbatim>\<open>out_of_range\<close> for a number too large for a double.\<close>

datatype parse_failure = ParseError string | OutOfRange string

text \<open>
  \<^item> \<open>bx_parse\<close>: \<^verbatim>\<open>json::parse\<close> with the callback that refuses elements deeper than a bound; \<open>Inl\<close> is the
    exception it throws;
  \<^item> \<open>bx_dump\<close>: \<^verbatim>\<open>json::dump\<close>;
  \<^item> \<open>bx_get_int\<close>: \<^verbatim>\<open>json::get<int>\<close>;
  \<^item> \<open>bx_re2\<close>, \<open>bx_re2_capture\<close>: \<^verbatim>\<open>RE2::PartialMatch\<close> of a pattern on a text, without and with one capture;
  \<^item> \<open>bx_duration\<close>: \<^verbatim>\<open>absl::FormatDuration\<close>;
  \<^item> \<open>bx_replace_all\<close>: \<^verbatim>\<open>absl::StrReplaceAll\<close>.
\<close>

record bext =
  bx_parse :: "nat \<Rightarrow> string \<Rightarrow> parse_failure + njson"
  bx_dump :: "njson \<Rightarrow> string"
  bx_get_int :: "njson \<Rightarrow> int res"
  bx_re2 :: "string \<Rightarrow> string \<Rightarrow> bool"
  bx_re2_capture :: "string \<Rightarrow> string \<Rightarrow> string option"
  bx_duration :: "rat \<Rightarrow> string"
  bx_replace_all :: "string \<Rightarrow> (string \<times> string) list \<Rightarrow> string"

section \<open>Statuses\<close>

abbreviation InvalidArgumentError :: "string \<Rightarrow> exn" where "InvalidArgumentError \<equiv> Exn (RpcError INVALID_ARGUMENT)"
abbreviation FailedPreconditionError :: "string \<Rightarrow> exn" where "FailedPreconditionError \<equiv> Exn (RpcError FAILED_PRECONDITION)"
abbreviation PermissionDeniedError :: "string \<Rightarrow> exn" where "PermissionDeniedError \<equiv> Exn (RpcError PERMISSION_DENIED)"
abbreviation InternalError :: "string \<Rightarrow> exn" where "InternalError \<equiv> Exn (RpcError INTERNAL)"
abbreviation NotFoundError :: "string \<Rightarrow> exn" where "NotFoundError \<equiv> Exn (RpcError NOT_FOUND)"
abbreviation AlreadyExistsError :: "string \<Rightarrow> exn" where "AlreadyExistsError \<equiv> Exn (RpcError ALREADY_EXISTS)"
abbreviation ResourceExhaustedError :: "string \<Rightarrow> exn" where "ResourceExhaustedError \<equiv> Exn (RpcError RESOURCE_EXHAUSTED)"

text \<open>\<^verbatim>\<open>if (!s.ok()) return E(f(s.message()))\<close>: a status gets a new code and message, an exception passes.\<close>

fun on_error :: "(string \<Rightarrow> exn) \<Rightarrow> 'a res \<Rightarrow> 'a res" where
  "on_error f (Inl (Exn (RpcError c) msg)) = Inl (f msg)"
| "on_error f r = r"

lemma on_error_Inr [simp]: "on_error f r = Inr x \<longleftrightarrow> r = Inr x"
  by (cases "(f, r)" rule: on_error.cases) simp_all

text \<open>A loop whose body may return early.\<close>

fun rfor :: "('a \<Rightarrow> unit res) \<Rightarrow> 'a list \<Rightarrow> unit res" where
  "rfor f [] = Inr ()"
| "rfor f (x # xs) = rbind (f x) (\<lambda>_. rfor f xs)"

lemma rfor_cong [fundef_cong]: "xs = ys \<Longrightarrow> (\<And>x. x \<in> set ys \<Longrightarrow> f x = g x) \<Longrightarrow> rfor f xs = rfor g ys"
  by (induction ys arbitrary: xs) (auto intro: rbind_cong)

lemma rfor_Inr: "rfor f xs = Inr u \<longleftrightarrow> (\<forall>x\<in>set xs. f x = Inr ())"
  by (induction xs) auto

section \<open>Access to JSON values\<close>

text \<open>\<^verbatim>\<open>contains\<close> and \<^verbatim>\<open>operator[]\<close> with a key; a value that is not an object contains no key.\<close>

fun nj_get :: "njson \<Rightarrow> string \<Rightarrow> njson option" where
  "nj_get (NObj kvs) k = map_of kvs k"
| "nj_get _ k = None"

definition type_error :: "string \<Rightarrow> njson \<Rightarrow> exn" where
  "type_error expected v = Exn (OtherException ''type_error'')
     (''[json.exception.type_error.302] type must be '' @ expected @ '', but is '' @ nj_type_name v)"

fun get_string :: "njson \<Rightarrow> string res" where
  "get_string (NStr s) = Inr s"
| "get_string v = Inl (type_error ''string'' v)"

fun get_bool :: "njson \<Rightarrow> bool res" where
  "get_bool (NBool b) = Inr b"
| "get_bool v = Inl (type_error ''boolean'' v)"

text \<open>A range-for over a value, and over its \<^verbatim>\<open>items()\<close>: the keys of an array are its indexes, that of a scalar is empty.\<close>

fun nj_elements :: "njson \<Rightarrow> njson list" where
  "nj_elements NNull = []"
| "nj_elements (NArr vs) = vs"
| "nj_elements (NObj kvs) = map snd kvs"
| "nj_elements v = [v]"

fun nj_items :: "njson \<Rightarrow> (string \<times> njson) list" where
  "nj_items NNull = []"
| "nj_items (NArr vs) = map (\<lambda>(i, v). (nat_str i, v)) (enumerate 0 vs)"
| "nj_items (NObj kvs) = kvs"
| "nj_items v = [([], v)]"

lemma map_of_size: "map_of kvs k = Some (v :: njson) \<Longrightarrow> size v < size (NObj kvs)"
  by (induction kvs) (auto split: if_splits)

lemma nj_get_size: "nj_get s k = Some v \<Longrightarrow> size v < size s"
  by (cases s) (auto dest: map_of_size)

lemma nj_items_size: "(k, v) \<in> set (nj_items s) \<Longrightarrow> size v \<le> size s"
proof (cases s)
  case (NArr vs)
  assume "(k, v) \<in> set (nj_items s)"
  then have "v \<in> set vs" using NArr by (auto simp: in_set_enumerate_eq)
  then show ?thesis using NArr by (simp add: size_list_estimation' le_SucI)
next
  case (NObj kvs)
  assume "(k, v) \<in> set (nj_items s)"
  then have "size_prod (\<lambda>_. 0) size (k, v) \<le> size_list (size_prod (\<lambda>_. 0) size) kvs"
    using NObj by (intro size_list_estimation') auto
  then show ?thesis using NObj by simp
qed auto

section \<open>Validation against a schema\<close>

text \<open>
  \<^verbatim>\<open>ValidateNode\<close>, one definition for the checks of each kind of value; \<open>rec\<close> is the recursive call.
\<close>

definition expected :: "string \<Rightarrow> njson \<Rightarrow> unit res" where
  "expected what value = Inl (InvalidArgumentError (''Expected '' @ what @ '', got '' @ nj_type_name value))"

fun validate_string :: "bext \<Rightarrow> njson \<Rightarrow> njson \<Rightarrow> unit res" where
  "validate_string x schema (NStr str_val) = (case nj_get schema ''pattern'' of
      None \<Rightarrow> Inr ()
    | Some p \<Rightarrow> rbind (get_string p) (\<lambda>pattern.
        if bx_re2 x pattern str_val then Inr ()
        else Inl (InvalidArgumentError (''String does not match pattern '' @ [quote_char] @ pattern @ [quote_char]))))"
| "validate_string x schema value = expected ''string'' value"

definition check_bound :: "bext \<Rightarrow> njson \<Rightarrow> string \<Rightarrow> (int \<Rightarrow> bool) \<Rightarrow> string \<Rightarrow> unit res" where
  "check_bound x schema key violated msg = (case nj_get schema key of
      None \<Rightarrow> Inr ()
    | Some b \<Rightarrow> rbind (bx_get_int x b) (\<lambda>n. if violated n then Inl (InvalidArgumentError msg) else Inr ()))"

fun validate_array :: "bext \<Rightarrow> (njson \<Rightarrow> njson \<Rightarrow> unit res) \<Rightarrow> njson \<Rightarrow> njson \<Rightarrow> unit res" where
  "validate_array x rec schema (NArr vs) =
     rbind (check_bound x schema ''minItems'' (\<lambda>n. int (length vs) < n) ''Array has fewer items than minItems'') (\<lambda>_.
     rbind (check_bound x schema ''maxItems'' (\<lambda>n. int (length vs) > n) ''Array has more items than maxItems'') (\<lambda>_.
     case nj_get schema ''items'' of
       None \<Rightarrow> Inr ()
     | Some items \<Rightarrow> rfor (\<lambda>(i, v). on_error
           (\<lambda>msg. InvalidArgumentError (''Array item '' @ nat_str i @ '': '' @ msg)) (rec v items)) (enumerate 0 vs)))"
| "validate_array x rec schema value = expected ''array'' value"

definition check_required :: "njson \<Rightarrow> njson \<Rightarrow> unit res" where
  "check_required schema value = (case nj_get schema ''required'' of
      None \<Rightarrow> Inr ()
    | Some req \<Rightarrow> rfor (\<lambda>r. rbind (get_string r) (\<lambda>field.
        if nj_get value field \<noteq> None then Inr ()
        else Inl (InvalidArgumentError (''Missing required field: '' @ [quote_char] @ field @ [quote_char]))))
        (nj_elements req))"

definition check_additional :: "njson \<Rightarrow> njson \<Rightarrow> unit res" where
  "check_additional schema value = (case nj_get schema ''additionalProperties'' of
      None \<Rightarrow> Inr ()
    | Some a \<Rightarrow> rbind (get_bool a) (\<lambda>allowed. if allowed then Inr () else
        rfor (\<lambda>(key, _). case nj_get schema ''properties'' of
            Some props \<Rightarrow> if nj_get props key \<noteq> None then Inr ()
              else Inl (InvalidArgumentError ''Unexpected field present in object'')
          | None \<Rightarrow> Inl (InvalidArgumentError ''Unexpected field present in object''))
          (nj_items value)))"

definition check_properties :: "(njson \<Rightarrow> njson \<Rightarrow> unit res) \<Rightarrow> njson \<Rightarrow> njson \<Rightarrow> unit res" where
  "check_properties rec schema value = (case nj_get schema ''properties'' of
      None \<Rightarrow> Inr ()
    | Some props \<Rightarrow> rfor (\<lambda>(key, prop_schema). case nj_get value key of
          None \<Rightarrow> Inr ()
        | Some v \<Rightarrow> on_error (\<lambda>msg. InvalidArgumentError (''Field '' @ [quote_char] @ key @ [quote_char] @ '': '' @ msg))
            (rec v prop_schema)) (nj_items props))"

fun validate_object :: "(njson \<Rightarrow> njson \<Rightarrow> unit res) \<Rightarrow> njson \<Rightarrow> njson \<Rightarrow> unit res" where
  "validate_object rec schema (NObj kvs) =
     rbind (check_required schema (NObj kvs)) (\<lambda>_.
     rbind (check_additional schema (NObj kvs)) (\<lambda>_.
     check_properties rec schema (NObj kvs)))"
| "validate_object rec schema value = expected ''object'' value"

fun is_number :: "njson \<Rightarrow> bool" where
  "is_number (NInt _) = True" | "is_number (NFloat _) = True" | "is_number _ = False"

fun is_number_integer :: "njson \<Rightarrow> bool" where
  "is_number_integer (NInt _) = True" | "is_number_integer _ = False"

fun is_boolean :: "njson \<Rightarrow> bool" where
  "is_boolean (NBool _) = True" | "is_boolean _ = False"

text \<open>The recursive calls are on subschemas only, whatever the value is.\<close>

definition subschema :: "njson \<Rightarrow> njson \<Rightarrow> bool" where
  "subschema s t \<longleftrightarrow> nj_get t ''items'' = Some s \<or> (\<exists>props k. nj_get t ''properties'' = Some props \<and> (k, s) \<in> set (nj_items props))"

lemma subschema_size: "subschema s t \<Longrightarrow> size s < size t"
  by (auto simp: subschema_def dest!: nj_get_size nj_items_size)

lemma validate_array_cong [fundef_cong]:
  "x = x' \<Longrightarrow> schema = schema' \<Longrightarrow> value = value' \<Longrightarrow> (\<And>v s. subschema s schema' \<Longrightarrow> rec v s = rec' v s) \<Longrightarrow>
   validate_array x rec schema value = validate_array x' rec' schema' value'"
  by (cases value') (auto simp: subschema_def intro!: rbind_cong rfor_cong split: option.splits)

lemma check_properties_cong:
  "(\<And>v s. subschema s schema \<Longrightarrow> rec v s = rec' v s) \<Longrightarrow>
   check_properties rec schema value = check_properties rec' schema value"
  unfolding check_properties_def
  by (intro option.case_cong refl rfor_cong) (auto simp: subschema_def split: option.split, metis)

lemma validate_object_cong [fundef_cong]:
  "schema = schema' \<Longrightarrow> value = value' \<Longrightarrow> (\<And>v s. subschema s schema' \<Longrightarrow> rec v s = rec' v s) \<Longrightarrow>
   validate_object rec schema value = validate_object rec' schema' value'"
  by (cases value') (simp_all cong: check_properties_cong)

function ValidateNode :: "bext \<Rightarrow> njson \<Rightarrow> njson \<Rightarrow> unit res" where
  "ValidateNode x value schema = (case nj_get schema ''type'' of
      None \<Rightarrow> Inr ()
    | Some ty \<Rightarrow> rbind (get_string ty) (\<lambda>type.
        if type = ''string'' then validate_string x schema value
        else if type = ''array'' then validate_array x (\<lambda>v s. ValidateNode x v s) schema value
        else if type = ''object'' then validate_object (\<lambda>v s. ValidateNode x v s) schema value
        else if type = ''number'' then (if is_number value then Inr () else expected ''number'' value)
        else if type = ''integer'' then (if is_number_integer value then Inr () else expected ''integer'' value)
        else if type = ''boolean'' then (if is_boolean value then Inr () else expected ''boolean'' value)
        else Inr ()))"
  by pat_completeness auto
termination
  by (relation "measure (\<lambda>(x, value, schema). size schema)") (auto dest: subschema_size)

declare ValidateNode.simps [simp del]

section \<open>Parsing, canonical form, retries\<close>

definition kMaxInputBytes :: int where "kMaxInputBytes = 65536"

definition kMaxJsonParseDepth :: nat where "kMaxJsonParseDepth = 32"

definition out_of_range :: "string \<Rightarrow> exn" where
  "out_of_range what = Exn (OtherException ''out_of_range'') what"

text \<open>Only the \<^verbatim>\<open>parse_error\<close> is caught.\<close>

definition ParseJsonSafely :: "bext \<Rightarrow> string \<Rightarrow> njson res" where
  "ParseJsonSafely x json_str = (case bx_parse x kMaxJsonParseDepth json_str of
      Inr v \<Rightarrow> Inr v
    | Inl (OutOfRange what) \<Rightarrow> Inl (out_of_range what)
    | Inl (ParseError what) \<Rightarrow> Inl (InvalidArgumentError
        (''JSON parse error (possibly exceeded max depth '' @ nat_str kMaxJsonParseDepth @ ''): '' @ what)))"

definition payload_too_large :: "string \<Rightarrow> exn" where
  "payload_too_large input = InvalidArgumentError (''Input payload too large ('' @ nat_str (length input) @ '' bytes, max ''
     @ int_str kMaxInputBytes @ '')'')"

definition ValidateRetryPayload :: "bext \<Rightarrow> string \<Rightarrow> string \<Rightarrow> unit res" where
  "ValidateRetryPayload x retry_json stored_json =
     (if int (length retry_json) > kMaxInputBytes then Inl (payload_too_large retry_json)
      else rbind (on_error InvalidArgumentError (ParseJsonSafely x retry_json)) (\<lambda>v.
        if bx_dump x v \<noteq> stored_json
        then Inl (FailedPreconditionError ''Input already submitted with different content'')
        else Inr ()))"

definition ValidateJsonSchema :: "bext \<Rightarrow> string \<Rightarrow> string \<Rightarrow> unit res" where
  "ValidateJsonSchema x json_str schema_json =
     rbind (ParseJsonSafely x json_str) (\<lambda>value.
     rbind (on_error (\<lambda>msg. InternalError (''Invalid schema JSON: '' @ msg)) (ParseJsonSafely x schema_json)) (\<lambda>schema.
     ValidateNode x value schema))"

section \<open>Answers of the model\<close>

definition is_ws :: "char \<Rightarrow> bool" where
  "is_ws c \<longleftrightarrow> c \<in> {CHR '' '', CHR 0x09, CHR 0x0A, CHR 0x0D}"

definition FENCE :: string where
  "FENCE = replicate 3 (CHR 0x60)"

text \<open>The two patterns; \<^verbatim>\<open>\\n\<close> in the C++ literals is a newline character.\<close>

definition fence_re :: string where
  "fence_re = ''(?s)'' @ FENCE @ ''[a-zA-Z0-9]*'' @ [CHR 0x0A] @ ''(.*?)'' @ [CHR 0x0A] @ FENCE"

definition fence_fallback_re :: string where
  "fence_fallback_re = ''(?s)'' @ FENCE @ ''[a-zA-Z0-9]*'' @ [CHR 0x0A] @ ''(.*?)'' @ FENCE"

definition StripMarkdownCodeFences :: "bext \<Rightarrow> string \<Rightarrow> string" where
  "StripMarkdownCodeFences x input =
     (let s = (case bx_re2_capture x fence_re input of
                 Some content \<Rightarrow> content
               | None \<Rightarrow> (case bx_re2_capture x fence_fallback_re input of Some content \<Rightarrow> content | None \<Rightarrow> input))
      in if list_all is_ws s then s else rev (dropWhile is_ws (rev (dropWhile is_ws s))))"

section \<open>A validation error does not reveal the value\<close>

text \<open>The patterns that occur in a schema, at any depth, and the strings that none of them tells apart.\<close>

inductive pattern_of :: "njson \<Rightarrow> string \<Rightarrow> bool" where
  Here: "nj_get schema ''pattern'' = Some (NStr p) \<Longrightarrow> pattern_of schema p"
| Below: "subschema s schema \<Longrightarrow> pattern_of s p \<Longrightarrow> pattern_of schema p"

definition same_matches :: "bext \<Rightarrow> njson \<Rightarrow> string \<Rightarrow> string \<Rightarrow> bool" where
  "same_matches x schema s t \<longleftrightarrow> (\<forall>p. pattern_of schema p \<longrightarrow> bx_re2 x p s = bx_re2 x p t)"

text \<open>
  Values of the same shape: the same kinds at the same places (an integer is not a float), arrays of the same length, objects
  with the same keys, and strings related by \<open>R\<close>; numbers of one kind and booleans may differ.
\<close>

inductive alike :: "(string \<Rightarrow> string \<Rightarrow> bool) \<Rightarrow> njson \<Rightarrow> njson \<Rightarrow> bool" for R where
  Null: "alike R NNull NNull"
| Bool: "alike R (NBool a) (NBool b)"
| Int: "alike R (NInt i) (NInt j)"
| Float: "alike R (NFloat q) (NFloat r)"
| Str: "R s t \<Longrightarrow> alike R (NStr s) (NStr t)"
| Arr: "list_all2 (alike R) vs ws \<Longrightarrow> alike R (NArr vs) (NArr ws)"
| Obj: "map fst kvs = map fst kws \<Longrightarrow> list_all2 (alike R) (map snd kvs) (map snd kws) \<Longrightarrow> alike R (NObj kvs) (NObj kws)"

inductive_simps alike_simps:
  "alike R (NArr vs) w" "alike R (NObj kvs) w" "alike R (NStr s) w"

lemma alike_kinds:
  assumes "alike R v w"
  shows "nj_type_name v = nj_type_name w" "is_number v = is_number w" "is_number_integer v = is_number_integer w"
    "is_boolean v = is_boolean w" "expected what v = expected what w"
  using assms by (cases rule: alike.cases; simp add: expected_def)+

lemma map_of_alike:
  "map fst kvs = map fst kws \<Longrightarrow> list_all2 P (map snd kvs) (map snd kws) \<Longrightarrow> rel_option P (map_of kvs k) (map_of kws k)"
proof (induction kvs arbitrary: kws)
  case (Cons y ys)
  then show ?case by (cases kws) auto
qed simp

lemma nj_get_alike: "alike R v w \<Longrightarrow> rel_option (alike R) (nj_get v k) (nj_get w k)"
  by (erule alike.cases) (auto intro: map_of_alike)

lemma check_required_alike: "alike R v w \<Longrightarrow> check_required schema v = check_required schema w"
  unfolding check_required_def
  by (intro option.case_cong refl rfor_cong rbind_cong) (use nj_get_alike [of R v w] in \<open>force simp: option_rel_Some1 rel_option_iff split: option.splits\<close>)

lemma rfor_map: "rfor f (map g xs) = rfor (f \<circ> g) xs"
  by (induction xs) simp_all

text \<open>The check of additional properties looks at the keys alone.\<close>

lemma check_additional_keys:
  assumes "map fst kvs = map fst kws"
  shows "check_additional schema (NObj kvs) = check_additional schema (NObj kws)"
proof -
  have "rfor (\<lambda>(key, _). f key) kvs = rfor (\<lambda>(key, _). f key) kws" for f :: "string \<Rightarrow> unit res"
    using rfor_map [of f fst kvs] rfor_map [of f fst kws] assms by (simp add: comp_def case_prod_unfold)
  then show ?thesis by (simp add: check_additional_def cong: if_cong option.case_cong)
qed

lemma check_properties_alike:
  assumes "\<And>v w s. subschema s schema \<Longrightarrow> alike R v w \<Longrightarrow> rec v s = rec w s" "alike R v w"
  shows "check_properties rec schema v = check_properties rec schema w"
proof -
  have "(case nj_get v k of None \<Rightarrow> Inr () | Some u \<Rightarrow> on_error f (rec u s)) = (case nj_get w k of None \<Rightarrow> Inr () | Some u \<Rightarrow> on_error f (rec u s))"
    if "subschema s schema" for k f s
    using nj_get_alike [OF assms(2), of k] assms(1) [OF that] by (auto simp: rel_option_iff split: option.splits)
  then show ?thesis unfolding check_properties_def
    by (intro option.case_cong refl rfor_cong) (auto simp: subschema_def)
qed

lemma rfor_alike:
  "list_all2 P vs ws \<Longrightarrow> (\<And>i v w. P v w \<Longrightarrow> f i v = f i w) \<Longrightarrow>
   rfor (\<lambda>(i, v). f i v) (enumerate n vs) = rfor (\<lambda>(i, v). f i v) (enumerate n ws)"
  by (induction arbitrary: n rule: list_all2_induct) auto

lemma validate_array_alike:
  assumes rec: "\<And>v w s. subschema s schema \<Longrightarrow> alike R v w \<Longrightarrow> rec v s = rec w s" and "alike R v w"
  shows "validate_array x rec schema v = validate_array x rec schema w"
  using assms(2)
proof cases
  case (Arr vs ws)
  have "rfor (\<lambda>(i, v). on_error (f i) (rec v items)) (enumerate 0 vs) = rfor (\<lambda>(i, v). on_error (f i) (rec v items)) (enumerate 0 ws)"
    if "nj_get schema ''items'' = Some items" for items f
    using rec [of items] that by (intro rfor_alike [OF Arr(3)]) (simp add: subschema_def)
  then show ?thesis using Arr list_all2_lengthD [OF Arr(3)] by (auto intro!: rbind_cong split: option.split)
qed (simp_all add: expected_def)

lemma validate_object_alike:
  assumes "\<And>v w s. subschema s schema \<Longrightarrow> alike R v w \<Longrightarrow> rec v s = rec w s" and "alike R v w"
  shows "validate_object rec schema v = validate_object rec schema w"
  using assms(2)
proof cases
  case (Obj kvs kws)
  then show ?thesis
    using check_required_alike [OF assms(2), of schema] check_properties_alike [OF assms(1) assms(2)]
      check_additional_keys [OF Obj(3)] by simp
qed (simp_all add: expected_def)

lemma validate_string_alike:
  assumes "\<And>s t. R s t \<Longrightarrow> same_matches x schema s t" "alike R v w"
  shows "validate_string x schema v = validate_string x schema w"
  using assms(2)
proof cases
  case (Str s t)
  then have "bx_re2 x p s = bx_re2 x p t" if "nj_get schema ''pattern'' = Some (NStr p)" for p
    using assms(1) Here [OF that] by (auto simp: same_matches_def)
  then show ?thesis using Str by (auto intro!: rbind_cong split: option.split elim: get_string.elims)
qed (simp_all add: expected_def)

lemma ValidateNode_alike:
  assumes "\<And>s t. R s t \<Longrightarrow> same_matches x schema s t" "alike R v w"
  shows "ValidateNode x v schema = ValidateNode x w schema"
  using assms
proof (induction "size schema" arbitrary: v w schema rule: less_induct)
  case less
  have rec: "ValidateNode x v s = ValidateNode x w s" if "subschema s schema" "alike R v w" for v w s
    using less(1) [OF subschema_size [OF that(1)] _ that(2)] less(2) Below [OF that(1)] by (auto simp: same_matches_def)
  show ?case
    by (simp add: ValidateNode.simps [of x _ schema] validate_string_alike [OF less(2,3)] alike_kinds [OF less(3)]
        validate_array_alike [where rec = "ValidateNode x", OF rec less(3)]
        validate_object_alike [where rec = "ValidateNode x", OF rec less(3)] cong: if_cong option.case_cong)
qed

end
