(* ===== verification/Broker.thy ===== *)
theory Broker
  imports BrokerSchema
begin

text \<open>
  The session broker, \<^verbatim>\<open>SessionManager\<close> of \<^verbatim>\<open>tee/session_manager.cc\<close>: its maps of sessions and of tokens, the six RPC
  handlers, the sweep of finished sessions and the background thread that runs the model.  A handler holds the
  manager's mutex from beginning to end and is one computation on the manager here; \<^verbatim>\<open>SubmitInput\<close>, which
  releases the mutex before it starts a thread, is two, and the thread is the locked section that builds the
  prompt, the inference without the lock, the locked section that stores the outcome, and the release of its
  guard.  \<open>broker_step\<close> lets them interleave in every order.

  The clock and the random generator are streams of answers; hash maps are association lists with distinct keys, of
  which only the order of iteration, on which nothing below depends, is made up.
\<close>

section \<open>State\<close>

abbreviation OPEN :: int where "OPEN \<equiv> 1"
abbreviation CALCULATING :: int where "CALCULATING \<equiv> 3"

abbreviation SESSION_ERROR_UNSPECIFIED :: int where "SESSION_ERROR_UNSPECIFIED \<equiv> 0"
abbreviation JOIN_TIMEOUT :: int where "JOIN_TIMEOUT \<equiv> 5"
abbreviation INPUT_TIMEOUT :: int where "INPUT_TIMEOUT \<equiv> 6"
abbreviation LLM_GENERATION_FAILED :: int where "LLM_GENERATION_FAILED \<equiv> 7"

text \<open>\<^verbatim>\<open>SessionState_Name\<close> in C++: the empty string for a number without a name.\<close>

definition state_name :: "int \<Rightarrow> string" where
  "state_name st = (case map_of SESSION_STATES st of Some n \<Rightarrow> n | None \<Rightarrow> [])"

definition kSessionIdBytes :: nat where "kSessionIdBytes = 16"
definition kParticipantTokenBytes :: nat where "kParticipantTokenBytes = 32"
definition kDefaultTimeoutSeconds :: int where "kDefaultTimeoutSeconds = 300"
definition kMaxLlmRetries :: nat where "kMaxLlmRetries = 3"
definition kMaxParticipants :: int where "kMaxParticipants = 100"
definition kMaxTimeoutSeconds :: int where "kMaxTimeoutSeconds = 86400"
definition kMaxSealedSeconds :: int where "kMaxSealedSeconds = 600"
definition kMaxOpenSeconds :: int where "kMaxOpenSeconds = 600"

text \<open>The policy message with the two fields the agent leaves unset.\<close>

record policy_msg = session_policy +
  sp_signature :: string
  sp_key_id :: string

record policy_definition =
  prompt_template :: string
  default_input_schema_json :: string
  default_output_schema_json :: string

record participant =
  p_token :: string
  p_accepted :: bool
  p_input_json :: string
  p_input_submitted :: bool
  p_join_index :: int

record session =
  ss_id :: string
  ss_state :: int
  ss_policy :: policy_msg
  ss_policy_def :: policy_definition
  ss_participants :: "(string \<times> participant) list"
  ss_result_json :: string
  ss_error_code :: int
  ss_error_detail :: string
  ss_entered_at :: rat
  ss_timeout :: rat
  ss_invitation_token :: string
  ss_participant_tokens :: "string list"
  ss_nonce_to_token :: "(string \<times> string) list"
  ss_creator_nonce :: string

record broker_options =
  terminal_retention_seconds :: int
  max_calculating_seconds :: int
  max_sessions :: int

definition default_options :: broker_options where
  "default_options = \<lparr>terminal_retention_seconds = 3600, max_calculating_seconds = 1800, max_sessions = 1000\<rparr>"

text \<open>
  A background thread: about to be started by \<^verbatim>\<open>SubmitInput\<close>, started, running the model on a prompt with an output
  schema, about to store the outcome, about to leave.
\<close>

datatype job =
    Spawning (job_sid: string)
  | Started (job_sid: string)
  | Inferring (job_sid: string) string string
  | Writing (job_sid: string) "string res"
  | Leaving (job_sid: string)

record manager =
  m_options :: broker_options
  m_policies :: "(string \<times> policy_definition) list"
  m_engine :: bool
  m_clock :: "nat \<Rightarrow> rat"
  m_tick :: nat
  m_rand :: "nat \<Rightarrow> nat \<Rightarrow> bytes"
  m_draws :: nat
  m_sessions :: "(string \<times> session) list"
  m_invitations :: "(string \<times> string) list"
  m_tokens :: "(string \<times> string) list"
  m_nonces :: "(string \<times> string) list"
  m_threads :: int
  m_jobs :: "job list"

section \<open>Helpers\<close>

definition absl_Now :: "(manager, rat) io" where
  "absl_Now = io_bind (io_get (\<lambda>m. m_clock m (m_tick m))) (\<lambda>t. io_bind (io_modify (m_tick_update Suc)) (\<lambda>_. io_return t))"

definition BytesToHexString :: "bytes \<Rightarrow> string" where
  "BytesToHexString bs = concat (map (\<lambda>b. [hex_char (unat b div 16), hex_char (unat b mod 16)]) bs)"

definition GenerateRandomHex :: "nat \<Rightarrow> (manager, string) io" where
  "GenerateRandomHex num_bytes = io_bind (io_get (\<lambda>m. BytesToHexString (m_rand m (m_draws m) num_bytes)))
     (\<lambda>s. io_bind (io_modify (m_draws_update Suc)) (\<lambda>_. io_return s))"

definition is_hex :: "char \<Rightarrow> bool" where
  "is_hex c \<longleftrightarrow> c \<in> set ''0123456789abcdefABCDEF''"

definition uuid_v4_shape :: "(char \<Rightarrow> bool) list" where
  "uuid_v4_shape = replicate 8 is_hex @ [(=) CHR ''-''] @ replicate 4 is_hex @ [(=) CHR ''-'', (=) CHR ''4''] @ replicate 3 is_hex
     @ [(=) CHR ''-'', \<lambda>c. c \<in> set ''89abAB''] @ replicate 3 is_hex @ [(=) CHR ''-''] @ replicate 12 is_hex"

definition IsValidUuidV4 :: "string \<Rightarrow> bool" where
  "IsValidUuidV4 s \<longleftrightarrow> list_all2 (\<lambda>p c. p c) uuid_v4_shape s"

text \<open>Replacing a session in the map, and a participant in a session.\<close>

definition put_session :: "session \<Rightarrow> manager \<Rightarrow> manager" where
  "put_session s m = m\<lparr>m_sessions := AList.update (ss_id s) s (m_sessions m)\<rparr>"

definition on_participant :: "string \<Rightarrow> (participant \<Rightarrow> participant) \<Rightarrow> session \<Rightarrow> session" where
  "on_participant tok f s =
     s\<lparr>ss_participants := map (\<lambda>(t, p). (t, if t = tok then f p else p)) (ss_participants s)\<rparr>"

definition enter :: "int \<Rightarrow> rat \<Rightarrow> session \<Rightarrow> session" where
  "enter st now s = s\<lparr>ss_state := st, ss_entered_at := now\<rparr>"

definition abort_session :: "int \<Rightarrow> string \<Rightarrow> session \<Rightarrow> session" where
  "abort_session err detail s = s\<lparr>ss_state := ABORTED, ss_error_code := err, ss_error_detail := detail\<rparr>"

abbreviation ss_expected :: "session \<Rightarrow> int" where "ss_expected s \<equiv> sp_participants (ss_policy s)"

definition joined :: "session \<Rightarrow> int" where
  "joined s = int (length (ss_participants s))"

definition accepted_count :: "session \<Rightarrow> int" where
  "accepted_count s = int (length (filter (p_accepted \<circ> snd) (ss_participants s)))"

definition submitted_count :: "session \<Rightarrow> int" where
  "submitted_count s = int (length (filter (p_input_submitted \<circ> snd) (ss_participants s)))"

section \<open>Timeouts\<close>

definition effective_timeout :: "broker_options \<Rightarrow> session \<Rightarrow> rat" where
  "effective_timeout opts s =
     (if ss_state s = OPEN then min (ss_timeout s) (of_int kMaxOpenSeconds)
      else if ss_state s = SEALED then min (ss_timeout s) (of_int kMaxSealedSeconds)
      else if ss_state s = CALCULATING then of_int (max_calculating_seconds opts)
      else ss_timeout s)"

definition timeout_error :: "int \<Rightarrow> int" where
  "timeout_error st = (if st = OPEN then JOIN_TIMEOUT else if st = SEALED then INPUT_TIMEOUT
     else if st = CALCULATING then LLM_GENERATION_FAILED else SESSION_ERROR_UNSPECIFIED)"

definition timeout_detail :: "bext \<Rightarrow> rat \<Rightarrow> session \<Rightarrow> string" where
  "timeout_detail x elapsed s =
     ''Session timed out in state '' @ state_name (ss_state s) @ '' after '' @ bx_duration x elapsed"

text \<open>The session as it is afterwards is returned too: the handlers go on with their reference to it.\<close>

definition CheckAndEnforceTimeout :: "bext \<Rightarrow> session \<Rightarrow> (manager, session) io" where
  "CheckAndEnforceTimeout x s =
     (if ss_state s = CLOSED \<or> ss_state s = ABORTED then io_return s
      else io_bind absl_Now (\<lambda>now. io_bind (io_get m_options) (\<lambda>opts.
        let elapsed = now - ss_entered_at s in
        if elapsed > effective_timeout opts s then
          io_bind absl_Now (\<lambda>now'.
          let s' = (abort_session (timeout_error (ss_state s)) (timeout_detail x elapsed s) s)\<lparr>ss_entered_at := now'\<rparr>
          in io_bind (io_modify (put_session s')) (\<lambda>_. io_return s'))
        else io_return s)))"

section \<open>Authentication\<close>

definition invalid_token :: exn where
  "invalid_token = PermissionDeniedError ''Invalid token''"

definition lookup_session :: "(string \<times> string) list \<Rightarrow> string \<Rightarrow> manager \<Rightarrow> session res" where
  "lookup_session index tok m = (case map_of index tok of
      None \<Rightarrow> Inl invalid_token
    | Some sid \<Rightarrow> (case map_of (m_sessions m) sid of None \<Rightarrow> Inl invalid_token | Some s \<Rightarrow> Inr s))"

definition authenticate :: "string \<Rightarrow> manager \<Rightarrow> (session \<times> participant) res" where
  "authenticate tok m = rbind (lookup_session (m_tokens m) tok m) (\<lambda>s.
     case map_of (ss_participants s) tok of None \<Rightarrow> Inl invalid_token | Some p \<Rightarrow> Inr (s, p))"

definition Authenticate :: "string \<Rightarrow> (manager, session \<times> participant) io" where
  "Authenticate tok = io_bind (io_get (authenticate tok)) io_lift"

section \<open>Garbage collection\<close>

definition erase_session :: "session \<Rightarrow> manager \<Rightarrow> manager" where
  "erase_session s m = m\<lparr>
     m_invitations := AList.delete (ss_invitation_token s) (m_invitations m),
     m_nonces := (if ss_creator_nonce s = [] then m_nonces m else AList.delete (ss_creator_nonce s) (m_nonces m)),
     m_tokens := fold AList.delete (ss_participant_tokens s) (m_tokens m),
     m_sessions := AList.delete (ss_id s) (m_sessions m)\<rparr>"

definition should_erase :: "broker_options \<Rightarrow> rat \<Rightarrow> session \<Rightarrow> bool" where
  "should_erase opts now s \<longleftrightarrow> (ss_state s = CLOSED \<or> ss_state s = ABORTED) \<and>
     (if ss_state s = ABORTED \<and> (ss_error_code s = JOIN_TIMEOUT \<or> ss_error_code s = INPUT_TIMEOUT) then True
      else now - ss_entered_at s > of_int (terminal_retention_seconds opts))"

definition sweep_session :: "bext \<Rightarrow> rat \<Rightarrow> session \<Rightarrow> (manager, unit) io" where
  "sweep_session x now s = io_bind (CheckAndEnforceTimeout x s) (\<lambda>s'. io_bind (io_get m_options) (\<lambda>opts.
     if should_erase opts now s' then io_modify (erase_session s') else io_return ()))"

fun sweep :: "bext \<Rightarrow> rat \<Rightarrow> string list \<Rightarrow> (manager, unit) io" where
  "sweep x now [] = io_return ()"
| "sweep x now (sid # sids) = io_bind (io_get (\<lambda>m. map_of (m_sessions m) sid)) (\<lambda>found.
     io_bind (case found of None \<Rightarrow> io_return () | Some s \<Rightarrow> sweep_session x now s) (\<lambda>_. sweep x now sids))"

definition SweepTerminalSessions :: "bext \<Rightarrow> (manager, unit) io" where
  "SweepTerminalSessions x = io_bind absl_Now (\<lambda>now.
     io_bind (io_get (\<lambda>m. map fst (m_sessions m))) (sweep x now))"

section \<open>CreateSession\<close>

definition GetPolicy :: "(string \<times> policy_definition) list \<Rightarrow> string \<Rightarrow> policy_definition res" where
  "GetPolicy policies cls = (case map_of policies cls of
      Some d \<Rightarrow> Inr d
    | None \<Rightarrow> (let available = join_str '', '' (map fst policies) in
        Inl (NotFoundError (''Unknown policy class: '' @ quoted cls @ ''. Available: ''
          @ (if available = [] then ''(none)'' else available)))))"

definition check_schema :: "bext \<Rightarrow> string \<Rightarrow> string \<Rightarrow> unit res" where
  "check_schema x what schema = (if schema = [] then Inr () else
     rbind (on_error (\<lambda>msg. InternalError (''Malformed built-in '' @ what @ '': '' @ msg)) (ParseJsonSafely x schema))
       (\<lambda>_. Inr ()))"

text \<open>The checks of a request, in order; the result is the definition of its policy class.\<close>

definition create_checks :: "bext \<Rightarrow> manager \<Rightarrow> policy_msg \<Rightarrow> policy_definition res" where
  "create_checks x m policy =
     (if int (length (m_sessions m)) \<ge> max_sessions (m_options m)
      then Inl (ResourceExhaustedError (''Server at session capacity ('' @ int_str (max_sessions (m_options m)) @ ''). Try again later.''))
      else rbind (on_error InvalidArgumentError (GetPolicy (m_policies m) (sp_class policy))) (\<lambda>def.
      if sp_participants policy < 2 then Inl (InvalidArgumentError ''expected_participants must be at least 2'')
      else if sp_participants policy > kMaxParticipants
      then Inl (InvalidArgumentError (''expected_participants exceeds maximum ('' @ int_str kMaxParticipants @ '')''))
      else if sp_timeout policy > kMaxTimeoutSeconds
      then Inl (InvalidArgumentError (''timeout_seconds exceeds maximum ('' @ int_str kMaxTimeoutSeconds @ '')''))
      else rbind (check_schema x ''input_schema_json'' (default_input_schema_json def)) (\<lambda>_.
      rbind (check_schema x ''output_schema_json'' (default_output_schema_json def)) (\<lambda>_. Inr def))))"

definition timeout_secs :: "policy_msg \<Rightarrow> int" where
  "timeout_secs policy = (if sp_timeout policy > 0 then sp_timeout policy else kDefaultTimeoutSeconds)"

text \<open>The answer to a request whose nonce created a session before.\<close>

definition create_replay :: "manager \<Rightarrow> policy_msg \<Rightarrow> string \<Rightarrow> create_response option res" where
  "create_replay m policy nonce =
     (if nonce = [] then Inr None
      else if \<not> IsValidUuidV4 nonce then Inl (InvalidArgumentError ''client_nonce must be a valid UUIDv4'')
      else case map_of (m_nonces m) nonce of
        None \<Rightarrow> Inr None
      | Some sid \<Rightarrow> (case map_of (m_sessions m) sid of
          None \<Rightarrow> Inr None
        | Some s \<Rightarrow>
            if ss_policy s \<noteq> policy\<lparr>sp_input_schema := sp_input_schema (ss_policy s),
                 sp_output_schema := sp_output_schema (ss_policy s), sp_timeout := timeout_secs policy\<rparr>
            then Inl (InvalidArgumentError ''Idempotency key reused with different parameters'')
            else Inr (Some \<lparr>cr_invitation = ss_invitation_token s, cr_state = ss_state s,
              cr_token = (case ss_participant_tokens s of [] \<Rightarrow> [] | t # _ \<Rightarrow> t)\<rparr>)))"

definition new_participant :: "string \<Rightarrow> bool \<Rightarrow> int \<Rightarrow> participant" where
  "new_participant tok acc i = \<lparr>p_token = tok, p_accepted = acc, p_input_json = [], p_input_submitted = False, p_join_index = i\<rparr>"

definition new_session :: "string \<Rightarrow> string \<Rightarrow> string \<Rightarrow> policy_msg \<Rightarrow> policy_definition \<Rightarrow> rat \<Rightarrow> string \<Rightarrow> session" where
  "new_session sid creator invitation policy def now nonce =
     \<lparr>ss_id = sid, ss_state = OPEN,
      ss_policy = policy\<lparr>sp_input_schema := default_input_schema_json def,
        sp_output_schema := default_output_schema_json def, sp_timeout := timeout_secs policy\<rparr>,
      ss_policy_def = def, ss_participants = [(creator, new_participant creator True 0)],
      ss_result_json = [], ss_error_code = SESSION_ERROR_UNSPECIFIED, ss_error_detail = [],
      ss_entered_at = now, ss_timeout = of_int (timeout_secs policy), ss_invitation_token = invitation,
      ss_participant_tokens = [creator], ss_nonce_to_token = [], ss_creator_nonce = nonce\<rparr>"

definition insert_session :: "string \<Rightarrow> session \<Rightarrow> manager \<Rightarrow> manager" where
  "insert_session creator s m = (put_session s m)\<lparr>
     m_invitations := AList.update (ss_invitation_token s) (ss_id s) (m_invitations m),
     m_tokens := AList.update creator (ss_id s) (m_tokens m),
     m_nonces := (if ss_creator_nonce s = [] then m_nonces m
       else AList.update (ss_creator_nonce s) (ss_id s) (m_nonces m))\<rparr>"

definition create_new :: "policy_msg \<Rightarrow> policy_definition \<Rightarrow> string \<Rightarrow> (manager, create_response) io" where
  "create_new policy def nonce =
     io_bind (GenerateRandomHex kSessionIdBytes) (\<lambda>session_id.
     io_bind (GenerateRandomHex kParticipantTokenBytes) (\<lambda>creator_token.
     io_bind (GenerateRandomHex kParticipantTokenBytes) (\<lambda>invitation_token.
     io_bind absl_Now (\<lambda>now.
     io_bind (io_modify (insert_session creator_token
       (new_session session_id creator_token invitation_token policy def now nonce))) (\<lambda>_.
     io_return \<lparr>cr_invitation = invitation_token, cr_state = OPEN, cr_token = creator_token\<rparr>)))))"

definition CreateSession :: "bext \<Rightarrow> policy_msg \<Rightarrow> string \<Rightarrow> (manager, create_response) io" where
  "CreateSession x policy nonce =
     io_bind (SweepTerminalSessions x) (\<lambda>_.
     io_bind (io_get (\<lambda>m. create_checks x m policy)) (\<lambda>checked. io_bind (io_lift checked) (\<lambda>def.
     io_bind (io_get (\<lambda>m. create_replay m policy nonce)) (\<lambda>replay. io_bind (io_lift replay) (\<lambda>old.
     case old of Some response \<Rightarrow> io_return response | None \<Rightarrow> create_new policy def nonce)))))"

section \<open>JoinSession, AcceptPolicy\<close>

record join_reply =
  jp_state :: int
  jp_policy :: policy_msg
  jp_token :: string

definition join_answer :: "session \<Rightarrow> string \<Rightarrow> join_reply" where
  "join_answer s tok = \<lparr>jp_state = ss_state s, jp_policy = ss_policy s, jp_token = tok\<rparr>"

definition add_participant :: "string \<Rightarrow> string \<Rightarrow> session \<Rightarrow> session" where
  "add_participant tok nonce s = s\<lparr>
     ss_participants := AList.update tok (new_participant tok False (joined s)) (ss_participants s),
     ss_participant_tokens := ss_participant_tokens s @ [tok],
     ss_nonce_to_token := (if nonce = [] then ss_nonce_to_token s else AList.update nonce tok (ss_nonce_to_token s))\<rparr>"

definition join_new :: "session \<Rightarrow> string \<Rightarrow> (manager, join_reply) io" where
  "join_new s nonce =
     (if ss_state s \<noteq> OPEN then io_raise invalid_token
      else if joined s \<ge> ss_expected s then io_raise invalid_token
      else io_bind (GenerateRandomHex kParticipantTokenBytes) (\<lambda>tok.
        io_bind (io_modify (\<lambda>m. (put_session (add_participant tok nonce s) m)\<lparr>
          m_tokens := AList.update tok (ss_id s) (m_tokens m)\<rparr>)) (\<lambda>_.
        io_return (join_answer s tok))))"

definition join_as :: "string \<Rightarrow> session \<Rightarrow> (manager, join_reply) io" where
  "join_as nonce s =
     (if nonce = [] then join_new s nonce
      else if \<not> IsValidUuidV4 nonce then io_raise (InvalidArgumentError ''client_nonce must be a valid UUIDv4'')
      else case map_of (ss_nonce_to_token s) nonce of
        Some tok \<Rightarrow> io_return (join_answer s tok)
      | None \<Rightarrow> join_new s nonce)"

definition JoinSession :: "bext \<Rightarrow> string \<Rightarrow> string \<Rightarrow> (manager, join_reply) io" where
  "JoinSession x invitation_token nonce =
     io_bind (io_get (\<lambda>m. lookup_session (m_invitations m) invitation_token m)) (\<lambda>found.
     io_bind (io_lift found) (\<lambda>s0. io_bind (CheckAndEnforceTimeout x s0) (\<lambda>s. join_as nonce s)))"

definition all_accepted :: "session \<Rightarrow> bool" where
  "all_accepted s \<longleftrightarrow> joined s = ss_expected s \<and> list_all (p_accepted \<circ> snd) (ss_participants s)"

definition accept_as :: "string \<Rightarrow> participant \<Rightarrow> session \<Rightarrow> (manager, int) io" where
  "accept_as tok p s =
     (if p_accepted p then io_return (ss_state s)
      else if ss_state s \<noteq> OPEN
      then io_raise (FailedPreconditionError (''Session is not OPEN (state='' @ state_name (ss_state s) @ '')''))
      else (let s1 = on_participant tok (\<lambda>p. p\<lparr>p_accepted := True\<rparr>) s in
        if all_accepted s1
        then io_bind absl_Now (\<lambda>now. io_bind (io_modify (put_session (enter SEALED now s1))) (\<lambda>_. io_return SEALED))
        else io_bind (io_modify (put_session s1)) (\<lambda>_. io_return (ss_state s1))))"

definition AcceptPolicy :: "bext \<Rightarrow> string \<Rightarrow> (manager, int) io" where
  "AcceptPolicy x tok =
     io_bind (Authenticate tok) (\<lambda>(s0, p). io_bind (CheckAndEnforceTimeout x s0) (\<lambda>s. accept_as tok p s))"

section \<open>SubmitInput\<close>

definition input_schema_of :: "session \<Rightarrow> string" where
  "input_schema_of s = (if sp_input_schema (ss_policy s) = [] then default_input_schema_json (ss_policy_def s)
     else sp_input_schema (ss_policy s))"

definition check_input :: "bext \<Rightarrow> session \<Rightarrow> string \<Rightarrow> unit res" where
  "check_input x s canonical = (if input_schema_of s = [] then Inr ()
     else on_error (\<lambda>msg. InvalidArgumentError (''Input schema violation: '' @ msg))
       (ValidateJsonSchema x canonical (input_schema_of s)))"

definition store_input :: "string \<Rightarrow> string \<Rightarrow> session \<Rightarrow> session" where
  "store_input tok canonical = on_participant tok (\<lambda>p. p\<lparr>p_input_json := canonical, p_input_submitted := True\<rparr>)"

definition dispatch :: "string \<Rightarrow> manager \<Rightarrow> manager" where
  "dispatch sid m = m\<lparr>m_threads := m_threads m + 1, m_jobs := m_jobs m @ [Spawning sid]\<rparr>"

text \<open>
  The section under the lock.  Its outcome is a response (\<open>Inr\<close>), or the session for which a thread is to be started because
  its inputs are complete (\<open>Inl\<close>).
\<close>

definition submit_new :: "bext \<Rightarrow> string \<Rightarrow> string \<Rightarrow> session \<Rightarrow> (manager, string + submit_response) io" where
  "submit_new x tok input_json s =
     (if int (length input_json) > kMaxInputBytes then io_raise (payload_too_large input_json)
      else io_bind (io_lift (ParseJsonSafely x input_json)) (\<lambda>parsed.
      io_bind (io_lift (check_input x s (bx_dump x parsed))) (\<lambda>_.
      let s1 = store_input tok (bx_dump x parsed) s; remaining = ss_expected s1 - submitted_count s1 in
      if remaining = 0
      then io_bind absl_Now (\<lambda>now. io_bind (io_modify (dispatch (ss_id s) \<circ> put_session (enter CALCULATING now s1))) (\<lambda>_. io_return (Inl (ss_id s))))
      else io_bind (io_modify (put_session s1)) (\<lambda>_.
        io_return (Inr \<lparr>sr_state = ss_state s1, sr_remaining = remaining\<rparr>)))))"

definition submit_as :: "bext \<Rightarrow> string \<Rightarrow> string \<Rightarrow> participant \<Rightarrow> session \<Rightarrow> (manager, string + submit_response) io" where
  "submit_as x tok input_json p s =
     (if ss_state s \<noteq> SEALED then
       if p_input_submitted p
       then io_bind (io_lift (ValidateRetryPayload x input_json (p_input_json p))) (\<lambda>_.
         io_return (Inr \<lparr>sr_state = ss_state s, sr_remaining = 0\<rparr>))
       else io_raise (FailedPreconditionError (''Session is not SEALED (state='' @ state_name (ss_state s) @ '')''))
      else if p_input_submitted p
      then io_bind (io_lift (ValidateRetryPayload x input_json (p_input_json p))) (\<lambda>_.
        io_return (Inr \<lparr>sr_state = ss_state s, sr_remaining = ss_expected s - submitted_count s\<rparr>))
      else submit_new x tok input_json s)"

definition SubmitInput_store :: "bext \<Rightarrow> string \<Rightarrow> string \<Rightarrow> (manager, string + submit_response) io" where
  "SubmitInput_store x tok input_json =
     io_bind (Authenticate tok) (\<lambda>(s0, p). io_bind (CheckAndEnforceTimeout x s0) (\<lambda>s. submit_as x tok input_json p s))"

text \<open>The rest of the handler: the thread starts, or \<^verbatim>\<open>std::system_error\<close> with the given text is caught.\<close>

definition replace_job :: "job \<Rightarrow> job list \<Rightarrow> manager \<Rightarrow> manager" where
  "replace_job j js m = m\<lparr>m_jobs := remove1 j (m_jobs m) @ js\<rparr>"

definition SubmitInput_spawn :: "string \<Rightarrow> string option \<Rightarrow> (manager, submit_response) io" where
  "SubmitInput_spawn sid failure = (case failure of
      None \<Rightarrow> io_bind (io_modify (replace_job (Spawning sid) [Started sid])) (\<lambda>_.
        io_return \<lparr>sr_state = CALCULATING, sr_remaining = 0\<rparr>)
    | Some what \<Rightarrow>
        io_bind (io_modify (replace_job (Spawning sid) [] \<circ> m_threads_update (\<lambda>n. n - 1))) (\<lambda>_.
        io_bind (io_get (\<lambda>m. map_of (m_sessions m) sid)) (\<lambda>found.
        io_bind (case found of
            Some s \<Rightarrow> io_modify (put_session (abort_session SESSION_ERROR_UNSPECIFIED
              (''Failed to spawn inference thread: '' @ what) s))
          | None \<Rightarrow> io_return ()) (\<lambda>_.
        io_raise (InternalError ''Failed to spawn LLM background thread: resource exhausted'')))))"

text \<open>
  The whole handler, when nothing else happens between the two sections; \<open>failure\<close> is the text with which the system refuses
  a thread, if it does.
\<close>

definition SubmitInput :: "bext \<Rightarrow> string option \<Rightarrow> string \<Rightarrow> string \<Rightarrow> (manager, submit_response) io" where
  "SubmitInput x failure tok input_json = io_bind (SubmitInput_store x tok input_json) (\<lambda>stored.
     case stored of Inr response \<Rightarrow> io_return response | Inl session_id \<Rightarrow> SubmitInput_spawn session_id failure)"

section \<open>ProcessSessionAsync\<close>

definition sorted_tokens :: "(string \<times> participant) list \<Rightarrow> string list" where
  "sorted_tokens ps = sort_key (\<lambda>tok. p_join_index (the (map_of ps tok))) (map fst ps)"

definition input_marker :: "nat \<Rightarrow> string \<Rightarrow> string \<Rightarrow> string" where
  "input_marker n which delim = ''<<<PARTICIPANT_'' @ nat_str n @ ''_INPUT_'' @ which @ ''_'' @ delim @ ''>>>'' @ [CHR 0x0A]"

definition input_section :: "string \<Rightarrow> nat \<Rightarrow> string \<Rightarrow> string" where
  "input_section delim n input_json = input_marker n ''BEGIN'' delim @ input_json @ [CHR 0x0A]
     @ input_marker n ''END'' delim @ [CHR 0x0A]"

definition inputs_block :: "string \<Rightarrow> (string \<times> participant) list \<Rightarrow> string" where
  "inputs_block delim ps = concat (map (\<lambda>(n, tok). input_section delim n (p_input_json (the (map_of ps tok))))
     (enumerate 1 (sorted_tokens ps)))"

definition aggregated_prompt :: "bext \<Rightarrow> string \<Rightarrow> session \<Rightarrow> string" where
  "aggregated_prompt x delim s = bx_replace_all x (prompt_template (ss_policy_def s))
     [(''{num_participants}'', nat_str (length (ss_participants s))),
      (''{inputs}'', inputs_block delim (ss_participants s))]"

definition output_schema_of :: "session \<Rightarrow> string" where
  "output_schema_of s = (if sp_output_schema (ss_policy s) = [] then default_output_schema_json (ss_policy_def s)
     else sp_output_schema (ss_policy s))"

text \<open>Step 1, under the lock.  A thread whose session is gone or no longer \<^verbatim>\<open>CALCULATING\<close> goes on to leave.\<close>

definition ProcessSession_begin :: "bext \<Rightarrow> string \<Rightarrow> (manager, unit) io" where
  "ProcessSession_begin x sid = io_bind (io_get (\<lambda>m. map_of (m_sessions m) sid)) (\<lambda>found.
     case found of
       None \<Rightarrow> io_modify (replace_job (Started sid) [Leaving sid])
     | Some s \<Rightarrow>
         if ss_state s \<noteq> CALCULATING then io_modify (replace_job (Started sid) [Leaving sid])
         else io_bind (GenerateRandomHex 8) (\<lambda>delim_suffix.
           io_modify (replace_job (Started sid) [Inferring sid (aggregated_prompt x delim_suffix s) (output_schema_of s)])))"

text \<open>
  Step 2, without the lock: up to three attempts.  The engine, if there is one, answers each attempt with a text or a
  status.  An exception of the JSON package during validation leaves the thread (\<open>Inl\<close> outside).
\<close>

type_synonym engine = "nat \<Rightarrow> string \<Rightarrow> nat \<Rightarrow> string res"

fun llm_attempts :: "bext \<Rightarrow> engine option \<Rightarrow> string \<Rightarrow> string \<Rightarrow> nat \<Rightarrow> nat \<Rightarrow> (string \<times> exn option) res" where
  "llm_attempts x e prompt schema attempt 0 = Inr ([], None)"
| "llm_attempts x e prompt schema attempt (Suc n) = (case e of
      None \<Rightarrow> Inr ([], Some (InternalError ''No LLM engine available''))
    | Some generate \<Rightarrow> (case generate attempt prompt 4096 of
        Inl _ \<Rightarrow> llm_attempts x e prompt schema (Suc attempt) n
      | Inr raw \<Rightarrow> (let output = StripMarkdownCodeFences x raw in
          if schema = [] then Inr (output, None)
          else (case ValidateJsonSchema x output schema of
              Inr _ \<Rightarrow> Inr (output, None)
            | Inl (Exn (RpcError _) _) \<Rightarrow> llm_attempts x e prompt schema (Suc attempt) n
            | Inl ex \<Rightarrow> Inl ex))))"

definition run_llm :: "bext \<Rightarrow> engine option \<Rightarrow> string \<Rightarrow> string \<Rightarrow> string res res" where
  "run_llm x e prompt schema = rbind (llm_attempts x e prompt schema 0 kMaxLlmRetries) (\<lambda>(result_json, status). Inr
     (case status of
        Some ex \<Rightarrow> Inl ex
      | None \<Rightarrow> if result_json = []
          then Inl (InternalError (''LLM failed to produce valid output after '' @ nat_str kMaxLlmRetries @ '' attempts''))
          else Inr result_json))"

text \<open>Step 3, under the lock again, and the destructor of the thread's guard.\<close>

definition ProcessSession_finish :: "string \<Rightarrow> string res \<Rightarrow> (manager, unit) io" where
  "ProcessSession_finish sid result = io_bind (io_modify (replace_job (Writing sid result) [Leaving sid])) (\<lambda>_.
     io_bind (io_get (\<lambda>m. map_of (m_sessions m) sid)) (\<lambda>found.
     case found of
       None \<Rightarrow> io_return ()
     | Some s \<Rightarrow>
         if ss_state s \<noteq> CALCULATING then io_return ()
         else io_bind absl_Now (\<lambda>now. case result of
             Inr result_json \<Rightarrow> io_modify (put_session ((enter CLOSED now s)\<lparr>ss_result_json := result_json\<rparr>))
           | Inl e \<Rightarrow> io_modify (put_session ((abort_session LLM_GENERATION_FAILED (exn_str e) s)\<lparr>ss_entered_at := now\<rparr>)))))"

definition ThreadGuard_release :: "string \<Rightarrow> manager \<Rightarrow> manager" where
  "ThreadGuard_release sid m = replace_job (Leaving sid) [] (m_threads_update (\<lambda>n. n - 1) m)"

text \<open>The whole thread, when nothing else happens meanwhile.\<close>

definition ProcessSessionAsync :: "bext \<Rightarrow> engine \<Rightarrow> string \<Rightarrow> (manager, unit) io" where
  "ProcessSessionAsync x generate sid = io_bind (ProcessSession_begin x sid) (\<lambda>_.
     io_bind (io_get (\<lambda>m. find (\<lambda>j. job_sid j = sid) (m_jobs m))) (\<lambda>j.
     io_bind (case j of
         Some (Inferring _ prompt output_schema) \<Rightarrow>
           io_bind (io_get (\<lambda>m. run_llm x (if m_engine m then Some generate else None) prompt output_schema)) (\<lambda>outcome.
           io_bind (io_lift outcome) (\<lambda>result.
           io_bind (io_modify (replace_job (Inferring sid prompt output_schema) [Writing sid result])) (\<lambda>_.
           ProcessSession_finish sid result)))
       | _ \<Rightarrow> io_return ()) (\<lambda>_.
     io_modify (ThreadGuard_release sid))))"

section \<open>GetResult, GetSessionStatus\<close>

definition result_of :: "session \<Rightarrow> result_response" where
  "result_of s = \<lparr>rr_state = ss_state s,
     rr_json = (if ss_state s = CLOSED then ss_result_json s else []),
     rr_error = (if ss_state s = ABORTED then ss_error_code s else SESSION_ERROR_UNSPECIFIED),
     rr_detail = (if ss_state s = ABORTED then ss_error_detail s else [])\<rparr>"

definition GetResult :: "bext \<Rightarrow> string \<Rightarrow> (manager, result_response) io" where
  "GetResult x tok =
     io_bind (Authenticate tok) (\<lambda>(s0, _). io_bind (CheckAndEnforceTimeout x s0) (\<lambda>s. io_return (result_of s)))"

definition status_of :: "session \<Rightarrow> status_response" where
  "status_of s = \<lparr>st_state = ss_state s, st_joined = joined s, st_accepted = accepted_count s, st_inputs = submitted_count s\<rparr>"

definition GetSessionStatus :: "bext \<Rightarrow> string \<Rightarrow> (manager, status_response) io" where
  "GetSessionStatus x tok =
     io_bind (Authenticate tok) (\<lambda>(s0, _). io_bind (CheckAndEnforceTimeout x s0) (\<lambda>s. io_return (status_of s)))"

section \<open>Interleaving\<close>

text \<open>
  The strings the manager uses as keys, and the assumption on the random generator under which a step is considered:
  what it draws next is not in use.
\<close>

definition in_use :: "manager \<Rightarrow> string set" where
  "in_use m = set (map fst (m_sessions m) @ map fst (m_invitations m) @ map fst (m_tokens m) @ map job_sid (m_jobs m))"

definition fresh_draws :: "manager \<Rightarrow> bool" where
  "fresh_draws m \<longleftrightarrow> list_all (\<lambda>i. list_all (\<lambda>k. BytesToHexString (m_rand m (m_draws m + i) k) \<notin> in_use m) [16, 32]) [0, 1, 2]"

inductive broker_step :: "bext \<Rightarrow> manager \<Rightarrow> manager \<Rightarrow> bool" for x where
  Create: "fresh_draws m \<Longrightarrow> broker_step x m (snd (CreateSession x policy nonce m))"
| Join: "fresh_draws m \<Longrightarrow> broker_step x m (snd (JoinSession x invitation nonce m))"
| Accept: "broker_step x m (snd (AcceptPolicy x tok m))"
| Submit: "broker_step x m (snd (SubmitInput_store x tok input m))"
| Spawn: "Spawning sid \<in> set (m_jobs m) \<Longrightarrow> broker_step x m (snd (SubmitInput_spawn sid failure m))"
| Begin: "Started sid \<in> set (m_jobs m) \<Longrightarrow> broker_step x m (snd (ProcessSession_begin x sid m))"
| Infer: "Inferring sid prompt schema \<in> set (m_jobs m) \<Longrightarrow>
    run_llm x (if m_engine m then Some generate else None) prompt schema = Inr result \<Longrightarrow>
    broker_step x m (replace_job (Inferring sid prompt schema) [Writing sid result] m)"
| Finish: "Writing sid result \<in> set (m_jobs m) \<Longrightarrow> broker_step x m (snd (ProcessSession_finish sid result m))"
| Leave: "Leaving sid \<in> set (m_jobs m) \<Longrightarrow> broker_step x m (ThreadGuard_release sid m)"
| Result: "broker_step x m (snd (GetResult x tok m))"
| Status: "broker_step x m (snd (GetSessionStatus x tok m))"

text \<open>A manager as the constructor leaves it, over the policies loaded at startup.\<close>

definition initial_manager :: "broker_options \<Rightarrow> (string \<times> policy_definition) list \<Rightarrow> bool \<Rightarrow> (nat \<Rightarrow> rat) \<Rightarrow> (nat \<Rightarrow> nat \<Rightarrow> bytes) \<Rightarrow> manager" where
  "initial_manager opts policies has_engine clock rand =
     \<lparr>m_options = opts, m_policies = policies, m_engine = has_engine, m_clock = clock, m_tick = 0, m_rand = rand, m_draws = 0,
      m_sessions = [], m_invitations = [], m_tokens = [], m_nonces = [], m_threads = 0, m_jobs = []\<rparr>"

definition broker_reach :: "bext \<Rightarrow> manager \<Rightarrow> bool" where
  "broker_reach x m \<longleftrightarrow> (\<exists>opts policies has_engine clock rand. 0 \<le> max_sessions opts \<and>
     (broker_step x)\<^sup>*\<^sup>* (initial_manager opts policies has_engine clock rand) m)"

end
