(* ===== verification/BrokerInvariant.thy ===== *)
theory BrokerInvariant
  imports Broker
begin

text \<open>
  What holds of the broker's state whenever its mutex is free.  A session is well formed (\<open>session_ok\<close>): its
  participants are within the bounds of its policy, its phase agrees with what the participants have done, what it
  stores has passed its schemas.  The manager is well formed (\<open>manager_ok\<close>): the three reverse indexes hold exactly
  the tokens of the sessions that exist, the number of sessions is bounded, and each \<^verbatim>\<open>CALCULATING\<close> session has exactly one
  thread at work for it.
\<close>

section \<open>Sessions\<close>

definition no_inputs :: "session \<Rightarrow> bool" where
  "no_inputs s \<longleftrightarrow> list_all (Not \<circ> p_input_submitted \<circ> snd) (ss_participants s)"

definition all_inputs :: "session \<Rightarrow> bool" where
  "all_inputs s \<longleftrightarrow> list_all (p_input_submitted \<circ> snd) (ss_participants s)"

definition shape_ok :: "session \<Rightarrow> bool" where
  "shape_ok s \<longleftrightarrow> (let ps = ss_participants s in ps \<noteq> [] \<and> distinct (map fst ps) \<and> ss_participant_tokens s = map fst ps
     \<and> map (p_token \<circ> snd) ps = map fst ps \<and> map (p_join_index \<circ> snd) ps = map int [0..<length ps])"

definition bounds_ok :: "session \<Rightarrow> bool" where
  "bounds_ok s \<longleftrightarrow> 2 \<le> ss_expected s \<and> ss_expected s \<le> kMaxParticipants \<and> joined s \<le> ss_expected s
     \<and> 0 < ss_timeout s \<and> ss_timeout s \<le> of_int kMaxTimeoutSeconds"

definition phase_ok :: "session \<Rightarrow> bool" where
  "phase_ok s \<longleftrightarrow>
     ss_state s = OPEN \<and> \<not> all_accepted s \<and> no_inputs s
   \<or> ss_state s = SEALED \<and> all_accepted s \<and> \<not> all_inputs s
   \<or> (ss_state s = CALCULATING \<or> ss_state s = CLOSED) \<and> all_accepted s \<and> all_inputs s
   \<or> ss_state s = ABORTED \<and> (all_accepted s \<or> no_inputs s)"

text \<open>The schemas of a session are those of its policy's definition, whatever the request had in their place.\<close>

definition pinned :: "session \<Rightarrow> bool" where
  "pinned s \<longleftrightarrow> sp_input_schema (ss_policy s) = default_input_schema_json (ss_policy_def s)
     \<and> sp_output_schema (ss_policy s) = default_output_schema_json (ss_policy_def s)"

definition input_ok :: "bext \<Rightarrow> session \<Rightarrow> participant \<Rightarrow> bool" where
  "input_ok x s p \<longleftrightarrow> p_input_submitted p \<longrightarrow> (\<exists>v. p_input_json p = bx_dump x v \<and> check_input x s (bx_dump x v) = Inr ())"

definition output_ok :: "bext \<Rightarrow> session \<Rightarrow> string \<Rightarrow> bool" where
  "output_ok x s r \<longleftrightarrow> r \<noteq> [] \<and> (output_schema_of s \<noteq> [] \<longrightarrow> ValidateJsonSchema x r (output_schema_of s) = Inr ())"

definition content_ok :: "bext \<Rightarrow> session \<Rightarrow> bool" where
  "content_ok x s \<longleftrightarrow> list_all (input_ok x s \<circ> snd) (ss_participants s)
     \<and> (if ss_state s = CLOSED then output_ok x s (ss_result_json s) else ss_result_json s = [])"

definition session_ok :: "bext \<Rightarrow> session \<Rightarrow> bool" where
  "session_ok x s \<longleftrightarrow> shape_ok s \<and> bounds_ok s \<and> phase_ok s \<and> pinned s \<and> content_ok x s"

subsection \<open>What the updates change\<close>

lemma abort_session_sel [simp]:
  "ss_id (abort_session e d s) = ss_id s" "ss_state (abort_session e d s) = ABORTED"
  "ss_policy (abort_session e d s) = ss_policy s" "ss_policy_def (abort_session e d s) = ss_policy_def s"
  "ss_participants (abort_session e d s) = ss_participants s" "ss_result_json (abort_session e d s) = ss_result_json s"
  "ss_error_code (abort_session e d s) = e" "ss_error_detail (abort_session e d s) = d"
  "ss_entered_at (abort_session e d s) = ss_entered_at s" "ss_timeout (abort_session e d s) = ss_timeout s"
  "ss_invitation_token (abort_session e d s) = ss_invitation_token s"
  "ss_participant_tokens (abort_session e d s) = ss_participant_tokens s"
  "ss_nonce_to_token (abort_session e d s) = ss_nonce_to_token s" "ss_creator_nonce (abort_session e d s) = ss_creator_nonce s"
  by (simp_all add: abort_session_def)

lemma enter_sel [simp]:
  "ss_id (enter st t s) = ss_id s" "ss_state (enter st t s) = st"
  "ss_policy (enter st t s) = ss_policy s" "ss_policy_def (enter st t s) = ss_policy_def s"
  "ss_participants (enter st t s) = ss_participants s" "ss_result_json (enter st t s) = ss_result_json s"
  "ss_entered_at (enter st t s) = t" "ss_timeout (enter st t s) = ss_timeout s"
  "ss_invitation_token (enter st t s) = ss_invitation_token s"
  "ss_participant_tokens (enter st t s) = ss_participant_tokens s"
  "ss_nonce_to_token (enter st t s) = ss_nonce_to_token s" "ss_creator_nonce (enter st t s) = ss_creator_nonce s"
  by (simp_all add: enter_def)

lemma on_participant_sel [simp]:
  "ss_id (on_participant tok f s) = ss_id s" "ss_state (on_participant tok f s) = ss_state s"
  "ss_policy (on_participant tok f s) = ss_policy s" "ss_policy_def (on_participant tok f s) = ss_policy_def s"
  "ss_result_json (on_participant tok f s) = ss_result_json s" "ss_timeout (on_participant tok f s) = ss_timeout s"
  "ss_entered_at (on_participant tok f s) = ss_entered_at s"
  "ss_invitation_token (on_participant tok f s) = ss_invitation_token s"
  "ss_participant_tokens (on_participant tok f s) = ss_participant_tokens s"
  "ss_nonce_to_token (on_participant tok f s) = ss_nonce_to_token s" "ss_creator_nonce (on_participant tok f s) = ss_creator_nonce s"
  "map fst (ss_participants (on_participant tok f s)) = map fst (ss_participants s)"
  "joined (on_participant tok f s) = joined s"
  by (simp_all add: on_participant_def case_prod_unfold comp_def joined_def)

lemma add_participant_sel [simp]:
  "ss_id (add_participant tok n s) = ss_id s" "ss_state (add_participant tok n s) = ss_state s"
  "ss_policy (add_participant tok n s) = ss_policy s" "ss_policy_def (add_participant tok n s) = ss_policy_def s"
  "ss_result_json (add_participant tok n s) = ss_result_json s" "ss_timeout (add_participant tok n s) = ss_timeout s"
  "ss_entered_at (add_participant tok n s) = ss_entered_at s"
  "ss_invitation_token (add_participant tok n s) = ss_invitation_token s"
  "ss_participant_tokens (add_participant tok n s) = ss_participant_tokens s @ [tok]"
  "ss_creator_nonce (add_participant tok n s) = ss_creator_nonce s"
  by (simp_all add: add_participant_def)

lemma update_new: "k \<notin> fst ` set al \<Longrightarrow> AList.update k v al = al @ [(k, v)]"
  by (induction al) auto

lemma add_participant_participants:
  "tok \<notin> fst ` set (ss_participants s) \<Longrightarrow>
   ss_participants (add_participant tok n s) = ss_participants s @ [(tok, new_participant tok False (joined s))]"
  by (simp add: add_participant_def update_new)

text \<open>The checks of a session depend on the fields they name only.\<close>

lemma session_parts_cong:
  assumes "ss_participants s' = ss_participants s" "ss_policy s' = ss_policy s" "ss_policy_def s' = ss_policy_def s"
    "ss_participant_tokens s' = ss_participant_tokens s" "ss_timeout s' = ss_timeout s"
  shows "shape_ok s' = shape_ok s" "bounds_ok s' = bounds_ok s" "pinned s' = pinned s" "all_accepted s' = all_accepted s"
    "no_inputs s' = no_inputs s" "all_inputs s' = all_inputs s" "input_ok x s' p = input_ok x s p" "output_ok x s' r = output_ok x s r"
    "joined s' = joined s"
  using assms by (simp_all add: shape_ok_def bounds_ok_def pinned_def all_accepted_def no_inputs_def all_inputs_def input_ok_def
      output_ok_def joined_def check_input_def input_schema_of_def output_schema_of_def)

lemma input_ok_cong: "ss_policy s' = ss_policy s \<Longrightarrow> ss_policy_def s' = ss_policy_def s \<Longrightarrow> input_ok x s' = input_ok x s"
  by (simp add: fun_eq_iff input_ok_def check_input_def input_schema_of_def)

lemma input_ok_unsubmitted [simp]: "\<not> p_input_submitted p \<Longrightarrow> input_ok x s p"
  by (simp add: input_ok_def)

text \<open>Aborting and closing touch nothing but the state and its description.\<close>

lemma session_ok_terminal:
  assumes ok: "session_ok x s" and same: "ss_participants s' = ss_participants s" "ss_policy s' = ss_policy s"
      "ss_policy_def s' = ss_policy_def s" "ss_participant_tokens s' = ss_participant_tokens s" "ss_timeout s' = ss_timeout s"
    and st: "ss_state s' = ABORTED \<and> ss_state s \<noteq> CLOSED \<and> ss_result_json s' = ss_result_json s
      \<or> ss_state s' = CLOSED \<and> ss_state s = CALCULATING \<and> output_ok x s (ss_result_json s')"
  shows "session_ok x s'"
  using ok st unfolding session_ok_def content_ok_def phase_ok_def
  by (auto simp: session_parts_cong [OF same] input_ok_cong [OF same(2,3)] same list_all_iff)

lemma session_ok_join:
  assumes "session_ok x s" "ss_state s = OPEN" "joined s < ss_expected s" "tok \<notin> fst ` set (ss_participants s)"
  shows "session_ok x (add_participant tok nonce s)"
proof -
  let ?s = "add_participant tok nonce s"
  have ps: "ss_participants ?s = ss_participants s @ [(tok, new_participant tok False (joined s))]"
    by (rule add_participant_participants) (rule assms)
  have "shape_ok ?s" using assms ps by (auto simp: session_ok_def shape_ok_def Let_def new_participant_def joined_def)
  moreover have "bounds_ok ?s" using assms ps by (auto simp: session_ok_def bounds_ok_def joined_def)
  moreover have "phase_ok ?s"
    using assms ps by (auto simp: session_ok_def phase_ok_def all_accepted_def no_inputs_def new_participant_def)
  moreover have "pinned ?s" using assms by (simp add: session_ok_def pinned_def)
  moreover have "content_ok x ?s"
    using assms ps by (simp add: session_ok_def content_ok_def input_ok_cong [of ?s s] new_participant_def)
  ultimately show ?thesis by (simp add: session_ok_def)
qed

text \<open>Updates of one participant that keep its token and join index.\<close>

lemma on_participant_shape:
  assumes "shape_ok s" "\<And>p. p_token (f p) = p_token p" "\<And>p. p_join_index (f p) = p_join_index p"
  shows "shape_ok (on_participant tok f s)"
proof -
  let ?g = "\<lambda>(t, p). (t, if t = tok then f p else p)"
  have ps: "ss_participants (on_participant tok f s) = map ?g (ss_participants s)" by (simp add: on_participant_def)
  have "fst \<circ> ?g = fst" "p_join_index \<circ> snd \<circ> ?g = p_join_index \<circ> snd" "p_token (snd (?g y)) = p_token (snd y)" "fst (?g y) = fst y" for y
    using assms by (auto simp: fun_eq_iff case_prod_unfold)
  then show ?thesis using assms(1) by (simp add: shape_ok_def Let_def ps)
qed

lemma list_all_on_participant:
  "list_all (P \<circ> snd) (ss_participants (on_participant tok f s)) \<longleftrightarrow>
   list_all (\<lambda>(t, p). P (if t = tok then f p else p)) (ss_participants s)"
  by (simp add: on_participant_def list.pred_map comp_def case_prod_unfold)

definition accept_by :: "string \<Rightarrow> session \<Rightarrow> session" where
  "accept_by tok = on_participant tok (\<lambda>p. p\<lparr>p_accepted := True\<rparr>)"

lemma session_ok_accept:
  assumes ok: "session_ok x s" and st: "ss_state s = OPEN" and s1: "s1 = accept_by tok s"
  shows "session_ok x (if all_accepted s1 then enter SEALED t s1 else s1)"
proof -
  have sel: "ss_participants s1 \<noteq> []" "ss_state s1 = OPEN" "ss_result_json s1 = []" "ss_policy s1 = ss_policy s"
      "ss_policy_def s1 = ss_policy_def s"
    using ok st by (auto simp: session_ok_def shape_ok_def Let_def on_participant_def content_ok_def s1 accept_by_def)
  have basic: "shape_ok s1" "bounds_ok s1" "pinned s1"
    using ok by (simp_all add: session_ok_def bounds_ok_def pinned_def on_participant_shape s1 accept_by_def)
  have no: "no_inputs s1" using ok st
    unfolding no_inputs_def s1 accept_by_def list_all_on_participant
    by (auto simp: session_ok_def phase_ok_def no_inputs_def list_all_iff split: prod.splits)
  then have "list_all (input_ok x s1 \<circ> snd) (ss_participants s1)" "\<not> all_inputs s1"
    using hd_in_set [OF sel(1)] by (auto simp: no_inputs_def all_inputs_def list_all_iff) (metis surj_pair)
  then show ?thesis using sel basic no
    by (auto simp: session_ok_def phase_ok_def content_ok_def input_ok_cong [of "enter SEALED t s1" s1]
        session_parts_cong [of "enter SEALED t s1" s1])
qed

lemma session_ok_submit:
  assumes ok: "session_ok x s" and st: "ss_state s = SEALED"
    and chk: "check_input x s (bx_dump x v) = Inr ()" and s1: "s1 = store_input tok (bx_dump x v) s"
  shows "session_ok x (if all_inputs s1 then enter CALCULATING t s1 else s1)"
proof -
  have sel: "ss_state s1 = SEALED" "ss_result_json s1 = []" "ss_policy s1 = ss_policy s" "ss_policy_def s1 = ss_policy_def s"
    using ok st by (auto simp: session_ok_def content_ok_def s1 store_input_def)
  have basic: "shape_ok s1" "bounds_ok s1" "pinned s1"
    using ok by (simp_all add: session_ok_def bounds_ok_def pinned_def on_participant_shape s1 store_input_def)
  have acc: "all_accepted s1"
    using ok st unfolding all_accepted_def s1 store_input_def list_all_on_participant
    by (auto simp: session_ok_def phase_ok_def all_accepted_def list_all_iff split: prod.splits)
  have "list_all (input_ok x s1 \<circ> snd) (ss_participants s1)"
    using ok chk unfolding input_ok_cong [OF sel(3,4)] unfolding s1 store_input_def list_all_on_participant
    by (fastforce simp: session_ok_def content_ok_def list_all_iff input_ok_def)
  then show ?thesis using sel basic acc
    by (auto simp: session_ok_def phase_ok_def content_ok_def input_ok_cong [of "enter CALCULATING t s1" s1]
        session_parts_cong [of "enter CALCULATING t s1" s1])
qed

lemma filter_full: "length (filter P xs) = length xs \<longleftrightarrow> list_all P xs"
proof (induction xs)
  case (Cons y ys)
  then show ?case using length_filter_le [of P ys] by (auto simp del: length_filter_le)
qed simp

lemma submitted_count_full: "submitted_count s = joined s \<longleftrightarrow> all_inputs s"
  by (simp add: submitted_count_def joined_def all_inputs_def filter_full)

lemma session_ok_new:
  assumes "2 \<le> sp_participants policy" "sp_participants policy \<le> kMaxParticipants" "sp_timeout policy \<le> kMaxTimeoutSeconds"
  shows "session_ok x (new_session sid creator invitation policy def now nonce)"
  using assms
  by (auto simp: session_ok_def new_session_def new_participant_def shape_ok_def bounds_ok_def phase_ok_def pinned_def content_ok_def
      all_accepted_def no_inputs_def input_ok_def joined_def timeout_secs_def kDefaultTimeoutSeconds_def kMaxTimeoutSeconds_def)

section \<open>The manager\<close>

text \<open>A reverse index holds the keys of the sessions that exist, each with its session, and nothing else.\<close>

definition indexed :: "(session \<Rightarrow> string set) \<Rightarrow> (string \<rightharpoonup> string) \<Rightarrow> (string \<rightharpoonup> session) \<Rightarrow> bool" where
  "indexed keys index S \<longleftrightarrow> (\<forall>k sid. index k = Some sid \<longleftrightarrow> (\<exists>s. S sid = Some s \<and> k \<in> keys s))"

definition invitation_keys :: "session \<Rightarrow> string set" where
  "invitation_keys s = {ss_invitation_token s}"

definition token_keys :: "session \<Rightarrow> string set" where
  "token_keys s = fst ` set (ss_participants s)"

definition nonce_keys :: "session \<Rightarrow> string set" where
  "nonce_keys s = {n. n = ss_creator_nonce s \<and> n \<noteq> []}"

text \<open>A thread and its session, when that still exists.\<close>

definition job_ok :: "bext \<Rightarrow> (string \<rightharpoonup> session) \<Rightarrow> job \<Rightarrow> bool" where
  "job_ok x S j \<longleftrightarrow> (\<forall>s. S (job_sid j) = Some s \<longrightarrow> (case j of
      Leaving _ \<Rightarrow> ss_state s = CLOSED \<or> ss_state s = ABORTED
    | Inferring _ _ schema \<Rightarrow> (ss_state s = CALCULATING \<or> ss_state s = ABORTED) \<and> schema = output_schema_of s
    | Writing _ r \<Rightarrow> (ss_state s = CALCULATING \<or> ss_state s = ABORTED) \<and> (\<forall>t. r = Inr t \<longrightarrow> output_ok x s t)
    | _ \<Rightarrow> ss_state s = CALCULATING \<or> ss_state s = ABORTED))"

definition jobs_ok :: "bext \<Rightarrow> (string \<rightharpoonup> session) \<Rightarrow> job list \<Rightarrow> bool" where
  "jobs_ok x S jobs \<longleftrightarrow> distinct (map job_sid jobs) \<and> (\<forall>j\<in>set jobs. job_ok x S j)
     \<and> (\<forall>sid s. S sid = Some s \<and> ss_state s = CALCULATING \<longrightarrow> sid \<in> job_sid ` set jobs)"

definition sessions_ok :: "bext \<Rightarrow> (string \<rightharpoonup> session) \<Rightarrow> bool" where
  "sessions_ok x S \<longleftrightarrow> (\<forall>sid s. S sid = Some s \<longrightarrow> ss_id s = sid \<and> session_ok x s)"

definition manager_ok :: "bext \<Rightarrow> manager \<Rightarrow> bool" where
  "manager_ok x m \<longleftrightarrow> distinct (map fst (m_sessions m)) \<and> int (length (m_sessions m)) \<le> max_sessions (m_options m)
     \<and> sessions_ok x (map_of (m_sessions m))
     \<and> indexed invitation_keys (map_of (m_invitations m)) (map_of (m_sessions m))
     \<and> indexed token_keys (map_of (m_tokens m)) (map_of (m_sessions m))
     \<and> indexed nonce_keys (map_of (m_nonces m)) (map_of (m_sessions m))
     \<and> jobs_ok x (map_of (m_sessions m)) (m_jobs m) \<and> m_threads m = int (length (m_jobs m))"

subsection \<open>Indexes\<close>

lemma indexed_put: "indexed keys I S \<Longrightarrow> S sid = Some s \<Longrightarrow> keys s' = keys s \<Longrightarrow> indexed keys I (S(sid \<mapsto> s'))"
  by (auto simp: indexed_def)

lemma indexed_add:
  "indexed keys I S \<Longrightarrow> S sid = Some s \<Longrightarrow> keys s' = insert k (keys s) \<Longrightarrow> I k = None \<Longrightarrow> indexed keys (I(k \<mapsto> sid)) (S(sid \<mapsto> s'))"
  by (auto simp: indexed_def) (metis option.distinct(1))

lemma indexed_new:
  "indexed keys I S \<Longrightarrow> S sid = None \<Longrightarrow> keys s = {k} \<Longrightarrow> I k = None \<Longrightarrow> indexed keys (I(k \<mapsto> sid)) (S(sid \<mapsto> s))"
  by (auto simp: indexed_def) (metis option.distinct(1))

lemma indexed_new_empty: "indexed keys I S \<Longrightarrow> S sid = None \<Longrightarrow> keys s = {} \<Longrightarrow> indexed keys I (S(sid \<mapsto> s))"
  by (auto simp: indexed_def)

lemma indexed_erase:
  "indexed keys I S \<Longrightarrow> S sid = Some s \<Longrightarrow> (\<And>k. J k = (if k \<in> keys s then None else I k)) \<Longrightarrow> indexed keys J (S(sid := None))"
  unfolding indexed_def by (metis fun_upd_apply option.distinct(1) option.inject)

lemma indexedD: "indexed keys I S \<Longrightarrow> I k = Some sid \<Longrightarrow> \<exists>s. S sid = Some s \<and> k \<in> keys s"
  by (auto simp: indexed_def)

lemma indexedI: "indexed keys I S \<Longrightarrow> S sid = Some s \<Longrightarrow> k \<in> keys s \<Longrightarrow> I k = Some sid"
  by (auto simp: indexed_def)

subsection \<open>Threads\<close>

lemma job_ok_put:
  assumes "job_ok x S j" "S sid = Some s" "ss_policy s' = ss_policy s" "ss_policy_def s' = ss_policy_def s"
    and "ss_state s' = ss_state s \<or> ss_state s' = ABORTED \<or> ss_state s = OPEN \<or> ss_state s = SEALED"
  shows "job_ok x (S(sid \<mapsto> s')) j"
proof -
  have "output_schema_of s' = output_schema_of s" "output_ok x s' = output_ok x s"
    using assms(3,4) by (simp_all add: fun_eq_iff output_schema_of_def output_ok_def)
  then show ?thesis using assms(1,2,5) by (auto simp: job_ok_def split: job.splits)
qed

lemma jobs_ok_put:
  assumes "jobs_ok x S js" "S sid = Some s" "ss_policy s' = ss_policy s" "ss_policy_def s' = ss_policy_def s"
    and "ss_state s' = ss_state s \<or> ss_state s' = ABORTED \<or> ss_state s = OPEN \<and> ss_state s' = SEALED"
  shows "jobs_ok x (S(sid \<mapsto> s')) js"
  using assms job_ok_put [of x S _ sid s s'] by (auto simp: jobs_ok_def)

lemma job_ok_state:
  "job_ok x S j \<Longrightarrow> S (job_sid j) = Some s \<Longrightarrow> ss_state s = CALCULATING \<or> ss_state s = CLOSED \<or> ss_state s = ABORTED"
  by (cases j) (auto simp: job_ok_def)

lemma jobs_ok_idle:
  assumes "jobs_ok x S js" "S sid = Some s" "ss_state s = OPEN \<or> ss_state s = SEALED"
  shows "sid \<notin> job_sid ` set js"
proof
  assume "sid \<in> job_sid ` set js"
  then obtain j where "j \<in> set js" "sid = job_sid j" by blast
  then show False using assms job_ok_state [of x S j s] by (auto simp: jobs_ok_def)
qed

lemma jobs_ok_dispatch:
  assumes "jobs_ok x S js" "S sid = Some s" "ss_state s = SEALED" "ss_state s' = CALCULATING"
    "ss_policy s' = ss_policy s" "ss_policy_def s' = ss_policy_def s"
  shows "jobs_ok x (S(sid \<mapsto> s')) (js @ [Spawning sid])"
proof -
  have "job_ok x (S(sid \<mapsto> s')) j" if "j \<in> set js" for j
    using that assms by (intro job_ok_put) (auto simp: jobs_ok_def)
  moreover have "job_ok x (S(sid \<mapsto> s')) (Spawning sid)" using assms(4) by (simp add: job_ok_def)
  ultimately show ?thesis using assms(1) jobs_ok_idle [OF assms(1,2)] assms(3) by (auto simp: jobs_ok_def)
qed

text \<open>A thread goes on (to \<open>j'\<close>), or ends; its session may change with it.\<close>

lemma distinct_replace:
  "distinct (map job_sid js) \<Longrightarrow> j \<in> set js \<Longrightarrow> job_sid j' = job_sid j \<Longrightarrow> distinct (map job_sid (remove1 j js @ [j']))"
  by (auto simp: distinct_map inj_on_def distinct_remove1)

lemma remove1_sids:
  assumes "distinct (map job_sid js)" "j \<in> set js"
  shows "set (remove1 j js) = {i \<in> set js. job_sid i \<noteq> job_sid j}"
  using assms by (auto simp: distinct_map inj_on_def)

lemma jobs_ok_advance:
  assumes ok: "jobs_ok x S js" and j: "j \<in> set js" "job_sid j' = job_sid j"
    and j': "job_ok x S' j'" and S': "\<And>sid. sid \<noteq> job_sid j \<Longrightarrow> S' sid = S sid"
  shows "jobs_ok x S' (remove1 j js @ [j'])"
proof -
  have d: "distinct (map job_sid js)" using ok by (simp add: jobs_ok_def)
  have "job_ok x S' i" if "i \<in> set (remove1 j js)" for i
    using that ok S' by (auto simp: remove1_sids [OF d j(1)] jobs_ok_def job_ok_def)
  moreover have "sid \<in> job_sid ` set (remove1 j js @ [j'])" if "S' sid = Some s" "ss_state s = CALCULATING" for sid s
    using that ok S' j(2) by (cases "sid = job_sid j") (auto simp: remove1_sids [OF d j(1)] jobs_ok_def)
  ultimately show ?thesis using distinct_replace [OF d j] j' by (auto simp: jobs_ok_def)
qed

lemma jobs_ok_end:
  assumes ok: "jobs_ok x S js" and j: "j \<in> set js" and S': "\<And>sid. sid \<noteq> job_sid j \<Longrightarrow> S' sid = S sid"
    and ended: "\<And>s. S' (job_sid j) = Some s \<Longrightarrow> ss_state s \<noteq> CALCULATING"
  shows "jobs_ok x S' (remove1 j js)"
proof -
  have d: "distinct (map job_sid js)" using ok by (simp add: jobs_ok_def)
  have "job_ok x S' i" if "i \<in> set (remove1 j js)" for i
    using that ok S' by (auto simp: remove1_sids [OF d j] jobs_ok_def job_ok_def)
  moreover have "sid \<in> job_sid ` set (remove1 j js)" if "S' sid = Some s" "ss_state s = CALCULATING" for sid s
    using that ok S' ended by (cases "sid = job_sid j") (auto simp: remove1_sids [OF d j] jobs_ok_def)
  moreover have "distinct (map job_sid (remove1 j js))"
    using d by (auto simp: distinct_map inj_on_def distinct_remove1 dest: notin_set_remove1)
  ultimately show ?thesis by (auto simp: jobs_ok_def)
qed

lemma jobs_ok_erase: "jobs_ok x S js \<Longrightarrow> jobs_ok x (S(sid := None)) js"
  by (auto simp: jobs_ok_def job_ok_def)

lemma jobs_ok_new: "jobs_ok x S js \<Longrightarrow> sid \<notin> job_sid ` set js \<Longrightarrow> ss_state s \<noteq> CALCULATING \<Longrightarrow> jobs_ok x (S(sid \<mapsto> s)) js"
  by (auto simp: jobs_ok_def job_ok_def)

end
