(* ===== verification/BrokerSteps.thy ===== *)
theory BrokerSteps
  imports BrokerInvariant
begin

text \<open>
  The atomic transitions of the broker.  \<open>mstep\<close> lists the changes a manager can undergo, each with the
  condition under which the code makes it; every handler and every section of a background thread is a sequence of such
  transitions (\<open>broker_step_msteps\<close>), and each of them keeps the manager well formed (\<open>mstep_ok\<close>).
\<close>

section \<open>Transitions\<close>

inductive session_change :: "bext \<Rightarrow> broker_options \<Rightarrow> session \<Rightarrow> session \<Rightarrow> bool" for x opts where
  TimedOut: "\<lbrakk>ss_state s \<noteq> CLOSED; ss_state s \<noteq> ABORTED; effective_timeout opts s < now - ss_entered_at s\<rbrakk> \<Longrightarrow>
    session_change x opts s ((abort_session (timeout_error (ss_state s)) (timeout_detail x (now - ss_entered_at s) s) s)\<lparr>ss_entered_at := t\<rparr>)"
| Accepted: "\<lbrakk>ss_state s = OPEN; map_of (ss_participants s) tok = Some p; \<not> p_accepted p; s1 = accept_by tok s\<rbrakk> \<Longrightarrow>
    session_change x opts s (if all_accepted s1 then enter SEALED t s1 else s1)"
| Submitted: "\<lbrakk>ss_state s = SEALED; map_of (ss_participants s) tok = Some p; \<not> p_input_submitted p;
      check_input x s (bx_dump x v) = Inr (); s1 = store_input tok (bx_dump x v) s; \<not> all_inputs s1\<rbrakk> \<Longrightarrow>
    session_change x opts s s1"

text \<open>The set \<open>U\<close> holds the identifiers that are not given to new sessions.\<close>

inductive mstep :: "bext \<Rightarrow> string set \<Rightarrow> manager \<Rightarrow> manager \<Rightarrow> bool" for x U where
  Quiet: "mstep x U m (m\<lparr>m_tick := t, m_draws := d\<rparr>)"
| Change: "\<lbrakk>map_of (m_sessions m) (ss_id s) = Some s; session_change x (m_options m) s s'\<rbrakk> \<Longrightarrow> mstep x U m (put_session s' m)"
| Enrol: "\<lbrakk>map_of (m_sessions m) (ss_id s) = Some s; ss_state s = OPEN; joined s < ss_expected s; tok \<notin> in_use m;
      nonce = [] \<or> map_of (ss_nonce_to_token s) nonce = None\<rbrakk> \<Longrightarrow>
    mstep x U m ((put_session (add_participant tok nonce s) m)\<lparr>m_tokens := AList.update tok (ss_id s) (m_tokens m)\<rparr>)"
| Complete: "\<lbrakk>map_of (m_sessions m) (ss_id s) = Some s; ss_state s = SEALED; map_of (ss_participants s) tok = Some p;
      \<not> p_input_submitted p; check_input x s (bx_dump x v) = Inr ();
      s1 = store_input tok (bx_dump x v) s; all_inputs s1\<rbrakk> \<Longrightarrow>
    mstep x U m (dispatch (ss_id s) (put_session (enter CALCULATING t s1) m))"
| Remove: "\<lbrakk>map_of (m_sessions m) (ss_id s) = Some s; should_erase (m_options m) now s\<rbrakk> \<Longrightarrow> mstep x U m (erase_session s m)"
| Admit: "\<lbrakk>int (length (m_sessions m)) < max_sessions (m_options m); map_of (m_policies m) (sp_class policy) = Some def;
      2 \<le> sp_participants policy; sp_participants policy \<le> kMaxParticipants; sp_timeout policy \<le> kMaxTimeoutSeconds;
      sid \<notin> U; sid \<notin> in_use m; creator \<notin> in_use m; invitation \<notin> in_use m; nonce = [] \<or> map_of (m_nonces m) nonce = None\<rbrakk> \<Longrightarrow>
    mstep x U m (insert_session creator (new_session sid creator invitation policy def now nonce) m)"
| Launched: "Spawning sid \<in> set (m_jobs m) \<Longrightarrow> mstep x U m (replace_job (Spawning sid) [Started sid] m)"
| LaunchFailed: "\<lbrakk>Spawning sid \<in> set (m_jobs m); map_of (m_sessions m) sid = Some s\<rbrakk> \<Longrightarrow>
    mstep x U m (put_session (abort_session SESSION_ERROR_UNSPECIFIED detail s)
      (replace_job (Spawning sid) [] (m_threads_update (\<lambda>n. n - 1) m)))"
| LaunchFailedGone: "\<lbrakk>Spawning sid \<in> set (m_jobs m); map_of (m_sessions m) sid = None\<rbrakk> \<Longrightarrow>
    mstep x U m (replace_job (Spawning sid) [] (m_threads_update (\<lambda>n. n - 1) m))"
| Prompted: "\<lbrakk>Started sid \<in> set (m_jobs m); map_of (m_sessions m) sid = Some s; ss_state s = CALCULATING\<rbrakk> \<Longrightarrow>
    mstep x U m (replace_job (Started sid) [Inferring sid (aggregated_prompt x delim s) (output_schema_of s)] m)"
| Inferred: "\<lbrakk>Inferring sid prompt schema \<in> set (m_jobs m);
      run_llm x (if m_engine m then Some generate else None) prompt schema = Inr result\<rbrakk> \<Longrightarrow>
    mstep x U m (replace_job (Inferring sid prompt schema) [Writing sid result] m)"
| Stored: "\<lbrakk>Writing sid (Inr r) \<in> set (m_jobs m); map_of (m_sessions m) sid = Some s; ss_state s = CALCULATING\<rbrakk> \<Longrightarrow>
    mstep x U m (put_session ((enter CLOSED t s)\<lparr>ss_result_json := r\<rparr>) (replace_job (Writing sid (Inr r)) [Leaving sid] m))"
| Failed: "\<lbrakk>Writing sid (Inl e) \<in> set (m_jobs m); map_of (m_sessions m) sid = Some s; ss_state s = CALCULATING\<rbrakk> \<Longrightarrow>
    mstep x U m (put_session ((abort_session LLM_GENERATION_FAILED (exn_str e) s)\<lparr>ss_entered_at := t\<rparr>)
      (replace_job (Writing sid (Inl e)) [Leaving sid] m))"
| Overtaken: "\<lbrakk>j \<in> set (m_jobs m); j = Started sid \<or> (\<exists>r. j = Writing sid r);
      \<And>s. map_of (m_sessions m) sid = Some s \<Longrightarrow> ss_state s \<noteq> CALCULATING\<rbrakk> \<Longrightarrow> mstep x U m (replace_job j [Leaving sid] m)"
| Left: "Leaving sid \<in> set (m_jobs m) \<Longrightarrow> mstep x U m (ThreadGuard_release sid m)"

section \<open>Selectors of the updated manager\<close>

lemma put_session_sel [simp]:
  "map_of (m_sessions (put_session s m)) = (map_of (m_sessions m))(ss_id s \<mapsto> s)"
  "m_options (put_session s m) = m_options m" "m_policies (put_session s m) = m_policies m"
  "m_invitations (put_session s m) = m_invitations m" "m_tokens (put_session s m) = m_tokens m"
  "m_nonces (put_session s m) = m_nonces m" "m_threads (put_session s m) = m_threads m" "m_jobs (put_session s m) = m_jobs m"
  "m_engine (put_session s m) = m_engine m"
  by (simp_all add: put_session_def update_conv')

lemma put_session_keys:
  "distinct (map fst (m_sessions m)) \<Longrightarrow> distinct (map fst (m_sessions (put_session s m)))"
  "map_of (m_sessions m) (ss_id s) \<noteq> None \<Longrightarrow> map fst (m_sessions (put_session s m)) = map fst (m_sessions m)"
  "length (m_sessions (put_session s m)) \<le> Suc (length (m_sessions m))"
proof -
  have keys: "map fst (m_sessions (put_session s m)) = (if ss_id s \<in> fst ` set (m_sessions m) then map fst (m_sessions m)
      else map fst (m_sessions m) @ [ss_id s])" by (simp add: put_session_def update_keys)
  then show "distinct (map fst (m_sessions m)) \<Longrightarrow> distinct (map fst (m_sessions (put_session s m)))" by auto
  show "map_of (m_sessions m) (ss_id s) \<noteq> None \<Longrightarrow> map fst (m_sessions (put_session s m)) = map fst (m_sessions m)"
    using keys by (auto simp: map_of_eq_None_iff)
  show "length (m_sessions (put_session s m)) \<le> Suc (length (m_sessions m))"
    using arg_cong [OF keys, of length] by (simp split: if_splits)
qed

lemma put_session_length:
  "map_of (m_sessions m) (ss_id s) \<noteq> None \<Longrightarrow> length (m_sessions (put_session s m)) = length (m_sessions m)"
  using put_session_keys(2) [of m s] by (metis length_map)

lemma replace_job_sel [simp]:
  "m_sessions (replace_job j js m) = m_sessions m" "m_options (replace_job j js m) = m_options m"
  "m_policies (replace_job j js m) = m_policies m" "m_invitations (replace_job j js m) = m_invitations m"
  "m_tokens (replace_job j js m) = m_tokens m" "m_nonces (replace_job j js m) = m_nonces m"
  "m_threads (replace_job j js m) = m_threads m" "m_jobs (replace_job j js m) = remove1 j (m_jobs m) @ js"
  "m_engine (replace_job j js m) = m_engine m"
  by (simp_all add: replace_job_def)

lemma map_of_fold_delete: "map_of (fold AList.delete ks al) k = (if k \<in> set ks then None else map_of al k)"
  by (induction ks arbitrary: al) (auto simp: delete_conv')

lemma erase_session_sel [simp]:
  "map_of (m_sessions (erase_session s m)) = (map_of (m_sessions m))(ss_id s := None)"
  "m_options (erase_session s m) = m_options m" "m_policies (erase_session s m) = m_policies m"
  "m_jobs (erase_session s m) = m_jobs m" "m_threads (erase_session s m) = m_threads m" "m_engine (erase_session s m) = m_engine m"
  "map_of (m_invitations (erase_session s m)) k = (if k \<in> invitation_keys s then None else map_of (m_invitations m) k)"
  "map_of (m_tokens (erase_session s m)) k = (if k \<in> set (ss_participant_tokens s) then None else map_of (m_tokens m) k)"
  "map_of (m_nonces (erase_session s m)) k = (if k \<in> nonce_keys s then None else map_of (m_nonces m) k)"
  by (simp_all add: erase_session_def delete_conv' map_of_fold_delete invitation_keys_def nonce_keys_def)

lemma erase_session_keys:
  "distinct (map fst (m_sessions m)) \<Longrightarrow> distinct (map fst (m_sessions (erase_session s m)))"
  "length (m_sessions (erase_session s m)) \<le> length (m_sessions m)"
  by (simp_all add: erase_session_def distinct_delete length_delete_le)

lemma insert_session_sel [simp]:
  "m_sessions (insert_session c s m) = m_sessions (put_session s m)"
  "m_options (insert_session c s m) = m_options m" "m_policies (insert_session c s m) = m_policies m"
  "m_jobs (insert_session c s m) = m_jobs m" "m_threads (insert_session c s m) = m_threads m" "m_engine (insert_session c s m) = m_engine m"
  "map_of (m_invitations (insert_session c s m)) = (map_of (m_invitations m))(ss_invitation_token s \<mapsto> ss_id s)"
  "map_of (m_tokens (insert_session c s m)) = (map_of (m_tokens m))(c \<mapsto> ss_id s)"
  "map_of (m_nonces (insert_session c s m)) =
     (if ss_creator_nonce s = [] then map_of (m_nonces m) else (map_of (m_nonces m))(ss_creator_nonce s \<mapsto> ss_id s))"
  by (simp_all add: insert_session_def update_conv')

lemma dispatch_sel [simp]:
  "m_sessions (dispatch sid m) = m_sessions m" "m_options (dispatch sid m) = m_options m" "m_policies (dispatch sid m) = m_policies m"
  "m_invitations (dispatch sid m) = m_invitations m" "m_tokens (dispatch sid m) = m_tokens m" "m_nonces (dispatch sid m) = m_nonces m"
  "m_threads (dispatch sid m) = m_threads m + 1" "m_jobs (dispatch sid m) = m_jobs m @ [Spawning sid]" "m_engine (dispatch sid m) = m_engine m"
  by (simp_all add: dispatch_def)

lemma not_in_use:
  "k \<notin> in_use m \<Longrightarrow> map_of (m_sessions m) k = None \<and> map_of (m_invitations m) k = None \<and> map_of (m_tokens m) k = None
     \<and> k \<notin> job_sid ` set (m_jobs m)"
  by (simp add: in_use_def map_of_eq_None_iff)

section \<open>Preservation\<close>

lemma token_keys_on_participant [simp]: "token_keys (on_participant tok f s) = token_keys s"
  by (simp add: token_keys_def on_participant_def image_image case_prod_unfold)

lemma token_keys_other [simp]:
  "token_keys (enter st t s) = token_keys s" "token_keys (abort_session e d s) = token_keys s"
  "token_keys (s\<lparr>ss_entered_at := t\<rparr>) = token_keys s" "token_keys (s\<lparr>ss_result_json := r\<rparr>) = token_keys s"
  by (simp_all add: token_keys_def)

definition same_frame :: "session \<Rightarrow> session \<Rightarrow> bool" where
  "same_frame s s' \<longleftrightarrow> ss_id s' = ss_id s \<and> ss_policy s' = ss_policy s \<and> ss_policy_def s' = ss_policy_def s
     \<and> ss_invitation_token s' = ss_invitation_token s \<and> token_keys s' = token_keys s \<and> ss_creator_nonce s' = ss_creator_nonce s
     \<and> ss_nonce_to_token s' = ss_nonce_to_token s \<and> ss_participant_tokens s' = ss_participant_tokens s \<and> ss_timeout s' = ss_timeout s"

lemma session_change_frame: "session_change x opts s s' \<Longrightarrow> same_frame s s'"
  by (induction rule: session_change.induct) (simp_all add: same_frame_def accept_by_def store_input_def)

lemma session_change_state:
  "session_change x opts s s' \<Longrightarrow> ss_state s' = ss_state s \<or> ss_state s' = ABORTED \<or> ss_state s = OPEN \<and> ss_state s' = SEALED"
  by (induction rule: session_change.induct) (simp_all add: accept_by_def store_input_def)

lemma manager_ok_parts:
  assumes "manager_ok x m"
  shows "distinct (map fst (m_sessions m))" "int (length (m_sessions m)) \<le> max_sessions (m_options m)" "sessions_ok x (map_of (m_sessions m))"
    "indexed invitation_keys (map_of (m_invitations m)) (map_of (m_sessions m))"
    "indexed token_keys (map_of (m_tokens m)) (map_of (m_sessions m))"
    "indexed nonce_keys (map_of (m_nonces m)) (map_of (m_sessions m))"
    "jobs_ok x (map_of (m_sessions m)) (m_jobs m)" "m_threads m = int (length (m_jobs m))"
  using assms unfolding manager_ok_def by blast+

lemma sessions_ok_put: "sessions_ok x S \<Longrightarrow> session_ok x s' \<Longrightarrow> ss_id s' = sid \<Longrightarrow> sessions_ok x (S(sid \<mapsto> s'))"
  unfolding sessions_ok_def by (metis fun_upd_apply option.inject)

text \<open>Replacing a session by a well-formed one with the same identity and keys.\<close>

lemma manager_ok_put:
  assumes ok: "manager_ok x m" and s: "map_of (m_sessions m) (ss_id s) = Some s" "session_ok x s'" and fr: "same_frame s s'"
    and jobs: "jobs_ok x ((map_of (m_sessions m))(ss_id s \<mapsto> s')) (m_jobs m')" "m_threads m' = int (length (m_jobs m'))"
    and m': "m_sessions m' = m_sessions (put_session s' m)" "m_options m' = m_options m" "m_invitations m' = m_invitations m"
      "m_tokens m' = m_tokens m" "m_nonces m' = m_nonces m"
  shows "manager_ok x m'"
proof -
  let ?S = "map_of (m_sessions m)"
  have id: "ss_id s' = ss_id s" and keys: "invitation_keys s' = invitation_keys s" "token_keys s' = token_keys s" "nonce_keys s' = nonce_keys s"
    using fr by (simp_all add: same_frame_def invitation_keys_def nonce_keys_def)
  have len: "length (m_sessions (put_session s' m)) = length (m_sessions m)" using put_session_length [of m s'] s(1) id by simp
  note m = manager_ok_parts [OF ok]
  have "sessions_ok x (?S(ss_id s \<mapsto> s'))" using m(3) s(2) id by (rule sessions_ok_put)
  moreover note indexed_put [OF m(4) s(1) keys(1)] indexed_put [OF m(5) s(1) keys(2)] indexed_put [OF m(6) s(1) keys(3)]
  ultimately show ?thesis unfolding manager_ok_def using m(2) jobs put_session_keys(1) [OF m(1), of s']
    by (simp only: m' put_session_sel id len simp_thms)
qed

lemma session_change_ok: "session_change x opts s s' \<Longrightarrow> session_ok x s \<Longrightarrow> session_ok x s'"
proof (induction rule: session_change.induct)
  case (TimedOut s now t)
  show ?case by (rule session_ok_terminal [OF TimedOut(4)]) (use TimedOut in simp_all)
next
  case (Accepted s tok p s1 t)
  then show ?case using session_ok_accept [of x s s1 tok t] by simp
next
  case (Submitted s tok p v s1)
  then show ?case using session_ok_submit [of x s v s1 tok] by simp
qed

lemma manager_okD:
  assumes "manager_ok x m" "map_of (m_sessions m) sid = Some s"
  shows "ss_id s = sid" "session_ok x s"
  using assms by (auto simp: manager_ok_def sessions_ok_def)

lemma manager_ok_jobsD: "manager_ok x m \<Longrightarrow> jobs_ok x (map_of (m_sessions m)) (m_jobs m)"
  by (simp add: manager_ok_def)

lemma mstep_ok_sessions:
  assumes ok: "manager_ok x m" and s: "map_of (m_sessions m) (ss_id s) = Some s" and ch: "session_change x (m_options m) s s'"
  shows "manager_ok x (put_session s' m)"
proof (rule manager_ok_put [OF ok s session_change_ok [OF ch manager_okD(2) [OF ok s]] session_change_frame [OF ch]])
  have "ss_policy s' = ss_policy s" "ss_policy_def s' = ss_policy_def s"
    using session_change_frame [OF ch] by (simp_all add: same_frame_def)
  then show "jobs_ok x ((map_of (m_sessions m))(ss_id s \<mapsto> s')) (m_jobs (put_session s' m))"
    using jobs_ok_put [OF manager_ok_jobsD [OF ok] s] session_change_state [OF ch] by simp
qed (use ok in \<open>simp_all add: manager_ok_def\<close>)

lemma mstep_ok_complete:
  assumes ok: "manager_ok x m" and s: "map_of (m_sessions m) (ss_id s) = Some s" "ss_state s = SEALED"
    and chk: "check_input x s (bx_dump x v) = Inr ()" "s1 = store_input tok (bx_dump x v) s" "all_inputs s1"
  shows "manager_ok x (dispatch (ss_id s) (put_session (enter CALCULATING t s1) m))"
proof (rule manager_ok_put [OF ok s(1)])
  show "session_ok x (enter CALCULATING t s1)"
    using session_ok_submit [OF manager_okD(2) [OF ok s(1)] s(2) chk(1,2), of t] chk(3) by simp
  show "same_frame s (enter CALCULATING t s1)" by (simp add: same_frame_def chk(2) store_input_def)
  show "jobs_ok x ((map_of (m_sessions m))(ss_id s \<mapsto> enter CALCULATING t s1)) (m_jobs (dispatch (ss_id s) (put_session (enter CALCULATING t s1) m)))"
    using jobs_ok_dispatch [OF manager_ok_jobsD [OF ok] s] by (simp add: chk(2) store_input_def)
qed (use ok in \<open>simp_all add: manager_ok_def\<close>)

lemma mstep_ok_enrol:
  assumes ok: "manager_ok x m" and s: "map_of (m_sessions m) (ss_id s) = Some s" "ss_state s = OPEN" "joined s < ss_expected s"
    and tok: "tok \<notin> in_use m"
  shows "manager_ok x ((put_session (add_participant tok nonce s) m)\<lparr>m_tokens := AList.update tok (ss_id s) (m_tokens m)\<rparr>)"
proof -
  let ?s = "add_participant tok nonce s" let ?S = "map_of (m_sessions m)" let ?m = "put_session ?s m"
  note m = manager_ok_parts [OF ok]
  have none: "map_of (m_tokens m) tok = None" using not_in_use [OF tok] by blast
  then have new: "tok \<notin> fst ` set (ss_participants s)" using indexedI [OF m(5) s(1), of tok] by (auto simp: token_keys_def)
  have "session_ok x ?s" by (rule session_ok_join [OF manager_okD(2) [OF ok s(1)] s(2,3) new])
  moreover have "token_keys ?s = insert tok (token_keys s)"
    by (simp add: token_keys_def add_participant_participants [OF new])
  moreover have "invitation_keys ?s = invitation_keys s" "nonce_keys ?s = nonce_keys s" by (simp_all add: invitation_keys_def nonce_keys_def)
  moreover have "jobs_ok x (?S(ss_id s \<mapsto> ?s)) (m_jobs m)" using jobs_ok_put [OF m(7) s(1), of ?s] by simp
  moreover have "length (m_sessions ?m) = length (m_sessions m)" using put_session_length [of m ?s] s(1) by simp
  ultimately show ?thesis
    using m put_session_keys(1) [OF m(1), of ?s] sessions_ok_put [OF m(3), of ?s "ss_id s"] indexed_put [OF m(4) s(1), of ?s]
      indexed_add [OF m(5) s(1), of ?s tok] indexed_put [OF m(6) s(1), of ?s] none
    by (simp add: manager_ok_def update_conv')
qed

lemma mstep_ok_remove:
  assumes ok: "manager_ok x m" and s: "map_of (m_sessions m) (ss_id s) = Some s"
  shows "manager_ok x (erase_session s m)"
proof -
  let ?S = "map_of (m_sessions m)"
  have toks: "set (ss_participant_tokens s) = token_keys s"
    using manager_okD(2) [OF ok s] by (simp add: session_ok_def shape_ok_def Let_def token_keys_def)
  note m = manager_ok_parts [OF ok]
  have "sessions_ok x (?S(ss_id s := None))" using m(3) unfolding sessions_ok_def by (metis fun_upd_apply option.distinct(1))
  moreover have "int (length (m_sessions (erase_session s m))) \<le> max_sessions (m_options m)"
    using m(2) erase_session_keys(2) [of s m] by linarith
  ultimately show ?thesis
    using m(8) erase_session_keys(1) [OF m(1), of s] jobs_ok_erase [OF m(7), of "ss_id s"]
      indexed_erase [OF m(4) s, of "map_of (m_invitations (erase_session s m))"]
      indexed_erase [OF m(5) s, of "map_of (m_tokens (erase_session s m))"]
      indexed_erase [OF m(6) s, of "map_of (m_nonces (erase_session s m))"] toks
    by (simp add: manager_ok_def)
qed

lemma new_session_sel [simp]:
  "ss_id (new_session sid c i p d t n) = sid" "ss_state (new_session sid c i p d t n) = OPEN"
  "ss_invitation_token (new_session sid c i p d t n) = i" "ss_creator_nonce (new_session sid c i p d t n) = n"
  "token_keys (new_session sid c i p d t n) = {c}" "ss_policy_def (new_session sid c i p d t n) = d"
  by (simp_all add: new_session_def token_keys_def)

lemma mstep_ok_admit:
  assumes ok: "manager_ok x m" and room: "int (length (m_sessions m)) < max_sessions (m_options m)"
    and pol: "2 \<le> sp_participants policy" "sp_participants policy \<le> kMaxParticipants" "sp_timeout policy \<le> kMaxTimeoutSeconds"
    and fresh: "sid \<notin> in_use m" "creator \<notin> in_use m" "invitation \<notin> in_use m" "nonce = [] \<or> map_of (m_nonces m) nonce = None"
  shows "manager_ok x (insert_session creator (new_session sid creator invitation policy def now nonce) m)"
proof -
  let ?s = "new_session sid creator invitation policy def now nonce" let ?S = "map_of (m_sessions m)"
  note none = not_in_use [OF fresh(1)] not_in_use [OF fresh(2)] not_in_use [OF fresh(3)]
  have len: "int (length (m_sessions (put_session ?s m))) \<le> max_sessions (m_options m)"
    using room put_session_keys(3) [of ?s m] by linarith
  note m = manager_ok_parts [OF ok]
  have "indexed invitation_keys ((map_of (m_invitations m))(invitation \<mapsto> sid)) (?S(sid \<mapsto> ?s))"
    using none by (intro indexed_new [OF m(4)]) (simp_all add: invitation_keys_def)
  moreover have "indexed token_keys ((map_of (m_tokens m))(creator \<mapsto> sid)) (?S(sid \<mapsto> ?s))"
    using none by (intro indexed_new [OF m(5)]) simp_all
  moreover have "indexed nonce_keys (if nonce = [] then map_of (m_nonces m) else (map_of (m_nonces m))(nonce \<mapsto> sid)) (?S(sid \<mapsto> ?s))"
    using none fresh(4) indexed_new [OF m(6), of sid ?s nonce] indexed_new_empty [OF m(6), of sid ?s] by (auto simp: nonce_keys_def)
  ultimately show ?thesis
    using m(8) len put_session_keys(1) [OF m(1), of ?s] sessions_ok_put [OF m(3) session_ok_new [OF pol], of sid creator invitation def now nonce sid]
      jobs_ok_new [OF m(7), of sid ?s] none
    by (cases "nonce = []") (simp_all add: manager_ok_def)
qed

subsection \<open>Threads\<close>

lemma llm_attempts_ok:
  "llm_attempts x e prompt schema i n = Inr (r, None) \<Longrightarrow> r = [] \<or> schema = [] \<or> ValidateJsonSchema x r schema = Inr ()"
proof (induction n arbitrary: i)
  case (Suc n)
  then show ?case
    by (cases e) (auto simp: Let_def split: sum.splits if_splits exn.splits exn_kind.splits)
qed simp

lemma run_llm_ok:
  assumes "run_llm x e prompt schema = Inr (Inr r)"
  shows "r \<noteq> []" "schema = [] \<or> ValidateJsonSchema x r schema = Inr ()"
  using assms llm_attempts_ok [of x e prompt schema 0 kMaxLlmRetries r]
  by (auto simp: run_llm_def split: option.splits if_splits)

lemma manager_ok_jobs:
  assumes "manager_ok x m" "m_sessions m' = m_sessions m" "m_options m' = m_options m" "m_invitations m' = m_invitations m"
    "m_tokens m' = m_tokens m" "m_nonces m' = m_nonces m" "jobs_ok x (map_of (m_sessions m)) (m_jobs m')"
    "m_threads m' = int (length (m_jobs m'))"
  shows "manager_ok x m'"
  using assms by (simp add: manager_ok_def)

lemma length_replace: "j \<in> set js \<Longrightarrow> length (remove1 j js @ [j']) = length js"
  using length_pos_if_in_set [of j js] by (simp add: length_remove1 of_nat_diff)

lemma length_end: "j \<in> set js \<Longrightarrow> int (length (remove1 j js)) = int (length js) - 1"
  using length_replace [of j js j] by simp

lemma mstep_ok_advance:
  assumes ok: "manager_ok x m" and j: "j \<in> set (m_jobs m)" "job_sid j' = job_sid j" "job_ok x (map_of (m_sessions m)) j'"
  shows "manager_ok x (replace_job j [j'] m)"
  using jobs_ok_advance [OF manager_ok_jobsD [OF ok] j refl] ok length_replace [OF j(1), of j']
  by (intro manager_ok_jobs [OF ok]) (simp_all add: manager_ok_def)

lemma mstep_ok_end:
  assumes ok: "manager_ok x m" and j: "j \<in> set (m_jobs m)"
    and ended: "\<And>s. map_of (m_sessions m) (job_sid j) = Some s \<Longrightarrow> ss_state s \<noteq> CALCULATING"
  shows "manager_ok x (replace_job j [] (m_threads_update (\<lambda>n. n - 1) m))"
  using jobs_ok_end [OF manager_ok_jobsD [OF ok] j refl ended] ok length_end [OF j]
  by (intro manager_ok_jobs [OF ok]) (simp_all add: manager_ok_def)

text \<open>A thread that ends or is about to leave together with a change of its session to a terminal state.\<close>

lemma mstep_ok_settle:
  assumes ok: "manager_ok x m" and j: "j \<in> set (m_jobs m)" and s: "map_of (m_sessions m) (job_sid j) = Some s"
    and s': "session_ok x s'" "same_frame s s'" "ss_state s' = CLOSED \<or> ss_state s' = ABORTED"
  shows "manager_ok x (put_session s' (replace_job j [Leaving (job_sid j)] m))"
    and "manager_ok x (put_session s' (replace_job j [] (m_threads_update (\<lambda>n. n - 1) m)))"
proof -
  note jobs = manager_ok_jobsD [OF ok]
  have sid: "ss_id s = job_sid j" using manager_okD(1) [OF ok s] .
  let ?S = "(map_of (m_sessions m))(job_sid j \<mapsto> s')"
  have "jobs_ok x ?S (remove1 j (m_jobs m) @ [Leaving (job_sid j)])"
    using s'(3) by (intro jobs_ok_advance [OF jobs j]) (auto simp: job_ok_def)
  then show "manager_ok x (put_session s' (replace_job j [Leaving (job_sid j)] m))"
    using ok length_replace [OF j, of "Leaving (job_sid j)"] s sid
    by (intro manager_ok_put [OF ok _ s'(1,2)]) (simp_all add: manager_ok_def put_session_def)
  have "jobs_ok x ?S (remove1 j (m_jobs m))"
    using s'(3) by (intro jobs_ok_end [OF jobs j]) auto
  then show "manager_ok x (put_session s' (replace_job j [] (m_threads_update (\<lambda>n. n - 1) m)))"
    using ok length_end [OF j] s sid
    by (intro manager_ok_put [OF ok _ s'(1,2)]) (simp_all add: manager_ok_def put_session_def)
qed

lemma jobD: "manager_ok x m \<Longrightarrow> j \<in> set (m_jobs m) \<Longrightarrow> job_ok x (map_of (m_sessions m)) j"
  by (simp add: manager_ok_def jobs_ok_def)

lemma mstep_ok:
  assumes "mstep x U m m'" "manager_ok x m"
  shows "manager_ok x m'"
  using assms
proof (induction rule: mstep.induct)
  case (Quiet m t d)
  then show ?case by (simp add: manager_ok_def)
next
  case (Change m s s')
  then show ?case by (rule mstep_ok_sessions [rotated])
next
  case (Enrol m s tok nonce)
  then show ?case using mstep_ok_enrol by blast
next
  case (Complete m s tok p v s1 t)
  then show ?case by (simp add: mstep_ok_complete)
next
  case (Remove m s now)
  then show ?case using mstep_ok_remove by blast
next
  case (Admit m policy def sid creator invitation nonce now)
  then show ?case using mstep_ok_admit by blast
next
  case (Launched sid m)
  then show ?case using jobD [OF Launched(2,1)] by (intro mstep_ok_advance) (auto simp: job_ok_def)
next
  case (LaunchFailed sid m s detail)
  have "ss_state s \<noteq> CLOSED" using jobD [OF LaunchFailed(3,1)] LaunchFailed(2) by (auto simp: job_ok_def)
  then have "session_ok x (abort_session SESSION_ERROR_UNSPECIFIED detail s)"
    by (intro session_ok_terminal [OF manager_okD(2) [OF LaunchFailed(3,2)]]) simp_all
  then show ?case using LaunchFailed mstep_ok_settle(2) [of x m "Spawning sid" s] by (simp add: same_frame_def)
next
  case (LaunchFailedGone sid m)
  then show ?case by (intro mstep_ok_end) auto
next
  case (Prompted sid m s delim)
  then show ?case by (intro mstep_ok_advance) (auto simp: job_ok_def)
next
  case (Inferred sid prompt schema m generate result)
  have "job_ok x (map_of (m_sessions m)) (Writing sid result)"
    using jobD [OF Inferred(3,1)] Inferred(2) run_llm_ok [of x _ prompt schema]
    by (cases result) (auto simp: job_ok_def output_ok_def)
  then show ?case using Inferred by (intro mstep_ok_advance) auto
next
  case (Stored sid r m s t)
  have "output_ok x s r" using jobD [OF Stored(4,1)] Stored(2,3) by (auto simp: job_ok_def)
  then have "session_ok x ((enter CLOSED t s)\<lparr>ss_result_json := r\<rparr>)" using Stored(3)
    by (intro session_ok_terminal [OF manager_okD(2) [OF Stored(4,2)]]) simp_all
  then show ?case using Stored mstep_ok_settle(1) [of x m "Writing sid (Inr r)" s] by (simp add: same_frame_def)
next
  case (Failed sid e m s t)
  then have "session_ok x ((abort_session LLM_GENERATION_FAILED (exn_str e) s)\<lparr>ss_entered_at := t\<rparr>)"
    by (intro session_ok_terminal [OF manager_okD(2) [OF Failed(4,2)]]) simp_all
  then show ?case using Failed mstep_ok_settle(1) [of x m "Writing sid (Inl e)" s] by (simp add: same_frame_def)
next
  case (Overtaken j m sid)
  then have "job_sid j = sid" by auto
  moreover have "job_ok x (map_of (m_sessions m)) (Leaving sid)"
    using Overtaken(3) job_ok_state [OF jobD [OF Overtaken(4,1)]] \<open>job_sid j = sid\<close> by (auto simp: job_ok_def)
  ultimately show ?case using Overtaken by (intro mstep_ok_advance) auto
next
  case (Left sid m)
  then show ?case using jobD [OF Left(2,1)] unfolding ThreadGuard_release_def
    by (intro mstep_ok_end) (auto simp: job_ok_def)
qed

end
