(* ===== verification/BrokerRuns.thy ===== *)
theory BrokerRuns
  imports BrokerSteps
begin

text \<open>
  Every handler of the broker and every section of its background threads is a sequence of the atomic transitions of
  \<open>mstep\<close>; so what those keep holds in every state the broker can reach, whatever the order of requests and threads.
\<close>

section \<open>Sequences of transitions\<close>

abbreviation msteps :: "bext \<Rightarrow> string set \<Rightarrow> manager \<Rightarrow> manager \<Rightarrow> bool" where "msteps x U \<equiv> (mstep x U)\<^sup>*\<^sup>*"

lemma msteps_ok: "msteps x U m m' \<Longrightarrow> manager_ok x m \<Longrightarrow> manager_ok x m'"
  by (induction rule: rtranclp_induct) (auto intro: mstep_ok)

lemma msteps_then: "msteps x U m m' \<Longrightarrow> mstep x U m' m'' \<Longrightarrow> msteps x U m m''"
  by (rule rtranclp.rtrancl_into_rtrancl)

lemma mstep_tick: "mstep x U m (m\<lparr>m_tick := t\<rparr>)"
  using Quiet [of x U m "m_draws m" t] by simp

lemma mstep_draw: "mstep x U m (m\<lparr>m_draws := d\<rparr>)"
  using Quiet [of x U m d "m_tick m"] by simp

lemma wp_absl_Now [wp_simps]: "wp absl_Now Q E m = Q (m_clock m (m_tick m)) (m\<lparr>m_tick := Suc (m_tick m)\<rparr>)"
  by (cases m) (simp add: absl_Now_def wp_simps)

lemma wp_GenerateRandomHex [wp_simps]:
  "wp (GenerateRandomHex n) Q E m = Q (BytesToHexString (m_rand m (m_draws m) n)) (m\<lparr>m_draws := Suc (m_draws m)\<rparr>)"
  by (cases m) (simp add: GenerateRandomHex_def wp_simps)

section \<open>The timeout check\<close>

inductive timed_out :: "bext \<Rightarrow> broker_options \<Rightarrow> session \<Rightarrow> session \<Rightarrow> bool" for x opts s where
  "\<lbrakk>ss_state s \<noteq> CLOSED; ss_state s \<noteq> ABORTED; effective_timeout opts s < now - ss_entered_at s\<rbrakk> \<Longrightarrow>
   timed_out x opts s ((abort_session (timeout_error (ss_state s)) (timeout_detail x (now - ss_entered_at s) s) s)\<lparr>ss_entered_at := t\<rparr>)"

lemma timed_out_change: "timed_out x opts s s' \<Longrightarrow> session_change x opts s s'"
  by (induction rule: timed_out.induct) (rule TimedOut)

lemma timed_out_sel:
  "timed_out x opts s s' \<Longrightarrow> ss_state s' = ABORTED \<and> ss_participants s' = ss_participants s \<and> ss_error_code s' = timeout_error (ss_state s)"
  by (induction rule: timed_out.induct) simp

text \<open>What the check leaves: the session as it was, or timed out.\<close>

inductive checked :: "bext \<Rightarrow> manager \<Rightarrow> session \<Rightarrow> session \<Rightarrow> manager \<Rightarrow> bool" for x m s where
  Alive: "checked x m s s (m\<lparr>m_tick := t\<rparr>)"
| Expired: "timed_out x (m_options m) s s' \<Longrightarrow> checked x m s s' (put_session s' (m\<lparr>m_tick := t\<rparr>))"

lemma Check_checked: "wp (CheckAndEnforceTimeout x s) (\<lambda>s' m'. checked x m s s' m') (\<lambda>_ _. False) m"
  using checked.Alive [of x m s "m_tick m"]
  by (auto simp: CheckAndEnforceTimeout_def wp_simps Let_def intro: checked.intros timed_out.intros)

definition same_surface :: "manager \<Rightarrow> manager \<Rightarrow> bool" where
  "same_surface m m' \<longleftrightarrow> m_options m' = m_options m \<and> m_policies m' = m_policies m \<and> m_engine m' = m_engine m \<and> m_rand m' = m_rand m
     \<and> m_draws m' = m_draws m \<and> m_invitations m' = m_invitations m \<and> m_tokens m' = m_tokens m \<and> m_nonces m' = m_nonces m
     \<and> m_threads m' = m_threads m \<and> m_jobs m' = m_jobs m \<and> map fst (m_sessions m') = map fst (m_sessions m)"

lemma same_surface_refl: "same_surface m m"
  by (simp add: same_surface_def)

lemma same_surface_put: "map_of (m_sessions m) (ss_id s) \<noteq> None \<Longrightarrow> same_surface m (put_session s m)"
  using put_session_keys(2) [of m s] by (simp add: same_surface_def put_session_def)

lemma checkedD:
  assumes "checked x m s s' m'" "map_of (m_sessions m) (ss_id s) = Some s"
  shows "msteps x U m m'" "same_surface m m'" "map_of (m_sessions m') (ss_id s') = Some s'" "ss_id s' = ss_id s"
    "same_frame s s'" "ss_participants s' = ss_participants s" "ss_state s' = ss_state s \<or> ss_state s' = ABORTED"
    "\<And>sid. sid \<noteq> ss_id s \<Longrightarrow> map_of (m_sessions m') sid = map_of (m_sessions m) sid"
proof -
  let ?P = "msteps x U m m' \<and> same_surface m m' \<and> map_of (m_sessions m') (ss_id s') = Some s' \<and> ss_id s' = ss_id s \<and> same_frame s s'
    \<and> ss_participants s' = ss_participants s \<and> (ss_state s' = ss_state s \<or> ss_state s' = ABORTED)
    \<and> (\<forall>sid. sid \<noteq> ss_id s \<longrightarrow> map_of (m_sessions m') sid = map_of (m_sessions m) sid)"
  from assms have ?P
  proof (induction rule: checked.induct)
    case (Alive t)
    then show ?case using mstep_tick by (auto simp: same_surface_def same_frame_def)
  next
    case (Expired s' t)
    note ch = timed_out_change [OF Expired(1)] and fr = session_change_frame [OF timed_out_change [OF Expired(1)]]
    have id: "ss_id s' = ss_id s" using fr by (simp add: same_frame_def)
    have "mstep x U (m\<lparr>m_tick := t\<rparr>) (put_session s' (m\<lparr>m_tick := t\<rparr>))" using Expired(2) ch by (intro Change) auto
    then have "msteps x U m (put_session s' (m\<lparr>m_tick := t\<rparr>))" using mstep_tick [of x U m t] by (meson converse_rtranclp_into_rtranclp r_into_rtranclp)
    moreover have "same_surface m (put_session s' (m\<lparr>m_tick := t\<rparr>))"
      using same_surface_put [of "m\<lparr>m_tick := t\<rparr>" s'] Expired(2) id by (simp add: same_surface_def)
    ultimately show ?case using fr id timed_out_sel [OF Expired(1)] by simp
  qed
  then show "msteps x U m m'" "same_surface m m'" "map_of (m_sessions m') (ss_id s') = Some s'" "ss_id s' = ss_id s"
    "same_frame s s'" "ss_participants s' = ss_participants s" "ss_state s' = ss_state s \<or> ss_state s' = ABORTED"
    "\<And>sid. sid \<noteq> ss_id s \<Longrightarrow> map_of (m_sessions m') sid = map_of (m_sessions m) sid"
    by blast+
qed

section \<open>Freshness\<close>

lemma fresh_draws_mono:
  "fresh_draws m \<Longrightarrow> in_use m' \<subseteq> in_use m \<Longrightarrow> m_rand m' = m_rand m \<Longrightarrow> m_draws m' = m_draws m \<Longrightarrow> fresh_draws m'"
  by (auto simp: fresh_draws_def)

lemma in_use_surface: "same_surface m m' \<Longrightarrow> in_use m' = in_use m"
  by (simp add: in_use_def same_surface_def)

lemma fresh_surface: "same_surface m m' \<Longrightarrow> fresh_draws m \<Longrightarrow> fresh_draws m'"
  by (rule fresh_draws_mono [of m]) (auto simp: in_use_surface, auto simp: same_surface_def)

lemma fresh_drawsD:
  assumes "fresh_draws m" "i < 3" "n = 16 \<or> n = 32"
  shows "BytesToHexString (m_rand m (m_draws m + i) n) \<notin> in_use m"
proof -
  have "i = 0 \<or> i = 1 \<or> i = 2" using assms(2) by auto
  then show ?thesis using assms(1,3) by (auto simp: fresh_draws_def)
qed

section \<open>Handlers as sequences of transitions\<close>

lemma wp_check:
  assumes "\<And>s' m'. checked x m s s' m' \<Longrightarrow> Q s' m'"
  shows "wp (CheckAndEnforceTimeout x s) Q E m"
  using Check_checked by (rule wp_mono) (auto intro: assms)

lemma lookup_sessionD:
  assumes "lookup_session index tok m = Inr s" "manager_ok x m"
  shows "map_of index tok = Some (ss_id s)" "map_of (m_sessions m) (ss_id s) = Some s"
proof -
  obtain sid where "map_of index tok = Some sid" "map_of (m_sessions m) sid = Some s"
    using assms(1) by (auto simp: lookup_session_def split: option.splits)
  with manager_okD(1) [OF assms(2)] show "map_of index tok = Some (ss_id s)" "map_of (m_sessions m) (ss_id s) = Some s" by auto
qed

lemma authenticateD:
  assumes "authenticate tok m = Inr (s, p)" "manager_ok x m"
  shows "map_of (m_tokens m) tok = Some (ss_id s)" "map_of (m_sessions m) (ss_id s) = Some s" "map_of (ss_participants s) tok = Some p"
  using assms lookup_sessionD [of "m_tokens m" tok m s x] by (auto simp: authenticate_def split: option.splits)

lemma wp_Authenticate [wp_simps]:
  "wp (Authenticate tok) Q E m = (case authenticate tok m of Inl e \<Rightarrow> E e m | Inr sp \<Rightarrow> Q sp m)"
  by (simp add: Authenticate_def wp_simps)

text \<open>The common beginning of the handlers that take a participant token.\<close>

lemma wp_auth_check:
  assumes ok: "manager_ok x m" and fail: "\<And>e. authenticate tok m = Inl e \<Longrightarrow> E e m"
    and body: "\<And>s0 p s m'. authenticate tok m = Inr (s0, p) \<Longrightarrow> map_of (m_sessions m) (ss_id s0) = Some s0 \<Longrightarrow>
      map_of (ss_participants s0) tok = Some p \<Longrightarrow> checked x m s0 s m' \<Longrightarrow> wp (body p s) Q E m'"
  shows "wp (io_bind (Authenticate tok) (\<lambda>(s0, p). io_bind (CheckAndEnforceTimeout x s0) (body p))) Q E m"
proof (cases "authenticate tok m")
  case (Inl e)
  then show ?thesis using fail by (simp add: wp_simps)
next
  case (Inr sp)
  then obtain s0 p where "authenticate tok m = Inr (s0, p)" by (cases sp) simp
  then show ?thesis using authenticateD [OF _ ok, of tok s0 p] body by (simp add: wp_simps wp_check)
qed

abbreviation runs :: "bext \<Rightarrow> string set \<Rightarrow> manager \<Rightarrow> (manager, 'a) io \<Rightarrow> manager \<Rightarrow> bool" where
  "runs x U m prog m' \<equiv> wp prog (\<lambda>_. msteps x U m) (\<lambda>_. msteps x U m) m'"

lemma GetResult_runs: "manager_ok x m \<Longrightarrow> runs x U m (GetResult x tok) m"
  unfolding GetResult_def by (rule wp_auth_check) (auto simp: wp_simps intro: checkedD(1))

lemma GetSessionStatus_runs: "manager_ok x m \<Longrightarrow> runs x U m (GetSessionStatus x tok) m"
  unfolding GetSessionStatus_def by (rule wp_auth_check) (auto simp: wp_simps intro: checkedD(1))

lemma AcceptPolicy_runs:
  assumes "manager_ok x m"
  shows "runs x U m (AcceptPolicy x tok) m"
  unfolding AcceptPolicy_def
proof (rule wp_auth_check [OF assms])
  fix s0 p s m'
  assume a: "map_of (m_sessions m) (ss_id s0) = Some s0" "map_of (ss_participants s0) tok = Some p" "checked x m s0 s m'"
  note c = checkedD [OF a(3,1)]
  let ?s1 = "on_participant tok (\<lambda>p. p\<lparr>p_accepted := True\<rparr>) s"
  have step: "mstep x U m'' (put_session (if all_accepted ?s1 then enter SEALED t ?s1 else ?s1) m'')"
    if "ss_state s = OPEN" "\<not> p_accepted p" "m_sessions m'' = m_sessions m'" for t m''
    using that c(3,6) a(2) Change [of m'' s x] Accepted [of s tok p ?s1 x "m_options m''" t] by (simp add: accept_by_def)
  show "runs x U m (accept_as tok p s) m'"
    using c(1) msteps_then [OF c(1) step] msteps_then [OF msteps_then [OF c(1) mstep_tick] step]
    unfolding accept_as_def by (auto simp: wp_simps Let_def)
qed simp

lemma submit_new_runs:
  assumes m': "msteps x U m m'" "map_of (m_sessions m') (ss_id s) = Some s" and s: "ss_state s = SEALED" "joined s = ss_expected s"
    and p: "map_of (ss_participants s) tok = Some p" "\<not> p_input_submitted p"
  shows "runs x U m (submit_new x tok input s) m'"
proof -
  let ?s1 = "\<lambda>v. store_input tok (bx_dump x v) s" let ?m = "m'\<lparr>m_tick := Suc (m_tick m')\<rparr>"
  have full: "ss_expected (?s1 v) = submitted_count (?s1 v) \<longleftrightarrow> all_inputs (?s1 v)" for v
    using submitted_count_full [of "?s1 v"] s(2) by (auto simp: store_input_def)
  have "msteps x U m (put_session (?s1 v) m')" if "check_input x s (bx_dump x v) = Inr ()" "\<not> all_inputs (?s1 v)" for v
    using that m'(2) s p Change [of m' s x] Submitted [of s tok p x v "?s1 v" "m_options m'"] by (intro msteps_then [OF m'(1)]) simp
  moreover have "msteps x U m (dispatch (ss_id s) (put_session (enter CALCULATING t (?s1 v)) ?m))"
    if "check_input x s (bx_dump x v) = Inr ()" "all_inputs (?s1 v)" for v t
    using that m'(2) s p
    by (intro msteps_then [OF msteps_then [OF m'(1) mstep_tick [where t = "Suc (m_tick m')"]]] Complete [of _ s tok p]) auto
  ultimately show ?thesis using m'(1) unfolding submit_new_def
    by (auto simp: wp_simps Let_def full split: sum.split)
qed

lemma SubmitInput_store_runs:
  assumes ok: "manager_ok x m"
  shows "runs x U m (SubmitInput_store x tok input) m"
  unfolding SubmitInput_store_def
proof (rule wp_auth_check [OF ok])
  fix s0 p s m'
  assume a: "map_of (m_sessions m) (ss_id s0) = Some s0" "map_of (ss_participants s0) tok = Some p" "checked x m s0 s m'"
  note c = checkedD [OF a(3,1)]
  have "joined s = ss_expected s" if "ss_state s = SEALED"
    using that manager_okD(2) [OF msteps_ok [OF c(1) ok] c(3)] by (simp add: session_ok_def phase_ok_def all_accepted_def)
  then show "runs x U m (submit_as x tok input p s) m'"
    using c(1,3,6) a(2) submit_new_runs [OF c(1,3), of tok p input] by (auto simp: submit_as_def wp_simps split: sum.split)
qed simp

lemma join_new_runs:
  assumes m': "msteps x U m m'" "map_of (m_sessions m') (ss_id s) = Some s" and fr: "fresh_draws m'"
    and nonce: "nonce = [] \<or> map_of (ss_nonce_to_token s) nonce = None"
  shows "runs x U m (join_new s nonce) m'"
proof -
  let ?m = "m'\<lparr>m_draws := Suc (m_draws m')\<rparr>" let ?tok = "BytesToHexString (m_rand m' (m_draws m') kParticipantTokenBytes)"
  have "?tok \<notin> in_use ?m" using fresh_drawsD [OF fr, of 0 32] by (simp add: in_use_def kParticipantTokenBytes_def)
  then have "msteps x U m ((put_session (add_participant ?tok nonce s) ?m)\<lparr>m_tokens := AList.update ?tok (ss_id s) (m_tokens ?m)\<rparr>)"
    if "ss_state s = OPEN" "joined s < ss_expected s"
    using m'(2) that nonce Enrol [of ?m s ?tok nonce x U] by (intro msteps_then [OF msteps_then [OF m'(1) mstep_draw [where d = "Suc (m_draws m')"]]]) auto
  then show ?thesis using m'(1) by (simp add: join_new_def wp_simps)
qed

lemma JoinSession_runs:
  assumes ok: "manager_ok x m" and fr: "fresh_draws m"
  shows "runs x U m (JoinSession x invitation nonce) m"
proof (cases "lookup_session (m_invitations m) invitation m")
  case (Inr s0)
  note s0 = lookup_sessionD(2) [OF Inr ok]
  have "runs x U m (join_as nonce s) m'" if "checked x m s0 s m'" for s m'
    using checkedD(1,3) [OF that s0] join_new_runs [OF checkedD(1,3) [OF that s0] fresh_surface [OF checkedD(2) [OF that s0] fr]]
    by (auto simp: join_as_def wp_simps split: option.split)
  then show ?thesis using Inr by (simp add: JoinSession_def wp_simps wp_check)
qed (simp add: JoinSession_def wp_simps)

section \<open>The sweep and CreateSession\<close>

text \<open>The sweep keeps the configuration and brings no key into use.\<close>

definition shrunk :: "manager \<Rightarrow> manager \<Rightarrow> bool" where
  "shrunk m m' \<longleftrightarrow> m_options m' = m_options m \<and> m_policies m' = m_policies m \<and> m_rand m' = m_rand m \<and> m_draws m' = m_draws m
     \<and> in_use m' \<subseteq> in_use m"

lemma shrunk_trans: "shrunk m m' \<Longrightarrow> shrunk m' m'' \<Longrightarrow> shrunk m m''"
  by (auto simp: shrunk_def)

lemma same_surface_shrunk: "same_surface m m' \<Longrightarrow> shrunk m m'"
  by (auto simp: shrunk_def in_use_surface) (auto simp: same_surface_def)

lemma set_keys_fold_delete: "fst ` set (fold AList.delete ks al) \<subseteq> fst ` set al"
proof (induction ks arbitrary: al)
  case (Cons k ks)
  show ?case using order_trans [OF Cons.IH dom_delete_subset] by simp
qed simp

lemma erase_session_shrunk: "shrunk m (erase_session s m)"
  using set_keys_fold_delete [of "ss_participant_tokens s" "m_tokens m"] dom_delete_subset [of "ss_id s" "m_sessions m"]
    dom_delete_subset [of "ss_invitation_token s" "m_invitations m"]
  by (auto simp: shrunk_def in_use_def erase_session_def)

lemma sweep_session_runs:
  assumes ok: "manager_ok x m" and s: "map_of (m_sessions m) (ss_id s) = Some s"
  shows "wp (sweep_session x now s) (\<lambda>_ m'. msteps x U m m' \<and> shrunk m m') (\<lambda>_ _. False) m"
proof -
  have "msteps x U m (erase_session s' m') \<and> shrunk m (erase_session s' m')"
    if "checked x m s s' m'" "should_erase (m_options m') now s'" for s' m'
    using checkedD(1,2,3) [OF that(1) s] that(2) shrunk_trans [OF same_surface_shrunk erase_session_shrunk]
    by (auto intro: msteps_then Remove)
  moreover have "msteps x U m m' \<and> shrunk m m'" if "checked x m s s' m'" for s' m'
    using checkedD(1,2) [OF that s] by (auto intro: same_surface_shrunk)
  ultimately show ?thesis unfolding sweep_session_def by (auto simp: wp_simps intro!: wp_check)
qed

lemma sweep_runs:
  assumes "manager_ok x m"
  shows "wp (sweep x now sids) (\<lambda>_ m'. msteps x U m m' \<and> shrunk m m') (\<lambda>_ _. False) m"
  using assms
proof (induction sids arbitrary: m)
  case Nil
  then show ?case by (simp add: wp_simps shrunk_def)
next
  case (Cons sid sids)
  have rest: "wp (sweep x now sids) (\<lambda>_ m'. msteps x U m m' \<and> shrunk m m') (\<lambda>_ _. False) m1"
    if "msteps x U m m1 \<and> shrunk m m1" for m1
    using that Cons.IH [of m1] msteps_ok [OF _ Cons.prems]
    by (auto elim!: wp_mono intro: rtranclp_trans shrunk_trans)
  show ?case
  proof (cases "map_of (m_sessions m) sid")
    case (Some s)
    then have "map_of (m_sessions m) (ss_id s) = Some s" using manager_okD(1) [OF Cons.prems] by simp
    from wp_mono [OF sweep_session_runs [OF Cons.prems this, of now] rest] show ?thesis using Some by (simp add: wp_simps)
  qed (use rest in \<open>simp add: wp_simps shrunk_def\<close>)
qed

lemma Sweep_runs:
  assumes "manager_ok x m"
  shows "wp (SweepTerminalSessions x) (\<lambda>_ m'. msteps x U m m' \<and> shrunk m m') (\<lambda>_ _. False) m"
proof -
  let ?m = "m\<lparr>m_tick := Suc (m_tick m)\<rparr>"
  have "shrunk m m'" if "shrunk ?m m'" for m' using that by (simp add: shrunk_def in_use_def)
  moreover have "msteps x U m m'" if "msteps x U ?m m'" for m' using that mstep_tick by (meson converse_rtranclp_into_rtranclp)
  ultimately show ?thesis using sweep_runs [where U = U, OF mstep_ok [OF mstep_tick [where t = "Suc (m_tick m)"] assms], of "m_clock m (m_tick m)" "map fst (m_sessions m)"]
    by (auto simp: SweepTerminalSessions_def wp_simps elim!: wp_mono)
qed

lemma create_checksD:
  assumes "create_checks x m policy = Inr def"
  shows "int (length (m_sessions m)) < max_sessions (m_options m)" "map_of (m_policies m) (sp_class policy) = Some def"
    "2 \<le> sp_participants policy" "sp_participants policy \<le> kMaxParticipants" "sp_timeout policy \<le> kMaxTimeoutSeconds"
  using assms by (auto simp: create_checks_def GetPolicy_def Let_def split: if_splits option.splits)

lemma create_replayD:
  assumes "create_replay m policy nonce = Inr None" "manager_ok x m"
  shows "nonce = [] \<or> map_of (m_nonces m) nonce = None"
  using assms(1) indexedD [OF manager_ok_parts(6) [OF assms(2)], of nonce]
  by (fastforce simp: create_replay_def split: if_splits option.splits)

lemma create_new_runs:
  assumes m': "msteps x (in_use m) m m'" "shrunk m m'" and fr: "fresh_draws m" and chk: "create_checks x m' policy = Inr def"
    and nonce: "nonce = [] \<or> map_of (m_nonces m') nonce = None"
  shows "runs x (in_use m) m (create_new policy def nonce) m'"
proof -
  let ?m = "m'\<lparr>m_draws := Suc (Suc (Suc (m_draws m'))), m_tick := Suc (m_tick m')\<rparr>"
  let ?hex = "\<lambda>i n. BytesToHexString (m_rand m' (m_draws m' + i) n)"
  have fresh: "?hex i n \<notin> in_use m" "?hex i n \<notin> in_use ?m" if "i < 3" "n = 16 \<or> n = 32" for i n
    using fresh_drawsD [OF fr that] m'(2) by (auto simp: shrunk_def in_use_def)
  have "mstep x (in_use m) ?m (insert_session (?hex 1 32) (new_session (?hex 0 16) (?hex 1 32) (?hex 2 32) policy def t nonce) ?m)" for t
    using create_checksD [OF chk] nonce by (intro Admit fresh) auto
  moreover have "mstep x (in_use m) m' ?m" using Quiet [of x _ m' "Suc (Suc (Suc (m_draws m')))" "Suc (m_tick m')"] by (cases m') simp
  ultimately have "msteps x (in_use m) m (insert_session (?hex 1 32) (new_session (?hex 0 16) (?hex 1 32) (?hex 2 32) policy def t nonce) ?m)" for t
    using m'(1) by (blast intro: msteps_then)
  then show ?thesis
    by (cases m') (simp add: create_new_def wp_simps kSessionIdBytes_def kParticipantTokenBytes_def numeral_2_eq_2)
qed

lemma CreateSession_runs:
  assumes ok: "manager_ok x m" and fr: "fresh_draws m"
  shows "runs x (in_use m) m (CreateSession x policy nonce) m"
proof -
  have "runs x (in_use m) m (case old of Some response \<Rightarrow> io_return response | None \<Rightarrow> create_new policy def nonce) m'"
    if "msteps x (in_use m) m m' \<and> shrunk m m'" "create_checks x m' policy = Inr def" "create_replay m' policy nonce = Inr old" for m' def old
    using that create_new_runs [OF _ _ fr that(2), of nonce] create_replayD [OF _ msteps_ok [OF _ ok, of "in_use m" m']]
    by (cases old) (auto simp: wp_simps)
  then show ?thesis unfolding CreateSession_def
    by (auto simp: wp_simps split: sum.split intro!: wp_mono [OF Sweep_runs [OF ok]])
qed

section \<open>Threads as sequences of transitions\<close>

lemma spawn_runs:
  assumes "Spawning sid \<in> set (m_jobs m)"
  shows "runs x U m (SubmitInput_spawn sid failure) m"
  using Launched [OF assms] LaunchFailed [OF assms] LaunchFailedGone [OF assms]
  by (auto simp: SubmitInput_spawn_def wp_simps split: option.split)

lemma begin_runs:
  assumes "Started sid \<in> set (m_jobs m)"
  shows "runs x U m (ProcessSession_begin x sid) m"
proof -
  let ?m = "m\<lparr>m_draws := Suc (m_draws m)\<rparr>"
  have "msteps x U m (replace_job (Started sid) [Inferring sid (aggregated_prompt x delim s) (output_schema_of s)] ?m)"
    if "map_of (m_sessions m) sid = Some s" "ss_state s = CALCULATING" for s delim
    using that assms by (intro msteps_then [OF r_into_rtranclp [of "mstep x U", OF mstep_draw [where d = "Suc (m_draws m)"]]] Prompted) auto
  moreover have "msteps x U m (replace_job (Started sid) [Leaving sid] m)"
    if "\<And>s. map_of (m_sessions m) sid = Some s \<Longrightarrow> ss_state s \<noteq> CALCULATING"
    using that assms by (intro r_into_rtranclp Overtaken) auto
  ultimately show ?thesis by (auto simp: ProcessSession_begin_def wp_simps split: option.split)
qed

lemma replace_job_tick: "replace_job j js (m\<lparr>m_tick := t\<rparr>) = (replace_job j js m)\<lparr>m_tick := t\<rparr>"
  by (simp add: replace_job_def)

lemma finish_runs:
  assumes j: "Writing sid result \<in> set (m_jobs m)"
  shows "runs x U m (ProcessSession_finish sid result) m"
proof -
  let ?r = "replace_job (Writing sid result) [Leaving sid]" let ?m = "m\<lparr>m_tick := Suc (m_tick m)\<rparr>"
  note tick = r_into_rtranclp [of "mstep x U", OF mstep_tick [of x U m "Suc (m_tick m)"]]
  have "msteps x U m (put_session ((enter CLOSED t s)\<lparr>ss_result_json := r\<rparr>) (?r ?m))"
    if "map_of (m_sessions m) sid = Some s" "ss_state s = CALCULATING" "result = Inr r" for s t r
    using that j by (simp, intro msteps_then [OF tick] Stored) auto
  moreover have "msteps x U m (put_session ((abort_session LLM_GENERATION_FAILED (exn_str e) s)\<lparr>ss_entered_at := t\<rparr>) (?r ?m))"
    if "map_of (m_sessions m) sid = Some s" "ss_state s = CALCULATING" "result = Inl e" for s t e
    using that j by (simp, intro msteps_then [OF tick] Failed) auto
  moreover have "msteps x U m (?r m)" if "\<And>s. map_of (m_sessions m) sid = Some s \<Longrightarrow> ss_state s \<noteq> CALCULATING"
    using that j by (intro r_into_rtranclp Overtaken) auto
  moreover have "m_tick (?r m) = m_tick m" by (simp add: replace_job_def)
  ultimately show ?thesis by (auto simp: ProcessSession_finish_def wp_simps replace_job_tick split: option.split sum.split)
qed

section \<open>Every step of the broker\<close>

lemma runs_snd: "runs x U m prog m \<Longrightarrow> msteps x U m (snd (prog m))"
  by (cases "prog m"; cases "fst (prog m)") (auto simp: wp_def)

theorem broker_step_msteps:
  assumes "broker_step x m m'" "manager_ok x m"
  shows "msteps x (in_use m) m m'"
  using assms
  by (induction rule: broker_step.induct)
    (auto intro!: runs_snd CreateSession_runs JoinSession_runs AcceptPolicy_runs SubmitInput_store_runs spawn_runs begin_runs finish_runs
      GetResult_runs GetSessionStatus_runs intro: r_into_rtranclp Inferred Left)

text \<open>
  What every transition keeps holds after every handler, after every run of the broker, and, where it holds at the
  start, in every reachable state.
\<close>

locale manager_invariant =
  fixes x :: bext and I :: "manager \<Rightarrow> bool"
  assumes mstep_keeps: "mstep x U m m' \<Longrightarrow> manager_ok x m \<Longrightarrow> I m \<Longrightarrow> I m'"
begin

lemma msteps_keep: "msteps x U m m' \<Longrightarrow> manager_ok x m \<Longrightarrow> I m \<Longrightarrow> I m'"
proof (induction rule: rtranclp_induct)
  case (step m1 m2)
  then show ?case using mstep_keeps [OF step(2) msteps_ok [OF step(1)]] by blast
qed simp

lemma handler_keeps: "runs x U m prog m \<Longrightarrow> manager_ok x m \<Longrightarrow> I m \<Longrightarrow> I (snd (prog m))"
  using msteps_keep runs_snd by blast

lemma broker_step_keeps: "broker_step x m m' \<Longrightarrow> manager_ok x m \<Longrightarrow> I m \<Longrightarrow> I m'"
  using msteps_keep broker_step_msteps by blast

lemma broker_steps_keep: "(broker_step x)\<^sup>*\<^sup>* m m' \<Longrightarrow> manager_ok x m \<Longrightarrow> I m \<Longrightarrow> manager_ok x m' \<and> I m'"
proof (induction rule: rtranclp_induct)
  case (step m1 m2)
  then show ?case using broker_step_keeps msteps_ok broker_step_msteps by blast
qed simp

end

interpretation well_formed: manager_invariant x "manager_ok x" for x
  by unfold_locales (rule mstep_ok)

interpretation configured: manager_invariant x "\<lambda>m. m_options m = opts \<and> m_policies m = policies \<and> m_engine m = has_engine"
  for x opts policies has_engine
proof
  fix U m m' assume "mstep x U m m'" "m_options m = opts \<and> m_policies m = policies \<and> m_engine m = has_engine"
  then show "m_options m' = opts \<and> m_policies m' = policies \<and> m_engine m' = has_engine"
    by cases (simp_all add: ThreadGuard_release_def)
qed

lemma initial_ok: "0 \<le> max_sessions opts \<Longrightarrow> manager_ok x (initial_manager opts policies has_engine clock rand)"
  by (simp add: initial_manager_def manager_ok_def sessions_ok_def indexed_def jobs_ok_def)

lemma broker_reach_ok: "broker_reach x m \<Longrightarrow> manager_ok x m"
  unfolding broker_reach_def using well_formed.broker_steps_keep initial_ok by blast

lemma broker_reach_step: "broker_reach x m \<Longrightarrow> broker_step x m m' \<Longrightarrow> broker_reach x m'"
  unfolding broker_reach_def by (meson rtranclp.rtrancl_into_rtrancl)

end
