(* ===== verification/BrokerProtocol.thy ===== *)
theory BrokerProtocol
  imports BrokerRuns
begin

text \<open>
  The contract of a session and its refinement.  \<open>proto\<close> is the protocol the participants rely on: members gather, each
  of them accepts the policy, only then does each hand in one input, only then is a result computed, and a result is
  published only from there; at any moment before it the session may be aborted.  Every step of the broker moves each
  session along this protocol (\<open>evolves\<close>), and the state of every session is one the protocol can reach.
\<close>

section \<open>The protocol\<close>

datatype phase =
    Gathering "string list" "string set"
  | Collecting "string list" "string set"
  | Computing "string list"
  | Done string
  | Aborted

fun live :: "phase \<Rightarrow> bool" where
  "live (Done _) = False" | "live Aborted = False" | "live _ = True"

inductive proto :: "int \<Rightarrow> phase \<Rightarrow> phase \<Rightarrow> bool" for n where
  Join: "int (length ms) < n \<Longrightarrow> t \<notin> set ms \<Longrightarrow> proto n (Gathering ms as) (Gathering (ms @ [t]) as)"
| Agree: "t \<in> set ms - as \<Longrightarrow> \<not> (int (length ms) = n \<and> insert t as = set ms) \<Longrightarrow> proto n (Gathering ms as) (Gathering ms (insert t as))"
| Seal: "t \<in> set ms - as \<Longrightarrow> int (length ms) = n \<Longrightarrow> insert t as = set ms \<Longrightarrow> proto n (Gathering ms as) (Collecting ms {})"
| Submit: "t \<in> set ms - us \<Longrightarrow> insert t us \<noteq> set ms \<Longrightarrow> proto n (Collecting ms us) (Collecting ms (insert t us))"
| Compute: "t \<in> set ms - us \<Longrightarrow> insert t us = set ms \<Longrightarrow> proto n (Collecting ms us) (Computing ms)"
| Publish: "r \<noteq> [] \<Longrightarrow> proto n (Computing ms) (Done r)"
| Abort: "live p \<Longrightarrow> proto n p Aborted"

inductive_cases proto_GatheringE: "proto n (Gathering ms as) p"
inductive_cases proto_CollectingE: "proto n (Collecting ms us) p"
inductive_cases proto_ComputingE: "proto n (Computing ms) p"
inductive_cases proto_DoneE: "proto n (Done r) p"
inductive_cases proto_AbortedE: "proto n Aborted p"

lemmas proto_elims = proto_GatheringE proto_CollectingE proto_ComputingE proto_DoneE proto_AbortedE

section \<open>Sessions as phases\<close>

definition members :: "session \<Rightarrow> string list" where
  "members s = map fst (ss_participants s)"

definition having :: "(participant \<Rightarrow> bool) \<Rightarrow> session \<Rightarrow> string set" where
  "having P s = {t. \<exists>p. map_of (ss_participants s) t = Some p \<and> P p}"

definition phase_of :: "session \<Rightarrow> phase" where
  "phase_of s = (if ss_state s = OPEN then Gathering (members s) (having p_accepted s)
     else if ss_state s = SEALED then Collecting (members s) (having p_input_submitted s)
     else if ss_state s = CALCULATING then Computing (members s)
     else if ss_state s = CLOSED then Done (ss_result_json s) else Aborted)"

lemma map_of_keyD: "map_of ps t = Some p \<Longrightarrow> t \<in> fst ` set ps"
  by (metis domI dom_map_of_conv_image_fst)

lemma having_all:
  assumes "shape_ok s"
  shows "having P s = set (members s) \<longleftrightarrow> list_all (P \<circ> snd) (ss_participants s)"
proof -
  let ?ps = "ss_participants s"
  have d: "distinct (map fst ?ps)" using assms by (simp add: shape_ok_def Let_def)
  have "having P s = set (members s) \<longleftrightarrow> (\<forall>t\<in>fst ` set ?ps. \<exists>p. map_of ?ps t = Some p \<and> P p)"
    by (auto simp: having_def members_def dest: map_of_keyD)
  also have "\<dots> \<longleftrightarrow> list_all (P \<circ> snd) ?ps"
    using d by (auto simp: list_all_iff) (metis eq_key_imp_eq_value map_of_SomeD surj_pair snd_conv fst_conv, metis map_of_is_SomeI surj_pair snd_conv fst_conv)
  finally show ?thesis .
qed

lemma having_subset: "having P s \<subseteq> set (members s)"
  by (auto simp: having_def members_def dest: map_of_keyD)

lemma map_of_on_participant:
  "map_of (ss_participants (on_participant tok f s)) t = map_option (if t = tok then f else id) (map_of (ss_participants s) t)"
proof -
  have "map_of (map (\<lambda>(t, p). (t, if t = tok then f p else p)) ps) t = map_option (if t = tok then f else id) (map_of ps t)" for ps
    by (induction ps) auto
  then show ?thesis by (simp add: on_participant_def)
qed

lemma members_on_participant [simp]: "members (on_participant tok f s) = members s"
  by (simp add: members_def)

lemma having_on_participant:
  assumes "map_of (ss_participants s) tok = Some p" "P (f p)"
  shows "having P (on_participant tok f s) = insert tok (having P s)"
  using assms by (auto simp: having_def map_of_on_participant split: if_splits)

lemma having_unchanged: "(\<And>p. P (f p) = P p) \<Longrightarrow> having P (on_participant tok f s) = having P s"
  by (auto simp: having_def map_of_on_participant split: if_splits)

lemma phase_of_live: "phase_ok s \<Longrightarrow> ss_state s \<noteq> CLOSED \<Longrightarrow> ss_state s \<noteq> ABORTED \<Longrightarrow> live (phase_of s)"
  by (auto simp: phase_of_def phase_ok_def)

lemma phase_of_sel:
  "ss_state s = OPEN \<Longrightarrow> phase_of s = Gathering (members s) (having p_accepted s)"
  "ss_state s = SEALED \<Longrightarrow> phase_of s = Collecting (members s) (having p_input_submitted s)"
  "ss_state s = CALCULATING \<Longrightarrow> phase_of s = Computing (members s)"
  "ss_state s = CLOSED \<Longrightarrow> phase_of s = Done (ss_result_json s)"
  "ss_state s = ABORTED \<Longrightarrow> phase_of s = Aborted"
  by (simp_all add: phase_of_def)

section \<open>Transitions follow the protocol\<close>

text \<open>What never changes in the life of a session, what only grows, and the protocol.\<close>

definition evolves :: "session \<Rightarrow> session \<Rightarrow> bool" where
  "evolves s s' \<longleftrightarrow> ss_policy s' = ss_policy s \<and> ss_policy_def s' = ss_policy_def s \<and> ss_invitation_token s' = ss_invitation_token s
     \<and> ss_creator_nonce s' = ss_creator_nonce s \<and> (\<exists>more. members s' = members s @ more)
     \<and> (\<forall>n t. map_of (ss_nonce_to_token s) n = Some t \<longrightarrow> map_of (ss_nonce_to_token s') n = Some t)
     \<and> (\<forall>t p. map_of (ss_participants s) t = Some p \<longrightarrow> (\<exists>p'. map_of (ss_participants s') t = Some p' \<and>
          (p_accepted p \<longrightarrow> p_accepted p') \<and> (p_input_submitted p \<longrightarrow> p_input_submitted p' \<and> p_input_json p' = p_input_json p)))
     \<and> (proto (ss_expected s))\<^sup>*\<^sup>* (phase_of s) (phase_of s')"

lemma evolves_refl: "evolves s s"
  by (simp add: evolves_def)

lemma evolves_trans:
  assumes "evolves s s'" "evolves s' s''"
  shows "evolves s s''"
proof -
  have "(proto (ss_expected s))\<^sup>*\<^sup>* (phase_of s) (phase_of s'')"
    using assms by (auto simp: evolves_def intro: rtranclp_trans)
  moreover have "\<exists>more. members s'' = members s @ more" using assms by (auto simp: evolves_def)
  moreover have "\<exists>p''. map_of (ss_participants s'') t = Some p'' \<and> (p_accepted p \<longrightarrow> p_accepted p'') \<and>
      (p_input_submitted p \<longrightarrow> p_input_submitted p'' \<and> p_input_json p'' = p_input_json p)"
    if "map_of (ss_participants s) t = Some p" for t p
    using that assms unfolding evolves_def by metis
  ultimately show ?thesis using assms unfolding evolves_def by simp
qed

text \<open>Aborting or closing a session leaves its participants alone.\<close>

lemma evolves_settle:
  assumes "same_frame s s'" "ss_participants s' = ss_participants s" "(proto (ss_expected s))\<^sup>*\<^sup>* (phase_of s) (phase_of s')"
  shows "evolves s s'"
  using assms by (auto simp: evolves_def same_frame_def members_def)

lemma evolves_abort:
  assumes "phase_ok s" "ss_state s \<noteq> CLOSED" "ss_state s' = ABORTED" "same_frame s s'" "ss_participants s' = ss_participants s"
  shows "evolves s s'"
proof (rule evolves_settle [OF assms(4,5)])
  show "(proto (ss_expected s))\<^sup>*\<^sup>* (phase_of s) (phase_of s')"
    using assms(1-3) phase_of_live [OF assms(1,2)] Abort [of "phase_of s" "ss_expected s"] by (cases "ss_state s = ABORTED") (auto simp: phase_of_sel)
qed

lemma evolves_join:
  assumes "ss_state s = OPEN" "joined s < ss_expected s" "tok \<notin> fst ` set (ss_participants s)"
    and "nonce = [] \<or> map_of (ss_nonce_to_token s) nonce = None"
  shows "evolves s (add_participant tok nonce s)"
proof -
  let ?s = "add_participant tok nonce s"
  note ps = add_participant_participants [OF assms(3), of nonce]
  have m: "members ?s = members s @ [tok]" by (simp add: members_def ps)
  have h: "having p_accepted ?s = having p_accepted s"
    using assms(3) by (auto simp: having_def ps map_add_def new_participant_def split: option.splits dest: map_of_keyD)
  have "proto (ss_expected s) (phase_of s) (phase_of ?s)" using assms(1-3)
    by (simp add: phase_of_sel(1) m h, intro Join) (auto simp: members_def joined_def)
  moreover have "map_of (ss_nonce_to_token ?s) n = Some t" if "map_of (ss_nonce_to_token s) n = Some t" for n t
    using that assms(4) by (auto simp: add_participant_def update_conv')
  ultimately show ?thesis using m by (auto simp: evolves_def ps map_add_def split: option.splits)
qed

lemma evolves_participant:
  assumes "s1 = on_participant tok f s" "\<And>p. p_accepted p \<Longrightarrow> p_accepted (f p)"
    and "\<And>p. map_of (ss_participants s) tok = Some p \<Longrightarrow> p_input_submitted p \<Longrightarrow> p_input_submitted (f p) \<and> p_input_json (f p) = p_input_json p"
    and "ss_participants s' = ss_participants s1" "same_frame s s'" "proto (ss_expected s) (phase_of s) (phase_of s')"
  shows "evolves s s'"
proof -
  have "members s' = members s" using assms(1,4) by (simp add: members_def)
  then show ?thesis using assms by (auto simp: evolves_def same_frame_def map_of_on_participant)
qed

lemma evolves_accept:
  assumes ok: "session_ok x s" and st: "ss_state s = OPEN" and p: "map_of (ss_participants s) tok = Some p" "\<not> p_accepted p"
    and s1: "s1 = accept_by tok s"
  shows "evolves s (if all_accepted s1 then enter SEALED t s1 else s1)"
proof -
  let ?s = "if all_accepted s1 then enter SEALED t s1 else s1"
  have h: "having p_accepted s1 = insert tok (having p_accepted s)" "members s1 = members s" "joined s1 = joined s" "ss_state s1 = OPEN"
      "ss_policy s1 = ss_policy s"
    using p(1) st by (simp_all add: s1 accept_by_def having_on_participant)
  have sh: "shape_ok s1" using ok by (simp add: session_ok_def s1 accept_by_def on_participant_shape)
  have tok: "tok \<in> set (members s) - having p_accepted s"
    using p by (auto simp: members_def having_def dest: map_of_keyD)
  have full: "all_accepted s1 \<longleftrightarrow> int (length (members s)) = ss_expected s \<and> insert tok (having p_accepted s) = set (members s)"
    using having_all [OF sh, of p_accepted] h unfolding all_accepted_def by (simp add: joined_def) (simp add: members_def)
  have no: "having p_input_submitted (enter SEALED t s1) = {}"
    using ok st by (fastforce simp: session_ok_def phase_ok_def no_inputs_def list_all_iff having_def s1 accept_by_def map_of_on_participant
        split: if_splits dest: map_of_SomeD)
  have "members (enter SEALED t s1) = members s" using h(2) by (simp add: members_def)
  then have "proto (ss_expected s) (phase_of s) (phase_of ?s)"
    using tok full no h st by (auto simp: phase_of_sel intro: Agree Seal)
  then show ?thesis
    using s1 by (intro evolves_participant [of s1 tok "\<lambda>p. p\<lparr>p_accepted := True\<rparr>"]) (auto simp: accept_by_def same_frame_def)
qed

lemma evolves_submit:
  assumes ok: "session_ok x s" and st: "ss_state s = SEALED" and p: "map_of (ss_participants s) tok = Some p" "\<not> p_input_submitted p"
    and s1: "s1 = store_input tok json s"
  shows "evolves s (if all_inputs s1 then enter CALCULATING t s1 else s1)"
proof -
  let ?s = "if all_inputs s1 then enter CALCULATING t s1 else s1"
  have h: "having p_input_submitted s1 = insert tok (having p_input_submitted s)" "members s1 = members s" "ss_state s1 = SEALED"
    using p(1) st by (simp_all add: s1 store_input_def having_on_participant)
  have sh: "shape_ok s1" using ok by (simp add: session_ok_def s1 store_input_def on_participant_shape)
  have tok: "tok \<in> set (members s) - having p_input_submitted s"
    using p by (auto simp: members_def having_def dest: map_of_keyD)
  have full: "all_inputs s1 \<longleftrightarrow> insert tok (having p_input_submitted s) = set (members s)"
    using having_all [OF sh, of p_input_submitted] h by (simp add: all_inputs_def)
  have "members (enter CALCULATING t s1) = members s" using h(2) by (simp add: members_def)
  then have "proto (ss_expected s) (phase_of s) (phase_of ?s)"
    using tok full h st by (auto simp: phase_of_sel intro: Submit Compute)
  then show ?thesis using s1 p
    by (intro evolves_participant [of s1 tok "\<lambda>p. p\<lparr>p_input_json := json, p_input_submitted := True\<rparr>"]) (auto simp: store_input_def same_frame_def)
qed

lemma session_change_evolves: "session_change x opts s s' \<Longrightarrow> session_ok x s \<Longrightarrow> evolves s s'"
proof (induction rule: session_change.induct)
  case (TimedOut s now t)
  then show ?case by (intro evolves_abort) (auto simp: session_ok_def same_frame_def)
next
  case (Accepted s tok p s1 t)
  then show ?case by (intro evolves_accept) auto
next
  case (Submitted s tok p v s1)
  then show ?case using evolves_submit [of x s tok p s1 "bx_dump x v"] by simp
qed

text \<open>A session as it is created, from the definition its class has in the registry.\<close>

definition newborn :: "manager \<Rightarrow> session \<Rightarrow> bool" where
  "newborn m s \<longleftrightarrow> (\<exists>c. phase_of s = Gathering [c] {c}) \<and> map_of (m_policies m) (sp_class (ss_policy s)) = Some (ss_policy_def s)"

lemma new_session_newborn:
  "map_of (m_policies m) (sp_class policy) = Some def \<Longrightarrow> newborn m (new_session sid creator invitation policy def now nonce)"
  by (auto simp: newborn_def phase_of_def new_session_def members_def having_def new_participant_def)

text \<open>Only one session changes in a transition, and it changes along the protocol.\<close>

lemma update_evolves:
  assumes "(S(i \<mapsto> s1)) sid = Some s'" "S i = Some s" "evolves s s1"
  shows "\<exists>s. S sid = Some s \<and> evolves s s'"
  using assms evolves_refl by (auto split: if_splits)

lemma mstep_evolves:
  assumes "mstep x U m m'" "manager_ok x m" "map_of (m_sessions m') sid = Some s'"
  shows "(\<exists>s. map_of (m_sessions m) sid = Some s \<and> evolves s s') \<or> sid \<notin> U \<and> map_of (m_sessions m) sid = None \<and> newborn m s'"
  using assms
proof (induction rule: mstep.induct)
  case (Change m s s1)
  have "evolves s s1" by (rule session_change_evolves [OF Change(2) manager_okD(2) [OF Change(3,1)]])
  moreover have "ss_id s1 = ss_id s" using session_change_frame [OF Change(2)] by (simp add: same_frame_def)
  ultimately show ?case using update_evolves [of "map_of (m_sessions m)", OF _ Change(1)] Change(4) by simp
next
  case (Enrol m s tok nonce)
  have "map_of (m_tokens m) tok = None" using not_in_use [OF Enrol(4)] by blast
  then have "tok \<notin> fst ` set (ss_participants s)"
    using indexedI [OF manager_ok_parts(5) [OF Enrol(6)] Enrol(1), of tok] by (auto simp: token_keys_def)
  from evolves_join [OF Enrol(2,3) this Enrol(5)] show ?case using update_evolves [of "map_of (m_sessions m)", OF _ Enrol(1)] Enrol(7) by simp
next
  case (Complete m s tok p v s1 t)
  have "evolves s (enter CALCULATING t s1)"
    using evolves_submit [OF manager_okD(2) [OF Complete(8,1)] Complete(2,3,4,6)] Complete(7) by simp
  moreover have "ss_id s1 = ss_id s" using Complete(6) by (simp add: store_input_def)
  ultimately show ?case using update_evolves [of "map_of (m_sessions m)", OF _ Complete(1)] Complete(9) by simp
next
  case (Remove m s now)
  then show ?case using evolves_refl by (auto split: if_splits)
next
  case (Admit m policy def sid1 creator invitation nonce now)
  then show ?case using evolves_refl new_session_newborn [OF Admit(2)] not_in_use [OF Admit(7)] by (auto split: if_splits)
next
  case (LaunchFailed sid1 m s detail)
  have "ss_state s \<noteq> CLOSED" using jobD [OF LaunchFailed(3,1)] LaunchFailed(2) by (auto simp: job_ok_def)
  then have "evolves s (abort_session SESSION_ERROR_UNSPECIFIED detail s)"
    using manager_okD(2) [OF LaunchFailed(3,2)] by (intro evolves_abort) (auto simp: session_ok_def same_frame_def)
  then show ?case using update_evolves [of "map_of (m_sessions m)", OF _ LaunchFailed(2)] LaunchFailed(4) manager_okD(1) [OF LaunchFailed(3,2)] by simp
next
  case (Stored sid1 r m s t)
  have "r \<noteq> []" using jobD [OF Stored(4,1)] Stored(2,3) by (auto simp: job_ok_def output_ok_def)
  then have "evolves s ((enter CLOSED t s)\<lparr>ss_result_json := r\<rparr>)" using Stored(3) Publish [of r "ss_expected s"]
    by (intro evolves_settle) (auto simp: same_frame_def phase_of_sel)
  then show ?case using update_evolves [of "map_of (m_sessions m)", OF _ Stored(2)] Stored(5) manager_okD(1) [OF Stored(4,2)] by simp
next
  case (Failed sid1 e m s t)
  then have "evolves s ((abort_session LLM_GENERATION_FAILED (exn_str e) s)\<lparr>ss_entered_at := t\<rparr>)"
    using manager_okD(2) [OF Failed(4,2)] by (intro evolves_abort) (auto simp: session_ok_def same_frame_def)
  then show ?case using update_evolves [of "map_of (m_sessions m)", OF _ Failed(2)] Failed(5) manager_okD(1) [OF Failed(4,2)] by simp
qed (use evolves_refl in \<open>auto simp: ThreadGuard_release_def\<close>)

text \<open>A session that exists after a sequence of transitions is one from before, further along, or a new one.\<close>

lemma msteps_evolves:
  assumes "msteps x U m m'" "manager_ok x m" "map_of (m_sessions m') sid = Some s'"
  shows "(\<exists>s. map_of (m_sessions m) sid = Some s \<and> evolves s s') \<or> sid \<notin> U \<and> (\<exists>s. newborn m s \<and> evolves s s')"
  using assms
proof (induction arbitrary: s' rule: rtranclp_induct)
  case base
  then show ?case using evolves_refl by blast
next
  case (step m1 m2)
  note ok = msteps_ok [OF step(1,4)] and pol = configured.msteps_keep [OF step(1,4), of "m_options m" "m_policies m" "m_engine m"]
  from mstep_evolves [OF step(2) ok step(5)] show ?case
  proof
    assume "\<exists>s. map_of (m_sessions m1) sid = Some s \<and> evolves s s'"
    then show ?thesis using step(3) [OF step(4)] evolves_trans by blast
  next
    assume "sid \<notin> U \<and> map_of (m_sessions m1) sid = None \<and> newborn m1 s'"
    then show ?thesis using evolves_refl pol by (auto simp: newborn_def)
  qed
qed

lemma step_evolves:
  assumes "manager_ok x m" "broker_step x m m'" "map_of (m_sessions m) sid = Some s" "map_of (m_sessions m') sid = Some s'"
  shows "evolves s s'"
proof -
  have "sid \<in> in_use m" using assms(3) by (auto simp: in_use_def dest: map_of_keyD)
  then show ?thesis using msteps_evolves [OF broker_step_msteps [OF assms(2,1)] assms(1,4)] assms(3) by auto
qed

lemma reach_history:
  assumes "broker_reach x m" "map_of (m_sessions m) sid = Some s"
  shows "\<exists>s0. newborn m s0 \<and> evolves s0 s"
proof -
  obtain opts pol e clk rnd where st: "(broker_step x)\<^sup>*\<^sup>* (initial_manager opts pol e clk rnd) m" "0 \<le> max_sessions opts"
    using assms(1) by (auto simp: broker_reach_def)
  let ?i = "initial_manager opts pol e clk rnd"
  have "msteps x {} ?i m"
    using st(1)
  proof (induction rule: rtranclp_induct)
    case (step m1 m2)
    have "mstep x (in_use m1) m' m'' \<Longrightarrow> mstep x {} m' m''" for m' m''
      by (erule mstep.cases) (auto intro: mstep.intros)
    then have "msteps x (in_use m1) m1 m2 \<Longrightarrow> msteps x {} m1 m2" using rtranclp_mono [of "mstep x (in_use m1)" "mstep x {}"] by blast
    moreover have "manager_ok x m1" using well_formed.broker_steps_keep [OF step(1)] initial_ok [OF st(2)] by blast
    ultimately show ?case using step(3) broker_step_msteps [OF step(2)] by (auto intro: rtranclp_trans)
  qed simp
  from msteps_evolves [OF this initial_ok [OF st(2)] assms(2)] configured.msteps_keep [OF this initial_ok [OF st(2)], of opts pol e]
  show ?thesis by (auto simp: initial_manager_def newborn_def)
qed

end
