(* ===== verification/BrokerDemo.thy ===== *)
theory BrokerDemo
  imports BrokerProtocol
begin

text \<open>
  A run of the broker from an empty manager to a published result, on concrete packages, clock and random
  generator: a session of two is created, joined, accepted and given two inputs, its thread is started and runs the
  model.  The instances of the broker's properties are states of this run.
\<close>

definition demo_bext :: bext where
  "demo_bext = \<lparr>bx_parse = \<lambda>_ s. if s = ''bad'' then Inl (ParseError ''syntax error'')
       else if s = ''1e999'' then Inl (OutOfRange ''number overflow'')
       else Inr (if s = ''schema'' then NObj [(''type'', NStr ''string'')] else NStr s),
     bx_dump = \<lambda>v. case v of NStr s \<Rightarrow> s | _ \<Rightarrow> [], bx_get_int = \<lambda>_. Inl refused, bx_re2 = \<lambda>_ _. True,
     bx_re2_capture = \<lambda>_ _. None, bx_duration = \<lambda>_. ''10m'', bx_replace_all = \<lambda>t _. t\<rparr>"

definition demo_definition :: policy_definition where
  "demo_definition = \<lparr>prompt_template = ''Find a slot'', default_input_schema_json = ''schema'', default_output_schema_json = ''schema''\<rparr>"

definition demo_msg :: policy_msg where
  "demo_msg = \<lparr>sp_class = ''calendar'', sp_input_schema = [], sp_output_schema = [], sp_participants = 2, sp_timeout = 0,
     sp_signature = [], sp_key_id = []\<rparr>"

definition demo_rand :: "nat \<Rightarrow> nat \<Rightarrow> bytes" where
  "demo_rand i n = replicate n (word_of_nat i)"

text \<open>A second per reading, until much later the next request comes.\<close>

definition demo_clock :: "nat \<Rightarrow> rat" where
  "demo_clock n = (if n < 9 then of_nat n else of_nat n + 10000)"

definition demo_start :: manager where
  "demo_start = initial_manager default_options [(''calendar'', demo_definition)] True demo_clock demo_rand"

definition demo_sid :: string where "demo_sid = BytesToHexString (demo_rand 0 16)"
definition demo_creator :: string where "demo_creator = BytesToHexString (demo_rand 1 32)"
definition demo_invitation :: string where "demo_invitation = BytesToHexString (demo_rand 2 32)"
definition demo_joiner :: string where "demo_joiner = BytesToHexString (demo_rand 3 32)"

lemma demo_keys [simp]:
  "BytesToHexString (demo_rand 0 16) = demo_sid" "BytesToHexString (demo_rand (Suc 0) 32) = demo_creator"
  "BytesToHexString (demo_rand (Suc (Suc 0)) 32) = demo_invitation" "BytesToHexString (demo_rand 3 32) = demo_joiner"
  by (simp_all add: demo_sid_def demo_creator_def demo_invitation_def demo_joiner_def numeral_2_eq_2)

text \<open>The second digit of a drawn string tells the number of the draw.\<close>

lemma demo_digit: "0 < n \<Longrightarrow> i < 16 \<Longrightarrow> BytesToHexString (demo_rand i n) ! Suc 0 = hex_char i"
  by (cases n) (simp_all add: BytesToHexString_def demo_rand_def unat_of_nat)

lemma demo_same: "BytesToHexString (demo_rand i n) = BytesToHexString (demo_rand j k) \<Longrightarrow> hex_char i = hex_char j"
  if "0 < n" "0 < k" "i < 16" "j < 16" for i j n k
  using that demo_digit by metis

lemma demo_digits: "distinct (map hex_char [0, 1, 2, 3, 4, 5, 6, 7])"
  by code_simp

lemma demo_distinct: "distinct [demo_creator, demo_invitation, demo_joiner]"
  unfolding demo_creator_def demo_invitation_def demo_joiner_def
  using demo_digits by (auto simp del: demo_keys dest!: demo_same [rotated 4])

lemma demo_neq [simp]: "demo_creator \<noteq> demo_joiner" "demo_joiner \<noteq> demo_creator" "demo_invitation \<noteq> demo_joiner" "demo_joiner \<noteq> demo_invitation"
  "demo_creator \<noteq> demo_invitation" "demo_invitation \<noteq> demo_creator"
  using demo_distinct by auto

section \<open>The states of the run\<close>

definition demo_person :: "string \<Rightarrow> bool \<Rightarrow> string \<Rightarrow> int \<Rightarrow> participant" where
  "demo_person tok acc input i = \<lparr>p_token = tok, p_accepted = acc, p_input_json = input, p_input_submitted = (input \<noteq> []), p_join_index = i\<rparr>"

definition demo_session :: "int \<Rightarrow> (string \<times> participant) list \<Rightarrow> string \<Rightarrow> rat \<Rightarrow> session" where
  "demo_session st ps result t = \<lparr>ss_id = demo_sid, ss_state = st,
     ss_policy = demo_msg\<lparr>sp_input_schema := ''schema'', sp_output_schema := ''schema'', sp_timeout := 300\<rparr>,
     ss_policy_def = demo_definition, ss_participants = ps, ss_result_json = result, ss_error_code = 0, ss_error_detail = [],
     ss_entered_at = t, ss_timeout = 300, ss_invitation_token = demo_invitation, ss_participant_tokens = map fst ps,
     ss_nonce_to_token = [], ss_creator_nonce = []\<rparr>"

definition demo_manager :: "nat \<Rightarrow> nat \<Rightarrow> session \<Rightarrow> job list \<Rightarrow> manager" where
  "demo_manager n draws s jobs = demo_start\<lparr>m_tick := n, m_draws := draws, m_sessions := [(demo_sid, s)],
     m_invitations := [(demo_invitation, demo_sid)], m_tokens := map (\<lambda>t. (t, demo_sid)) (ss_participant_tokens s),
     m_jobs := jobs, m_threads := int (length jobs)\<rparr>"

definition demo_two :: "bool \<Rightarrow> string \<Rightarrow> string \<Rightarrow> (string \<times> participant) list" where
  "demo_two acc i1 i2 = [(demo_creator, demo_person demo_creator True i1 0), (demo_joiner, demo_person demo_joiner acc i2 1)]"

definition demo_created :: manager where
  "demo_created = demo_manager 2 3 (demo_session OPEN [(demo_creator, demo_person demo_creator True [] 0)] [] 1) []"
definition demo_joined :: manager where "demo_joined = demo_manager 3 4 (demo_session OPEN (demo_two False [] []) [] 1) []"
definition demo_sealed :: manager where "demo_sealed = demo_manager 5 4 (demo_session SEALED (demo_two True [] []) [] 4) []"
definition demo_half :: manager where "demo_half = demo_manager 6 4 (demo_session SEALED (demo_two True ''Mon,Tue'' []) [] 4) []"
definition demo_full :: manager where
  "demo_full = demo_manager 8 4 (demo_session CALCULATING (demo_two True ''Mon,Tue'' ''Tue,Wed'') [] 7) [Spawning demo_sid]"
definition demo_started :: manager where
  "demo_started = demo_manager 8 4 (demo_session CALCULATING (demo_two True ''Mon,Tue'' ''Tue,Wed'') [] 7) [Started demo_sid]"
definition demo_running :: manager where
  "demo_running = demo_manager 8 5 (demo_session CALCULATING (demo_two True ''Mon,Tue'' ''Tue,Wed'') [] 7)
     [Inferring demo_sid ''Find a slot'' ''schema'']"
definition demo_answered :: manager where
  "demo_answered = demo_manager 8 5 (demo_session CALCULATING (demo_two True ''Mon,Tue'' ''Tue,Wed'') [] 7)
     [Writing demo_sid (Inr ''Tuesday'')]"
definition demo_closed :: manager where
  "demo_closed = demo_manager 9 5 (demo_session CLOSED (demo_two True ''Mon,Tue'' ''Tue,Wed'') ''Tuesday'' 8) [Leaving demo_sid]"

lemmas demo_defs = demo_manager_def demo_session_def demo_two_def demo_person_def demo_start_def initial_manager_def default_options_def
  demo_created_def demo_joined_def demo_sealed_def demo_half_def demo_full_def demo_started_def demo_running_def demo_answered_def demo_closed_def

lemmas demo_data = demo_clock_def demo_msg_def demo_bext_def demo_definition_def kMaxParticipants_def kMaxTimeoutSeconds_def
  kDefaultTimeoutSeconds_def kSessionIdBytes_def kParticipantTokenBytes_def kMaxOpenSeconds_def kMaxSealedSeconds_def kMaxInputBytes_def

lemmas broker_run = absl_Now_def GenerateRandomHex_def io_simps put_session_def ParseJsonSafely_def lookup_session_def
  Authenticate_def authenticate_def CheckAndEnforceTimeout_def effective_timeout_def joined_def on_participant_def enter_def

lemma create_demo:
  "CreateSession demo_bext demo_msg [] demo_start =
     (Inr \<lparr>cr_invitation = demo_invitation, cr_state = OPEN, cr_token = demo_creator\<rparr>, demo_created)"
  by (simp add: CreateSession_def SweepTerminalSessions_def create_checks_def create_replay_def GetPolicy_def check_schema_def
      create_new_def insert_session_def new_session_def new_participant_def timeout_secs_def broker_run demo_defs demo_data)

lemma join_demo: "JoinSession demo_bext demo_invitation [] demo_created =
    (Inr (join_answer (demo_session OPEN (demo_two False [] []) [] 1) demo_joiner), demo_joined)"
  by (simp add: JoinSession_def join_as_def join_new_def add_participant_def new_participant_def join_answer_def broker_run demo_defs demo_data)

lemma accept_demo: "AcceptPolicy demo_bext demo_joiner demo_joined = (Inr SEALED, demo_sealed)"
  by (simp add: AcceptPolicy_def accept_as_def all_accepted_def broker_run demo_defs demo_data)

lemma submit_demo:
  "SubmitInput_store demo_bext demo_creator ''Mon,Tue'' demo_sealed = (Inr (Inr \<lparr>sr_state = SEALED, sr_remaining = 1\<rparr>), demo_half)"
  "SubmitInput_store demo_bext demo_joiner ''Tue,Wed'' demo_half = (Inr (Inl demo_sid), demo_full)"
  by (simp_all add: SubmitInput_store_def submit_as_def submit_new_def check_input_def input_schema_of_def ValidateJsonSchema_def ValidateNode.simps
      store_input_def submitted_count_def dispatch_def broker_run demo_defs demo_data)

lemma spawn_demo: "SubmitInput_spawn demo_sid None demo_full = (Inr \<lparr>sr_state = CALCULATING, sr_remaining = 0\<rparr>, demo_started)"
  by (simp add: SubmitInput_spawn_def replace_job_def broker_run demo_defs demo_data)

lemma begin_demo: "ProcessSession_begin demo_bext demo_sid demo_started = (Inr (), demo_running)"
  by (simp add: ProcessSession_begin_def replace_job_def aggregated_prompt_def output_schema_of_def broker_run demo_defs demo_data)

definition demo_generate :: engine where
  "demo_generate i prompt n = (if i = 0 then Inl refused else Inr '' Tuesday '')"

lemma llm_demo: "run_llm demo_bext (Some demo_generate) ''Find a slot'' ''schema'' = Inr (Inr ''Tuesday'')"
  by code_simp

lemma finish_demo: "ProcessSession_finish demo_sid (Inr ''Tuesday'') demo_answered = (Inr (), demo_closed)"
  by (simp add: ProcessSession_finish_def replace_job_def broker_run demo_defs demo_data)

lemma result_demo:
  "GetResult demo_bext tok demo_closed =
     (if tok = demo_creator \<or> tok = demo_joiner
      then (Inr \<lparr>rr_state = CLOSED, rr_json = ''Tuesday'', rr_error = 0, rr_detail = []\<rparr>, demo_closed) else (Inl invalid_token, demo_closed))"
  by (simp add: GetResult_def result_of_def broker_run demo_defs demo_data)

section \<open>They are reachable\<close>

lemma demo_fresh: "fresh_draws demo_start" "fresh_draws demo_created"
proof -
  have "\<forall>i\<in>{3, 4, 5}. \<forall>k\<in>{16, 32}. BytesToHexString (demo_rand i k) \<notin> {demo_sid, demo_invitation, demo_creator}"
    unfolding demo_sid_def demo_creator_def demo_invitation_def using demo_digits
    by (auto simp del: demo_keys dest!: demo_same [rotated 4])
  then show "fresh_draws demo_created" by (simp add: fresh_draws_def demo_defs in_use_def)
qed (simp add: fresh_draws_def demo_start_def initial_manager_def in_use_def)

lemma reach_start: "broker_reach demo_bext demo_start"
  unfolding broker_reach_def demo_start_def 
  by (rule exI [of _ default_options], (rule exI)+, rule conjI, simp add: default_options_def, rule rtranclp.rtrancl_refl)

lemma reach_created: "broker_reach demo_bext demo_created"
  using broker_reach_step [OF reach_start Create [OF demo_fresh(1), of _ demo_msg "[]"]] by (simp add: create_demo)

lemma reach_joined: "broker_reach demo_bext demo_joined"
  using broker_reach_step [OF reach_created broker_step.Join [OF demo_fresh(2), of _ demo_invitation "[]"]] by (simp add: join_demo)

lemma reach_sealed: "broker_reach demo_bext demo_sealed"
  using broker_reach_step [OF reach_joined Accept [of _ _ demo_joiner]] by (simp add: accept_demo)

lemma reach_half: "broker_reach demo_bext demo_half"
  using broker_reach_step [OF reach_sealed broker_step.Submit [of _ _ demo_creator "''Mon,Tue''"]] by (simp add: submit_demo)

lemma reach_full: "broker_reach demo_bext demo_full"
  using broker_reach_step [OF reach_half broker_step.Submit [of _ _ demo_joiner "''Tue,Wed''"]] by (simp add: submit_demo)

lemma reach_started: "broker_reach demo_bext demo_started"
  using broker_reach_step [OF reach_full Spawn [of demo_sid _ _ None]] by (simp add: spawn_demo) (simp add: demo_full_def demo_manager_def)

lemma reach_running: "broker_reach demo_bext demo_running"
  using broker_reach_step [OF reach_started Begin [of demo_sid]] by (simp add: begin_demo) (simp add: demo_started_def demo_manager_def)

lemma reach_answered: "broker_reach demo_bext demo_answered"
proof -
  have "broker_step demo_bext demo_running (replace_job (Inferring demo_sid ''Find a slot'' ''schema'') [Writing demo_sid (Inr ''Tuesday'')] demo_running)"
    by (rule Infer [of _ _ _ _ _ demo_generate]) (simp_all add: demo_running_def demo_manager_def demo_start_def initial_manager_def llm_demo)
  moreover have "replace_job (Inferring demo_sid ''Find a slot'' ''schema'') [Writing demo_sid (Inr ''Tuesday'')] demo_running = demo_answered"
    by (simp add: replace_job_def demo_defs)
  ultimately show ?thesis using broker_reach_step [OF reach_running] by simp
qed

lemma reach_closed: "broker_reach demo_bext demo_closed"
  using broker_reach_step [OF reach_answered Finish [of demo_sid "Inr ''Tuesday''"]]
  by (simp add: finish_demo) (simp add: demo_answered_def demo_manager_def)

end
