(* ===== verification/BrokerSafety.thy ===== *)
theory BrokerSafety
  imports BrokerDemo
begin

text \<open>
  What the participants of a session can rely on: no result without everyone's consent and input, no answer about a
  session to anyone else, no effect of a refused request, no change of what was agreed on, a thread for every session
  that is being computed, and the ends of the timeouts.
\<close>

section \<open>Results and consent\<close>

lemma consent_counts:
  assumes "session_ok x s" "ss_state s = CALCULATING \<or> ss_state s = CLOSED"
  shows "joined s = ss_expected s" "accepted_count s = ss_expected s" "submitted_count s = ss_expected s"
  using assms submitted_count_full [of s]
  by (auto simp: session_ok_def phase_ok_def all_accepted_def accepted_count_def joined_def simp flip: filter_full)

text \<open>The valid tokens are those of the participants, and each of them names its session.\<close>

lemma tokens_of: "manager_ok x m \<Longrightarrow> map_of (m_sessions m) sid = Some s \<Longrightarrow> set (ss_participant_tokens s) = token_keys s"
  using manager_okD(2) by (fastforce simp: session_ok_def shape_ok_def Let_def token_keys_def)

lemma authenticate_token:
  assumes "manager_ok x m" "authenticate tok m = Inr (s, p)"
  shows "tok \<in> set (ss_participant_tokens s)"
  using authenticateD [OF assms(2,1)] tokens_of [OF assms(1)] map_of_keyD [of "ss_participants s" tok p] by (auto simp: token_keys_def)

lemma wp_GetResult:
  assumes "manager_ok x m"
  shows "wp (GetResult x tok) (\<lambda>r m'. \<exists>s0 p s. authenticate tok m = Inr (s0, p) \<and> checked x m s0 s m' \<and> r = result_of s)
    (\<lambda>e m'. authenticate tok m = Inl e \<and> m' = m) m"
  unfolding GetResult_def by (rule wp_auth_check [OF assms]) (auto simp: wp_simps)

lemma checked_closed: "checked x m s0 s m' \<Longrightarrow> ss_state s = CLOSED \<Longrightarrow> s = s0"
  by (cases rule: checked.cases) (auto dest: timed_out_sel)

text \<open>The session behind a result: it was closed before the call, so everyone took part.\<close>

lemma GetResult_closed:
  assumes "broker_reach x m" "GetResult x tok m = (Inr r, m')" "rr_state r = CLOSED"
  shows "\<exists>s. map_of (m_sessions m) (ss_id s) = Some s \<and> tok \<in> set (ss_participant_tokens s) \<and> ss_state s = CLOSED
    \<and> rr_json r = ss_result_json s \<and> output_ok x s (rr_json r)
    \<and> joined s = ss_expected s \<and> accepted_count s = ss_expected s \<and> submitted_count s = ss_expected s"
proof -
  note ok = broker_reach_ok [OF assms(1)]
  from wpD [OF wp_GetResult [OF ok] assms(2)] obtain s0 p s where
    a: "authenticate tok m = Inr (s0, p)" "checked x m s0 s m'" "r = result_of s" by blast
  then have st: "ss_state s = CLOSED" "s = s0" using assms(3) checked_closed by (auto simp: result_of_def split: if_splits)
  note s0 = manager_okD(2) [OF ok authenticateD(2) [OF a(1) ok]]
  show ?thesis using st a(3) consent_counts [OF s0] s0 authenticateD(2) [OF a(1) ok] authenticate_token [OF ok a(1)]
    by (intro exI [of _ s0]) (auto simp: result_of_def session_ok_def content_ok_def)
qed

lemma GetResult_state:
  assumes "broker_reach x m" "GetResult x tok m = (Inr r, m')" "rr_json r \<noteq> []"
  shows "rr_state r = CLOSED"
  using wpD [OF wp_GetResult [OF broker_reach_ok [OF assms(1)]] assms(2)] assms(3)
  by (auto simp: result_of_def split: if_splits)

text \<open>
  C6. A result is handed out by \<^verbatim>\<open>GetResult\<close> only for a session that everyone expected has joined, accepted and given an
  input to, to one of its participants, and it satisfies the output schema of the session's policy.
\<close>

theorem result_needs_consent:
  assumes "broker_reach x m" "GetResult x tok m = (Inr r, m')" "rr_json r \<noteq> []"
  shows "\<exists>s. map_of (m_sessions m) (ss_id s) = Some s \<and> tok \<in> set (ss_participant_tokens s) \<and> rr_state r = CLOSED
    \<and> rr_json r = ss_result_json s \<and> output_ok x s (rr_json r)
    \<and> joined s = ss_expected s \<and> accepted_count s = ss_expected s \<and> submitted_count s = ss_expected s"
  using GetResult_closed [OF assms(1,2)] GetResult_state [OF assms] by blast

theorem result_needs_consent_witness:
  "\<exists>s. map_of (m_sessions demo_closed) (ss_id s) = Some s \<and> demo_joiner \<in> set (ss_participant_tokens s)
    \<and> submitted_count s = ss_expected s"
  using result_needs_consent [OF reach_closed, of demo_joiner "\<lparr>rr_state = CLOSED, rr_json = ''Tuesday'', rr_error = 0, rr_detail = []\<rparr>"
      demo_closed] by (auto simp: result_demo)

section \<open>The protocol of a session\<close>

text \<open>
  Every step of the broker moves every session along the protocol: its policy stays as it was agreed, members are only
  added, consent is not withdrawn, a stored input is not replaced, and the phases follow each other in order.
\<close>

theorem broker_step_refines:
  assumes "broker_reach x m" "broker_step x m m'" "map_of (m_sessions m) sid = Some s" "map_of (m_sessions m') sid = Some s'"
  shows "evolves s s'"
  by (rule step_evolves [OF broker_reach_ok [OF assms(1)] assms(2-4)])

theorem broker_step_refines_witness:
  "evolves (demo_session SEALED (demo_two True ''Mon,Tue'' []) [] 4) (demo_session CALCULATING (demo_two True ''Mon,Tue'' ''Tue,Wed'') [] 7)"
proof (rule broker_step_refines [OF reach_half, of demo_full demo_sid])
  show "broker_step demo_bext demo_half demo_full"
    using broker_step.Submit [of demo_bext demo_half demo_joiner "''Tue,Wed''"] by (simp add: submit_demo)
qed (simp_all add: demo_half_def demo_full_def demo_manager_def)

text \<open>
  C13. The state of every session is one that the protocol reaches from its creation, and its policy and
  schemas are those of the definition that its class has in the registry, whatever the creator sent in their place; and
  every further step of the broker that leaves the session in the map moves it along the protocol.
\<close>

theorem session_history:
  assumes "broker_reach x m" "map_of (m_sessions m) sid = Some s"
  shows "(\<exists>c. (proto (ss_expected s))\<^sup>*\<^sup>* (Gathering [c] {c}) (phase_of s))
    \<and> map_of (m_policies m) (sp_class (ss_policy s)) = Some (ss_policy_def s)
    \<and> sp_input_schema (ss_policy s) = default_input_schema_json (ss_policy_def s)
    \<and> sp_output_schema (ss_policy s) = default_output_schema_json (ss_policy_def s)
    \<and> (\<forall>m' s'. broker_step x m m' \<and> map_of (m_sessions m') sid = Some s' \<longrightarrow> evolves s s')"
proof -
  from reach_history [OF assms] obtain s0 where "newborn m s0" "evolves s0 s" by blast
  then have "(\<exists>c. (proto (ss_expected s))\<^sup>*\<^sup>* (Gathering [c] {c}) (phase_of s))
      \<and> map_of (m_policies m) (sp_class (ss_policy s)) = Some (ss_policy_def s)"
    by (auto simp: newborn_def evolves_def)
  moreover have "pinned s" using manager_okD(2) [OF broker_reach_ok [OF assms(1)] assms(2)] by (simp add: session_ok_def)
  ultimately show ?thesis using step_evolves [OF broker_reach_ok [OF assms(1)] _ assms(2)] unfolding pinned_def by blast
qed

theorem session_history_witness:
  "\<exists>c. (proto 2)\<^sup>*\<^sup>* (Gathering [c] {c}) (Done ''Tuesday'')"
  using session_history [OF reach_closed, of demo_sid "demo_session CLOSED (demo_two True ''Mon,Tue'' ''Tue,Wed'') ''Tuesday'' 8"]
  by (simp add: demo_closed_def demo_manager_def demo_session_def demo_msg_def phase_of_def)

section \<open>Threads\<close>

text \<open>
  C19. A session in the state \<^verbatim>\<open>CALCULATING\<close> has exactly one background thread, which has not given up on it, and the count
  the destructor waits for is the number of threads.
\<close>

theorem calculating_has_worker:
  assumes "broker_reach x m" "map_of (m_sessions m) sid = Some s" "ss_state s = CALCULATING"
  shows "(\<exists>!j. j \<in> set (m_jobs m) \<and> job_sid j = sid) \<and> Leaving sid \<notin> set (m_jobs m) \<and> m_threads m = int (length (m_jobs m))"
proof -
  note m = manager_ok_parts [OF broker_reach_ok [OF assms(1)]]
  have "sid \<in> job_sid ` set (m_jobs m)" using m(7) assms(2,3) by (auto simp: jobs_ok_def)
  moreover have "inj_on job_sid (set (m_jobs m))" using m(7) by (simp add: jobs_ok_def distinct_map)
  ultimately have "\<exists>!j. j \<in> set (m_jobs m) \<and> job_sid j = sid" by (auto simp: inj_on_def)
  moreover have "Leaving sid \<notin> set (m_jobs m)"
    using m(7) assms(2,3) by (auto simp: jobs_ok_def job_ok_def dest: bspec [of _ _ "Leaving sid"])
  ultimately show ?thesis using m(8) by blast
qed

theorem calculating_has_worker_witness: "\<exists>!j. j \<in> set (m_jobs demo_full) \<and> job_sid j = demo_sid"
  using calculating_has_worker [OF reach_full, of demo_sid "demo_session CALCULATING (demo_two True ''Mon,Tue'' ''Tue,Wed'') [] 7"]
  by (simp add: demo_full_def demo_manager_def demo_session_def)

section \<open>Isolation\<close>

text \<open>
  A request that carries a participant token leaves every session but that of the token as it was.
\<close>

abbreviation leaves :: "manager \<Rightarrow> string \<Rightarrow> manager \<Rightarrow> bool" where
  "leaves m sid m' \<equiv> map_of (m_sessions m') sid = map_of (m_sessions m) sid"

lemma isolated:
  assumes ok: "manager_ok x m" and other: "map_of (m_tokens m) tok \<noteq> Some sid"
    and body: "\<And>p s m'. ss_id s \<noteq> sid \<Longrightarrow> leaves m sid m' \<Longrightarrow> wp (body p s) Q (\<lambda>_. leaves m sid) m'"
  shows "wp (io_bind (Authenticate tok) (\<lambda>(s0, p). io_bind (CheckAndEnforceTimeout x s0) (body p))) Q (\<lambda>_. leaves m sid) m"
proof (rule wp_auth_check [OF ok])
  fix s0 p s m'
  assume a: "authenticate tok m = Inr (s0, p)" "map_of (m_sessions m) (ss_id s0) = Some s0" "checked x m s0 s m'"
  have "ss_id s0 \<noteq> sid" using authenticateD(1) [OF a(1) ok] other by auto
  then show "wp (body p s) Q (\<lambda>_. leaves m sid) m'"
    using checkedD(4,8) [OF a(3,2)] by (intro body) auto
qed simp

lemma wp_snd: "wp prog (\<lambda>_. P) (\<lambda>_. P) m \<longleftrightarrow> P (snd (prog m))"
  by (cases "prog m"; cases "fst (prog m)") (auto simp: wp_def)

lemma spawn_leaves:
  assumes "leaves m sid m'" "k \<noteq> sid" "\<And>s. map_of (m_sessions m') k = Some s \<Longrightarrow> ss_id s = k"
  shows "wp (SubmitInput_spawn k failure) (\<lambda>_. leaves m sid) (\<lambda>_. leaves m sid) m'"
  using assms by (auto simp: SubmitInput_spawn_def wp_simps split: option.split)

text \<open>
  C20. A request with a participant's token leaves every session but the token's own as it was: accepting, submitting (the
  locked section alone, and with the start of the thread or its failure), polling for the result and asking for the status
  never touch another session.
\<close>

theorem sessions_isolated:
  assumes "broker_reach x m" "map_of (m_tokens m) tok \<noteq> Some sid"
  shows "leaves m sid (snd (AcceptPolicy x tok m)) \<and> leaves m sid (snd (SubmitInput_store x tok input m))
    \<and> leaves m sid (snd (SubmitInput x failure tok input m))
    \<and> leaves m sid (snd (GetResult x tok m)) \<and> leaves m sid (snd (GetSessionStatus x tok m))"
proof -
  note ok = broker_reach_ok [OF assms(1)] and iso = isolated [OF broker_reach_ok [OF assms(1)] assms(2)]
  have "wp (AcceptPolicy x tok) (\<lambda>_. leaves m sid) (\<lambda>_. leaves m sid) m"
    unfolding AcceptPolicy_def by (rule iso) (auto simp: accept_as_def wp_simps Let_def)
  moreover have store: "wp (SubmitInput_store x tok input) (\<lambda>r m'. leaves m sid m' \<and> (\<forall>k. r = Inl k \<longrightarrow> k \<noteq> sid)) (\<lambda>_. leaves m sid) m"
    unfolding SubmitInput_store_def
    by (rule iso) (auto simp: submit_as_def submit_new_def store_input_def wp_simps Let_def split: sum.split)
  moreover have "wp (SubmitInput x failure tok input) (\<lambda>_. leaves m sid) (\<lambda>_. leaves m sid) m"
    unfolding SubmitInput_def wp_bind
    by (rule wp_mono [OF wp_conj [OF store SubmitInput_store_runs [OF ok, where U = "{}"]]])
      (auto simp: wp_simps split: sum.split intro!: spawn_leaves manager_okD(1) [OF msteps_ok [OF _ ok]])
  moreover have "wp (GetResult x tok) (\<lambda>_. leaves m sid) (\<lambda>_. leaves m sid) m"
    unfolding GetResult_def by (rule iso) (auto simp: wp_simps)
  moreover have "wp (GetSessionStatus x tok) (\<lambda>_. leaves m sid) (\<lambda>_. leaves m sid) m"
    unfolding GetSessionStatus_def by (rule iso) (auto simp: wp_simps)
  moreover have "wp (SubmitInput_store x tok input) (\<lambda>_. leaves m sid) (\<lambda>_. leaves m sid) m" using store by (rule wp_mono) auto
  ultimately show ?thesis by (simp add: wp_snd)
qed

theorem sessions_isolated_witness:
  "map_of (m_sessions (snd (SubmitInput demo_bext None demo_invitation ''Mon'' demo_sealed))) demo_sid = map_of (m_sessions demo_sealed) demo_sid"
  using sessions_isolated [OF reach_sealed, of demo_invitation demo_sid "''Mon''" None]
  by (simp add: demo_sealed_def demo_manager_def demo_session_def demo_two_def)

lemma authenticate_iff:
  assumes ok: "manager_ok x m"
  shows "(\<exists>p. authenticate tok m = Inr (s, p)) \<longleftrightarrow> map_of (m_sessions m) (ss_id s) = Some s \<and> tok \<in> set (ss_participant_tokens s)"
    (is "?auth \<longleftrightarrow> ?member")
proof
  assume ?auth then show ?member using authenticateD(2) [OF _ ok] authenticate_token [OF ok] by blast
next
  assume m: ?member
  then have "tok \<in> token_keys s" using tokens_of [OF ok] by blast
  moreover from this have "map_of (m_tokens m) tok = Some (ss_id s)"
    using indexedI [OF manager_ok_parts(5) [OF ok]] m by blast
  ultimately show ?auth using m by (auto simp: authenticate_def lookup_session_def token_keys_def map_of_eq_None_iff split: option.split)
qed

lemma authenticate_error: "authenticate tok m = Inl e \<Longrightarrow> e = invalid_token"
  by (auto simp: authenticate_def lookup_session_def rbind_eq_Inl split: option.splits)

text \<open>
  C22. A string is accepted as a token exactly when it is the token of a participant of a session that exists; with any other
  string every request of a participant is answered with the one error \<^verbatim>\<open>Invalid token\<close> and changes nothing.
\<close>

theorem token_decides:
  assumes "broker_reach x m"
  shows "if \<exists>s. map_of (m_sessions m) (ss_id s) = Some s \<and> tok \<in> set (ss_participant_tokens s)
    then \<exists>s p. authenticate tok m = Inr (s, p) \<and> tok \<in> set (ss_participant_tokens s)
    else AcceptPolicy x tok m = (Inl invalid_token, m) \<and> SubmitInput_store x tok input m = (Inl invalid_token, m)
      \<and> SubmitInput x failure tok input m = (Inl invalid_token, m)
      \<and> GetResult x tok m = (Inl invalid_token, m) \<and> GetSessionStatus x tok m = (Inl invalid_token, m)"
proof (cases "authenticate tok m")
  case (Inl e)
  then have "\<nexists>s. map_of (m_sessions m) (ss_id s) = Some s \<and> tok \<in> set (ss_participant_tokens s)"
    using authenticate_iff [OF broker_reach_ok [OF assms], of tok] by (metis Inl_Inr_False)
  then show ?thesis using Inl authenticate_error [OF Inl]
    by (auto simp: AcceptPolicy_def SubmitInput_def SubmitInput_store_def GetResult_def GetSessionStatus_def Authenticate_def io_simps)
next
  case (Inr sp)
  then show ?thesis using authenticate_iff [OF broker_reach_ok [OF assms], of tok "fst sp"] by (cases sp) auto
qed

theorem token_decides_witness: "SubmitInput demo_bext None demo_invitation ''Mon'' demo_sealed = (Inl invalid_token, demo_sealed)"
proof -
  have "\<nexists>s. map_of (m_sessions demo_sealed) (ss_id s) = Some s \<and> demo_invitation \<in> set (ss_participant_tokens s)"
    by (auto simp: demo_sealed_def demo_manager_def demo_session_def demo_two_def split: if_splits)
  then show ?thesis using token_decides [OF reach_sealed, of demo_invitation "''Mon''" None] by simp
qed

section \<open>Refused requests\<close>

text \<open>Nothing but the timeout check has had an effect.\<close>

definition only_timeouts :: "bext \<Rightarrow> manager \<Rightarrow> manager \<Rightarrow> bool" where
  "only_timeouts x m m' \<longleftrightarrow> same_surface m m' \<and> (\<forall>sid. map_of (m_sessions m') sid = map_of (m_sessions m) sid \<or>
     (\<exists>s s'. map_of (m_sessions m) sid = Some s \<and> map_of (m_sessions m') sid = Some s' \<and> timed_out x (m_options m) s s'))"

lemma only_timeouts_refl: "only_timeouts x m m"
  by (simp add: only_timeouts_def same_surface_refl)

lemma only_timeouts_participants:
  assumes "only_timeouts x m m'" "map_of (m_sessions m) sid = Some s" "map_of (m_sessions m') sid = Some s'"
  shows "ss_participants s' = ss_participants s"
  using assms by (auto simp: only_timeouts_def dest!: spec [of _ sid] timed_out_sel)

lemma checked_only_timeouts:
  assumes "checked x m s s' m'" "map_of (m_sessions m) (ss_id s) = Some s"
  shows "only_timeouts x m m'"
  using assms
proof (cases rule: checked.cases)
  case (Expired t)
  have "ss_id s' = ss_id s" using checkedD(4) [OF assms] .
  then show ?thesis using checkedD(2) [OF assms] Expired assms(2) by (auto simp: only_timeouts_def)
qed (simp add: only_timeouts_def same_surface_def)

text \<open>
  The one refusal that comes after the change: the last input has been stored, and then the system refuses the thread.  The
  session is aborted with the reason; nothing else is different, and no thread is counted.
\<close>

definition spawn_refused :: "string option \<Rightarrow> string \<Rightarrow> manager \<Rightarrow> exn \<Rightarrow> manager \<Rightarrow> bool" where
  "spawn_refused failure tok m e m' \<longleftrightarrow> (\<exists>what sid s s'. failure = Some what
     \<and> e = InternalError ''Failed to spawn LLM background thread: resource exhausted''
     \<and> map_of (m_tokens m) tok = Some sid \<and> map_of (m_sessions m) sid = Some s \<and> map_of (m_sessions m') sid = Some s'
     \<and> ss_state s = SEALED \<and> ss_state s' = ABORTED \<and> ss_error_detail s' = ''Failed to spawn inference thread: '' @ what
     \<and> all_inputs s' \<and> same_surface m m' \<and> (\<forall>k. k \<noteq> sid \<longrightarrow> map_of (m_sessions m') k = map_of (m_sessions m) k))"

text \<open>The state after the locked section when the inputs are complete.\<close>

definition completed_by :: "string \<Rightarrow> manager \<Rightarrow> string \<Rightarrow> manager \<Rightarrow> bool" where
  "completed_by tok m sid m' \<longleftrightarrow> (\<exists>s m1 s1. map_of (m_tokens m) tok = Some sid \<and> map_of (m_sessions m) sid = Some s \<and> ss_state s = SEALED
     \<and> all_inputs s1 \<and> ss_id s1 = sid \<and> same_surface m m1 \<and> m_sessions m1 = m_sessions m \<and> m' = dispatch sid (put_session s1 m1))"

lemma all_inputs_enter [simp]: "all_inputs (enter st t s) = all_inputs s" "all_inputs (abort_session e d s) = all_inputs s"
  by (simp_all add: all_inputs_def)

lemma checked_sealed: "checked x m s0 s m' \<Longrightarrow> ss_state s = SEALED \<Longrightarrow> s = s0 \<and> (\<exists>t. m' = m\<lparr>m_tick := t\<rparr>)"
  by (cases rule: checked.cases) (auto dest: timed_out_sel)

lemma store_effect:
  assumes ok: "manager_ok x m"
  shows "wp (SubmitInput_store x tok input) (\<lambda>r m'. \<forall>sid. r = Inl sid \<longrightarrow> completed_by tok m sid m') (\<lambda>_. only_timeouts x m) m"
  unfolding SubmitInput_store_def
proof (rule wp_auth_check [OF ok])
  fix s0 p s m'
  assume a: "authenticate tok m = Inr (s0, p)" "map_of (m_sessions m) (ss_id s0) = Some s0" "checked x m s0 s m'"
  have full: "completed_by tok m (ss_id s) (dispatch (ss_id s) (put_session (enter CALCULATING now (store_input tok j s)) (m'\<lparr>m_tick := t\<rparr>)))"
    if st: "ss_state s = SEALED" "ss_expected s = submitted_count (store_input tok j s)" for now j t
  proof -
    obtain t0 where c: "s = s0" "m' = m\<lparr>m_tick := t0\<rparr>" using checked_sealed [OF a(3) st(1)] by blast
    have "joined s = ss_expected s" using manager_okD(2) [OF ok a(2)] st(1) c(1) by (simp add: session_ok_def phase_ok_def all_accepted_def)
    then have "all_inputs (store_input tok j s)" using st(2) submitted_count_full [of "store_input tok j s"] by (simp add: store_input_def)
    then show ?thesis unfolding completed_by_def using a(2) c st(1) authenticateD(1) [OF a(1) ok]
      by (intro exI [of _ s] exI [of _ "m'\<lparr>m_tick := t\<rparr>"] exI [of _ "enter CALCULATING now (store_input tok j s)"])
        (simp add: store_input_def same_surface_def)
  qed
  show "wp (submit_as x tok input p s) (\<lambda>r m'. \<forall>sid. r = Inl sid \<longrightarrow> completed_by tok m sid m') (\<lambda>_. only_timeouts x m) m'"
    using checked_only_timeouts [OF a(3,2)] full
    by (auto simp: submit_as_def submit_new_def wp_simps Let_def store_input_def split: sum.split)
qed (simp add: only_timeouts_refl)

lemma spawn_effect:
  assumes "completed_by tok m sid m'" "SubmitInput_spawn sid failure m' = (Inl e, m'')" "manager_ok x m"
  shows "spawn_refused failure tok m e m''"
proof -
  from assms(1) obtain s m1 s1 where c: "map_of (m_tokens m) tok = Some sid" "map_of (m_sessions m) sid = Some s" "ss_state s = SEALED"
    "all_inputs s1" "ss_id s1 = sid" "same_surface m m1" "m_sessions m1 = m_sessions m" "m' = dispatch sid (put_session s1 m1)"
    unfolding completed_by_def by blast
  from assms(2) obtain what where f: "failure = Some what" by (cases failure) (auto simp: SubmitInput_spawn_def io_simps)
  let ?s = "abort_session SESSION_ERROR_UNSPECIFIED (''Failed to spawn inference thread: '' @ what) s1"
  have "Spawning sid \<notin> set (m_jobs m)"
    using jobs_ok_idle [OF manager_ok_jobsD [OF assms(3)] c(2)] c(3) by force
  then have jobs: "remove1 (Spawning sid) (m_jobs m1 @ [Spawning sid]) = m_jobs m1" using c(6) by (simp add: same_surface_def remove1_append)
  have s1: "map_of (m_sessions m') sid = Some s1" using c by simp
  then have "m'' = put_session ?s (replace_job (Spawning sid) [] (m_threads_update (\<lambda>n. n - 1) m'))
      \<and> e = InternalError ''Failed to spawn LLM background thread: resource exhausted''"
    using assms(2) f by (auto simp: SubmitInput_spawn_def io_simps)
  moreover have "map fst (m_sessions (put_session ?s (put_session s1 m1))) = map fst (m_sessions m)"
    using c put_session_keys(2) [of m1 s1] put_session_keys(2) [of "put_session s1 m1" ?s] by simp
  ultimately show ?thesis using c f jobs unfolding spawn_refused_def
    by (intro exI [of _ what] exI [of _ sid] exI [of _ s] exI [of _ ?s])
      (auto simp: same_surface_def put_session_def replace_job_def dispatch_def update_conv')
qed

text \<open>
  C26. A refused request has no effect: when joining, accepting or submitting is answered with an error, the participants, consents,
  inputs, tokens and threads are what they were; at most a session whose time had run out anyway is marked as aborted.  The
  only other case is a submission that completed the inputs and for which the system then refuses a thread: it is answered
  with \<^verbatim>\<open>INTERNAL\<close>, and the caller's session, \<^verbatim>\<open>SEALED\<close> before, is \<^verbatim>\<open>ABORTED\<close> with that reason, no other session, token or thread being touched.
\<close>

theorem refused_no_effect:
  assumes "broker_reach x m"
  shows "(\<forall>e m'. JoinSession x invitation nonce m = (Inl e, m') \<longrightarrow> only_timeouts x m m')
    \<and> (\<forall>e m'. AcceptPolicy x tok m = (Inl e, m') \<longrightarrow> only_timeouts x m m')
    \<and> (\<forall>e m'. SubmitInput_store x tok input m = (Inl e, m') \<longrightarrow> only_timeouts x m m')
    \<and> (\<forall>e m'. SubmitInput x failure tok input m = (Inl e, m') \<longrightarrow> only_timeouts x m m' \<or> spawn_refused failure tok m e m')"
proof -
  note ok = broker_reach_ok [OF assms]
  have "wp (JoinSession x invitation nonce) (\<lambda>_ _. True) (\<lambda>_. only_timeouts x m) m"
  proof (cases "lookup_session (m_invitations m) invitation m")
    case (Inr s0)
    have "wp (join_as nonce s) (\<lambda>_ _. True) (\<lambda>_. only_timeouts x m) m'" if "checked x m s0 s m'" for s m'
      using checked_only_timeouts [OF that lookup_sessionD(2) [OF Inr ok]]
      by (simp add: join_as_def join_new_def wp_simps split: option.split)
    then show ?thesis using Inr by (simp add: JoinSession_def wp_simps wp_check)
  qed (simp add: JoinSession_def wp_simps only_timeouts_refl)
  moreover have "wp (AcceptPolicy x tok) (\<lambda>_ _. True) (\<lambda>_. only_timeouts x m) m"
    unfolding AcceptPolicy_def
    by (rule wp_auth_check [OF ok]) (auto simp: accept_as_def wp_simps Let_def only_timeouts_refl intro: checked_only_timeouts)
  moreover have "only_timeouts x m m' \<or> spawn_refused failure tok m e m'" if run: "SubmitInput x failure tok input m = (Inl e, m')" for e m'
  proof (cases "fst (SubmitInput_store x tok input m)")
    case (Inl e1)
    then have "SubmitInput_store x tok input m = (Inl e, m')" using run by (auto simp: SubmitInput_def io_simps split: prod.splits)
    then show ?thesis using wpD_exn [OF store_effect [OF ok]] by blast
  next
    case (Inr stored)
    obtain m1 where m1: "SubmitInput_store x tok input m = (Inr stored, m1)" using Inr by (metis prod.collapse)
    then obtain sid where "stored = Inl sid" "SubmitInput_spawn sid failure m1 = (Inl e, m')"
      using run by (cases stored) (auto simp: SubmitInput_def io_simps)
    then show ?thesis using wpD [OF store_effect [OF ok] m1] spawn_effect [OF _ _ ok] by blast
  qed
  ultimately show ?thesis using wpD_exn [OF store_effect [OF ok]] by (auto dest: wpD_exn)
qed

text \<open>Of the two submissions below the first is refused as it is no JSON; for the second there is no thread.\<close>

theorem refused_no_effect_witness:
  "only_timeouts demo_bext demo_sealed (snd (SubmitInput demo_bext None demo_creator ''bad'' demo_sealed))
   \<and> (\<exists>e. fst (SubmitInput demo_bext (Some ''EAGAIN'') demo_joiner ''Tue,Wed'' demo_half) = Inl e \<and>
     spawn_refused (Some ''EAGAIN'') demo_joiner demo_half e (snd (SubmitInput demo_bext (Some ''EAGAIN'') demo_joiner ''Tue,Wed'' demo_half)))"
proof
  have "fst (SubmitInput demo_bext None demo_creator ''bad'' demo_sealed) =
      Inl (InvalidArgumentError (''JSON parse error (possibly exceeded max depth '' @ nat_str 32 @ ''): syntax error''))"
    by (simp add: SubmitInput_def SubmitInput_store_def submit_as_def submit_new_def kMaxJsonParseDepth_def broker_run demo_defs demo_data)
  then show "only_timeouts demo_bext demo_sealed (snd (SubmitInput demo_bext None demo_creator ''bad'' demo_sealed))"
    using refused_no_effect [OF reach_sealed, of "[]" "[]" demo_creator "''bad''" None]
    by (cases "SubmitInput demo_bext None demo_creator ''bad'' demo_sealed") (auto simp: spawn_refused_def)
  let ?r = "SubmitInput demo_bext (Some ''EAGAIN'') demo_joiner ''Tue,Wed'' demo_half"
  let ?s = "demo_session CALCULATING (demo_two True ''Mon,Tue'' ''Tue,Wed'') [] 7"
  have r: "?r = SubmitInput_spawn demo_sid (Some ''EAGAIN'') demo_full" by (simp add: SubmitInput_def submit_demo io_simps)
  have f: "map_of (m_sessions demo_full) demo_sid = Some ?s" "map_of (m_sessions demo_half) demo_sid = Some (demo_session SEALED (demo_two True ''Mon,Tue'' []) [] 4)"
    by (simp_all add: demo_full_def demo_half_def demo_manager_def)
  have e: "fst ?r = Inl (InternalError ''Failed to spawn LLM background thread: resource exhausted'')"
    unfolding r by (simp add: SubmitInput_spawn_def io_simps f)
  have "map_of (m_sessions (snd ?r)) demo_sid = Some (abort_session SESSION_ERROR_UNSPECIFIED ''Failed to spawn inference thread: EAGAIN'' ?s)"
    unfolding r by (simp add: SubmitInput_spawn_def io_simps f put_session_def update_conv' demo_session_def abort_session_def replace_job_def)
  note a = only_timeouts_participants [OF _ f(2) this]
  have "\<not> only_timeouts demo_bext demo_half (snd ?r)"
    by (rule notI, drule a) (simp add: demo_session_def demo_two_def demo_person_def)
  then show "\<exists>e. fst ?r = Inl e \<and> spawn_refused (Some ''EAGAIN'') demo_joiner demo_half e (snd ?r)"
    using refused_no_effect [OF reach_half, of "[]" "[]" demo_joiner "''Tue,Wed''" "Some ''EAGAIN''"] e by (cases ?r) auto
qed

end
