(* ===== verification/BrokerProgress.thy ===== *)
theory BrokerProgress
  imports BrokerSafety
begin

text \<open>
  How sessions end: which sessions a sweep removes, and that every computation comes to an end in every fair interleaving of
  the requests and the threads.
\<close>

section \<open>Which sessions disappear\<close>

definition exists_in :: "string \<Rightarrow> manager \<Rightarrow> bool" where
  "exists_in sid m \<longleftrightarrow> map_of (m_sessions m) sid \<noteq> None"

text \<open>No handler but the creation of a session, and no section of a thread, removes a session.\<close>

lemma keeps_put: "keeps (exists_in sid) (io_modify (put_session s))"
  by (rule keeps_modify) (simp add: exists_in_def)

lemma keeps_sessions: "(\<And>m. m_sessions (f m) = m_sessions m) \<Longrightarrow> keeps (exists_in sid) (io_modify f)"
  by (rule keeps_modify) (simp add: exists_in_def)

lemma keeps_Now: "keeps (exists_in sid) absl_Now"
  unfolding absl_Now_def by (intro keeps_rules keeps_sessions) simp

lemma keeps_Random: "keeps (exists_in sid) (GenerateRandomHex n)"
  unfolding GenerateRandomHex_def by (intro keeps_rules keeps_sessions) simp

lemmas keeps_parts = keeps_rules keeps_put keeps_Now keeps_Random

lemma keeps_Check: "keeps (exists_in sid) (CheckAndEnforceTimeout x s)"
  unfolding CheckAndEnforceTimeout_def Let_def by (intro keeps_parts)

lemma keeps_Auth: "keeps (exists_in sid) (Authenticate tok)"
  unfolding Authenticate_def by (intro keeps_parts)

lemma keeps_handlers:
  "keeps (exists_in sid) (JoinSession x invitation nonce)" "keeps (exists_in sid) (AcceptPolicy x tok)"
  "keeps (exists_in sid) (SubmitInput_store x tok input)" "keeps (exists_in sid) (GetResult x tok)"
  "keeps (exists_in sid) (GetSessionStatus x tok)"
  unfolding JoinSession_def join_as_def join_new_def AcceptPolicy_def accept_as_def SubmitInput_store_def submit_as_def submit_new_def
    GetResult_def GetSessionStatus_def Let_def
  by (intro keeps_parts keeps_Check keeps_Auth keeps_modify; simp add: exists_in_def)+

lemma keeps_threads:
  "keeps (exists_in sid) (SubmitInput_spawn k failure)" "keeps (exists_in sid) (ProcessSession_begin x k)"
  "keeps (exists_in sid) (ProcessSession_finish k result)"
  unfolding SubmitInput_spawn_def ProcessSession_begin_def ProcessSession_finish_def
  by (intro keeps_parts keeps_modify; simp add: exists_in_def)+

lemma exists_in_jobs [simp]: "exists_in sid (replace_job j js m) = exists_in sid m" "exists_in sid (m_threads_update f m) = exists_in sid m"
  by (simp_all add: exists_in_def)

lemma only_creation_removes:
  assumes "broker_step x m m'" "exists_in sid m" "\<not> exists_in sid m'"
  shows "\<exists>policy nonce. m' = snd (CreateSession x policy nonce m)"
  using assms by cases (auto dest: keepsD [OF keeps_handlers(1)] keepsD [OF keeps_handlers(2)] keepsD [OF keeps_handlers(3)]
      keepsD [OF keeps_handlers(4)] keepsD [OF keeps_handlers(5)] keepsD [OF keeps_threads(1)] keepsD [OF keeps_threads(2)]
      keepsD [OF keeps_threads(3)] simp: ThreadGuard_release_def)

text \<open>
  What the timeout check can have made of a session between two readings of the clock: nothing, or an aborted session that
  entered this state at the reading after the one that showed it overdue.
\<close>

definition lapsed :: "bext \<Rightarrow> broker_options \<Rightarrow> (nat \<Rightarrow> rat) \<Rightarrow> nat \<Rightarrow> nat \<Rightarrow> session \<Rightarrow> session \<Rightarrow> bool" where
  "lapsed x opts clock lo hi s s1 \<longleftrightarrow> s1 = s \<or> (\<exists>i. lo \<le> i \<and> Suc i < hi \<and> ss_state s \<noteq> CLOSED \<and> ss_state s \<noteq> ABORTED
     \<and> effective_timeout opts s < clock i - ss_entered_at s
     \<and> s1 = (abort_session (timeout_error (ss_state s)) (timeout_detail x (clock i - ss_entered_at s) s) s)\<lparr>ss_entered_at := clock (Suc i)\<rparr>)"

lemma lapsed_refl: "lapsed x opts clock lo hi s s"
  by (simp add: lapsed_def)

lemma lapsed_mono: "lapsed x opts clock lo hi s s1 \<Longrightarrow> hi \<le> hi' \<Longrightarrow> lapsed x opts clock lo hi' s s1"
  unfolding lapsed_def using order_less_le_trans [of _ hi hi'] by blast

lemma lapsed_id: "lapsed x opts clock lo hi s s1 \<Longrightarrow> ss_id s1 = ss_id s"
  by (auto simp: lapsed_def)

text \<open>The session \<open>sid\<close>, \<open>s\<close> at first, during a sweep that began at the time \<open>now\<close>.\<close>

definition sweeping :: "bext \<Rightarrow> rat \<Rightarrow> manager \<Rightarrow> string \<Rightarrow> session \<Rightarrow> manager \<Rightarrow> bool" where
  "sweeping x now m sid s m1 \<longleftrightarrow> m_clock m1 = m_clock m \<and> m_options m1 = m_options m \<and> m_tick m \<le> m_tick m1
     \<and> (\<forall>k t. map_of (m_sessions m1) k = Some t \<longrightarrow> ss_id t = k)
     \<and> (case map_of (m_sessions m1) sid of
         Some s1 \<Rightarrow> lapsed x (m_options m) (m_clock m) (m_tick m) (m_tick m1) s s1
       | None \<Rightarrow> \<exists>s1. lapsed x (m_options m) (m_clock m) (m_tick m) (m_tick m1) s s1 \<and> should_erase (m_options m) now s1)"

lemma sweeping_other:
  assumes "sweeping x now m sid s m1" "m_clock m2 = m_clock m1" "m_options m2 = m_options m1" "m_tick m1 \<le> m_tick m2"
    and "map_of (m_sessions m2) sid = map_of (m_sessions m1) sid" "\<And>k t. map_of (m_sessions m2) k = Some t \<Longrightarrow> ss_id t = k"
  shows "sweeping x now m sid s m2"
  using assms lapsed_mono [OF _ assms(4)] unfolding sweeping_def by (auto split: option.splits) blast

lemma put_session_time [simp]: "m_clock (put_session s m) = m_clock m" "m_tick (put_session s m) = m_tick m"
  by (simp_all add: put_session_def)

lemma erase_session_time [simp]: "m_clock (erase_session s m) = m_clock m" "m_tick (erase_session s m) = m_tick m"
  by (simp_all add: erase_session_def)

lemma wp_Check:
  "wp (CheckAndEnforceTimeout x t) Q E m \<longleftrightarrow>
     (if ss_state t = CLOSED \<or> ss_state t = ABORTED then Q t m
      else if effective_timeout (m_options m) t < m_clock m (m_tick m) - ss_entered_at t
      then (let t' = (abort_session (timeout_error (ss_state t)) (timeout_detail x (m_clock m (m_tick m) - ss_entered_at t) t) t)
              \<lparr>ss_entered_at := m_clock m (Suc (m_tick m))\<rparr>
        in Q t' (put_session t' (m\<lparr>m_tick := Suc (Suc (m_tick m))\<rparr>)))
      else Q t (m\<lparr>m_tick := Suc (m_tick m)\<rparr>))"
  by (simp add: CheckAndEnforceTimeout_def wp_simps Let_def)

lemma lapsed_trans:
  assumes "lapsed x opts clock lo mid s t" "lapsed x opts clock mid hi t u" "lo \<le> mid" "mid \<le> hi"
  shows "lapsed x opts clock lo hi s u"
proof (cases "t = s")
  case True
  then show ?thesis using assms(2,3) unfolding lapsed_def using order_trans [OF assms(3)] by blast
next
  case False
  then have "ss_state t = ABORTED" using assms(1) by (auto simp: lapsed_def)
  then have "u = t" using assms(2) by (simp add: lapsed_def)
  then show ?thesis using lapsed_mono [OF assms(1,4)] by simp
qed

text \<open>One turn of the sweep: the check, which moves the clock on, and the removal.\<close>

lemma wp_sweep_session:
  assumes t: "map_of (m_sessions m1) (ss_id t) = Some t"
    and step: "\<And>t' m2. \<lbrakk>m_clock m2 = m_clock m1; m_options m2 = m_options m1; m_tick m1 \<le> m_tick m2;
      map_of (m_sessions m2) = (map_of (m_sessions m1))(ss_id t \<mapsto> t'); lapsed x (m_options m1) (m_clock m1) (m_tick m1) (m_tick m2) t t'\<rbrakk> \<Longrightarrow>
      (if should_erase (m_options m1) now t' then P (erase_session t' m2) else P m2)"
  shows "wp (sweep_session x now t) (\<lambda>_. P) (\<lambda>_ _. False) m1"
proof -
  let ?rest = "\<lambda>t'. io_bind (io_get m_options) (\<lambda>opts. if should_erase opts now t' then io_modify (erase_session t') else io_return ())"
  have finish: "wp (?rest t') (\<lambda>_. P) (\<lambda>_ _. False) m2"
    if "lapsed x (m_options m1) (m_clock m1) (m_tick m1) (m_tick m2) t t'" "m_clock m2 = m_clock m1" "m_options m2 = m_options m1"
      "m_tick m1 \<le> m_tick m2" "map_of (m_sessions m2) = (map_of (m_sessions m1))(ss_id t \<mapsto> t')" for t' m2
    using step [OF that(2-5,1)] that(3) by (simp add: wp_simps split: if_splits)
  let ?t = "(abort_session (timeout_error (ss_state t)) (timeout_detail x (m_clock m1 (m_tick m1) - ss_entered_at t) t) t)
    \<lparr>ss_entered_at := m_clock m1 (Suc (m_tick m1))\<rparr>"
  let ?m = "m1\<lparr>m_tick := Suc (m_tick m1)\<rparr>" let ?m' = "put_session ?t (m1\<lparr>m_tick := Suc (Suc (m_tick m1))\<rparr>)"
  have same: "(map_of (m_sessions m1))(ss_id t \<mapsto> t) = map_of (m_sessions m1)" using t by (simp add: map_upd_triv)
  let ?over = "effective_timeout (m_options m1) t < m_clock m1 (m_tick m1) - ss_entered_at t"
  have ended: "wp (?rest t) (\<lambda>_. P) (\<lambda>_ _. False) m1" "wp (?rest t) (\<lambda>_. P) (\<lambda>_ _. False) ?m"
    by (rule finish [OF lapsed_refl]; simp add: same)+
  have "wp (?rest ?t) (\<lambda>_. P) (\<lambda>_ _. False) ?m'" if "ss_state t \<noteq> CLOSED" "ss_state t \<noteq> ABORTED" ?over
  proof (rule finish)
    show "lapsed x (m_options m1) (m_clock m1) (m_tick m1) (m_tick ?m') t ?t"
      unfolding lapsed_def using that by (intro disjI2 exI [of _ "m_tick m1"]) simp
  qed simp_all
  with ended have "wp (CheckAndEnforceTimeout x t) (\<lambda>t'. wp (?rest t') (\<lambda>_. P) (\<lambda>_ _. False)) (\<lambda>_ _. False) m1"
    unfolding wp_Check Let_def by presburger
  then show ?thesis unfolding sweep_session_def wp_bind [of "CheckAndEnforceTimeout x t"] .
qed

lemma sweeping_session:
  assumes sw: "sweeping x now m sid s m1" and t: "map_of (m_sessions m1) k = Some t"
  shows "wp (sweep_session x now t) (\<lambda>_. sweeping x now m sid s) (\<lambda>_ _. False) m1"
proof (rule wp_sweep_session)
  have ids: "ss_id u = i" if "map_of (m_sessions m1) i = Some u" for i u using sw that by (simp add: sweeping_def)
  show t': "map_of (m_sessions m1) (ss_id t) = Some t" using t ids by simp
  fix u and m2 :: manager
  assume m2: "m_clock m2 = m_clock m1" "m_options m2 = m_options m1" "m_tick m1 \<le> m_tick m2"
    "map_of (m_sessions m2) = (map_of (m_sessions m1))(ss_id t \<mapsto> u)" "lapsed x (m_options m1) (m_clock m1) (m_tick m1) (m_tick m2) t u"
  have id: "ss_id u = ss_id t" by (rule lapsed_id [OF m2(5)])
  show "if should_erase (m_options m1) now u then sweeping x now m sid s (erase_session u m2) else sweeping x now m sid s m2"
  proof (cases "ss_id t = sid")
    case True
    then have "lapsed x (m_options m) (m_clock m) (m_tick m) (m_tick m2) s u"
      using sw t' m2(3,5) by (auto simp: sweeping_def intro: lapsed_trans)
    then show ?thesis using True sw m2 id ids by (auto simp: sweeping_def)
  next
    case False
    then show ?thesis using m2 id ids by (auto intro!: sweeping_other [OF sw] split: if_splits)
  qed
qed

lemma sweeping_loop:
  assumes "sweeping x now m sid s m1"
  shows "wp (sweep x now ks) (\<lambda>_. sweeping x now m sid s) (\<lambda>_ _. False) m1"
  using assms
proof (induction ks arbitrary: m1)
  case (Cons k ks)
  show ?case
  proof (cases "map_of (m_sessions m1) k")
    case (Some t)
    from wp_mono [OF sweeping_session [OF Cons.prems Some] Cons.IH] show ?thesis using Some by (simp add: wp_simps)
  qed (use Cons in \<open>simp add: wp_simps\<close>)
qed (simp add: wp_simps)

text \<open>What is gone after a request to create a session was due for removal.\<close>

definition due :: "bext \<Rightarrow> manager \<Rightarrow> session \<Rightarrow> manager \<Rightarrow> bool" where
  "due x m s m' \<longleftrightarrow> (\<exists>s1. lapsed x (m_options m) (m_clock m) (Suc (m_tick m)) (m_tick m') s s1
     \<and> should_erase (m_options m) (m_clock m (m_tick m)) s1)"

lemma Sweep_due:
  assumes "manager_ok x m" "map_of (m_sessions m) sid = Some s"
  shows "wp (SweepTerminalSessions x) (\<lambda>_ m1. exists_in sid m1 \<or> due x m s m1) (\<lambda>_ _. False) m"
proof -
  let ?m = "m\<lparr>m_tick := Suc (m_tick m)\<rparr>"
  have "sweeping x (m_clock m (m_tick m)) ?m sid s ?m"
    using assms(2) manager_okD(1) [OF assms(1)] by (simp add: sweeping_def lapsed_refl)
  then have "wp (sweep x (m_clock m (m_tick m)) (map fst (m_sessions m))) (\<lambda>_ m1. exists_in sid m1 \<or> due x m s m1) (\<lambda>_ _. False) ?m"
    by (rule wp_mono [OF sweeping_loop]) (auto simp: sweeping_def due_def exists_in_def split: option.splits)
  then show ?thesis by (simp add: SweepTerminalSessions_def wp_simps)
qed

lemma due_mono: "due x m s m1 \<Longrightarrow> m_tick m1 \<le> m_tick m2 \<Longrightarrow> due x m s m2"
  unfolding due_def using lapsed_mono by blast

lemma insert_session_time [simp]: "m_tick (insert_session c s m) = m_tick m"
  by (simp add: insert_session_def)

lemma Create_due:
  assumes "manager_ok x m" "map_of (m_sessions m) sid = Some s"
  shows "exists_in sid (snd (CreateSession x policy nonce m)) \<or> due x m s (snd (CreateSession x policy nonce m))"
proof -
  let ?Q = "\<lambda>m1. exists_in sid m1 \<or> due x m s m1"
  have "?Q (insert_session c t (m1\<lparr>m_draws := d, m_tick := Suc (m_tick m1)\<rparr>))" if "?Q m1" for c t m1 d
    using that due_mono [of x m s m1] by (auto simp: exists_in_def)
  then have "wp (CreateSession x policy nonce) (\<lambda>_. ?Q) (\<lambda>_. ?Q) m"
    unfolding CreateSession_def wp_bind [of "SweepTerminalSessions x"]
    by (intro wp_mono [OF Sweep_due [OF assms]]) (auto simp: wp_simps create_new_def split: sum.split option.split)
  then show ?thesis by (simp add: wp_snd)
qed

text \<open>The condition in terms of the session as it was before the request.\<close>

definition removable :: "manager \<Rightarrow> session \<Rightarrow> manager \<Rightarrow> bool" where
  "removable m s m' \<longleftrightarrow>
     (let retention = of_int (terminal_retention_seconds (m_options m)); now = m_clock m (m_tick m); entered = ss_entered_at s in
      ss_state s = CLOSED \<and> now - entered > retention
    \<or> ss_state s = ABORTED \<and> (ss_error_code s = JOIN_TIMEOUT \<or> ss_error_code s = INPUT_TIMEOUT \<or> now - entered > retention)
    \<or> (ss_state s = OPEN \<or> ss_state s = SEALED) \<and>
        (\<exists>i. m_tick m < i \<and> i < m_tick m' \<and> m_clock m i - entered > min (ss_timeout s) 600)
    \<or> ss_state s = CALCULATING \<and>
        (\<exists>i. m_tick m < i \<and> Suc i < m_tick m' \<and> m_clock m i - entered > of_int (max_calculating_seconds (m_options m))
           \<and> now - m_clock m (Suc i) > retention))"

lemma due_removable:
  assumes "due x m s m'" "phase_ok s"
  shows "removable m s m'"
proof -
  from assms(1) obtain s1 where s1: "lapsed x (m_options m) (m_clock m) (Suc (m_tick m)) (m_tick m') s s1"
    "should_erase (m_options m) (m_clock m (m_tick m)) s1" unfolding due_def by blast
  show ?thesis
  proof (cases "s1 = s")
    case True
    then show ?thesis using s1(2) by (auto simp: should_erase_def removable_def Let_def split: if_splits)
  next
    case False
    then obtain i where i: "Suc (m_tick m) \<le> i" "Suc i < m_tick m'" "ss_state s \<noteq> CLOSED" "ss_state s \<noteq> ABORTED"
      "effective_timeout (m_options m) s < m_clock m i - ss_entered_at s"
      "ss_state s1 = ABORTED" "ss_error_code s1 = timeout_error (ss_state s)" "ss_entered_at s1 = m_clock m (Suc i)"
      using s1(1) by (auto simp: lapsed_def)
    consider "ss_state s = OPEN" | "ss_state s = SEALED" | "ss_state s = CALCULATING" using assms(2) i(3,4) by (auto simp: phase_ok_def)
    then show ?thesis
    proof cases
      case 3
      then show ?thesis using i s1(2)
        by (auto simp: should_erase_def removable_def effective_timeout_def timeout_error_def Let_def intro!: exI [of _ i])
    qed (use i in \<open>auto simp: removable_def effective_timeout_def kMaxOpenSeconds_def kMaxSealedSeconds_def Let_def intro!: exI [of _ i]\<close>)
  qed
qed

lemma removed_removable:
  assumes "broker_reach x m" "broker_step x m m'" "map_of (m_sessions m) sid = Some s" "map_of (m_sessions m') sid = None"
  shows "\<exists>policy nonce. m' = snd (CreateSession x policy nonce m)" "removable m s m'"
proof -
  note ok = broker_reach_ok [OF assms(1)]
  show "\<exists>policy nonce. m' = snd (CreateSession x policy nonce m)"
    using only_creation_removes [OF assms(2), of sid] assms(3,4) by (simp add: exists_in_def)
  then obtain policy nonce where "m' = snd (CreateSession x policy nonce m)" by blast
  then show "removable m s m'"
    using Create_due [OF ok assms(3), of policy nonce] assms(4) manager_okD(2) [OF ok assms(3)]
    by (intro due_removable) (auto simp: exists_in_def session_ok_def)
qed

text \<open>
  C21. A session disappears from the broker only in the sweep at the beginning of a request to create a session, and only when it
  is due: it was \<^verbatim>\<open>CLOSED\<close> or \<^verbatim>\<open>ABORTED\<close> for longer than the configured retention, or aborted because its joining or
  input time had run out; or it was \<^verbatim>\<open>OPEN\<close> or \<^verbatim>\<open>SEALED\<close> and a reading of the clock in the sweep showed that it had waited for longer than
  its timeout and ten minutes allow.  A \<^verbatim>\<open>CALCULATING\<close> session disappears only if its computation took too long and, besides, the
  clock was set back by more than the retention during the sweep.  No token or invitation for it remains.
\<close>

theorem removed_sessions_ended:
  assumes "broker_reach x m" "broker_step x m m'" "map_of (m_sessions m) sid = Some s" "map_of (m_sessions m') sid = None"
  shows "(\<exists>policy nonce. m' = snd (CreateSession x policy nonce m)) \<and> removable m s m'
    \<and> sid \<notin> ran (map_of (m_tokens m')) \<and> sid \<notin> ran (map_of (m_invitations m')) \<and> sid \<notin> ran (map_of (m_nonces m'))"
proof -
  note ok = broker_reach_ok [OF assms(1)]
  note ok' = manager_ok_parts [OF well_formed.broker_step_keeps [OF assms(2) ok ok]]
  have "sid \<notin> ran (map_of (m_tokens m'))" "sid \<notin> ran (map_of (m_invitations m'))" "sid \<notin> ran (map_of (m_nonces m'))"
    using indexedD [OF ok'(5), of _ sid] indexedD [OF ok'(4), of _ sid] indexedD [OF ok'(6), of _ sid] assms(4) by (auto simp: ran_def)
  then show ?thesis using removed_removable [OF assms] by blast
qed

lemma sweep_demo:
  "CreateSession demo_bext (demo_msg\<lparr>sp_participants := 1\<rparr>) [] demo_closed =
     (Inl (InvalidArgumentError ''expected_participants must be at least 2''),
      demo_start\<lparr>m_tick := 10, m_draws := 5, m_jobs := [Leaving demo_sid], m_threads := 1\<rparr>)"
  by (simp add: CreateSession_def SweepTerminalSessions_def sweep_session_def should_erase_def erase_session_def create_checks_def
      GetPolicy_def broker_run demo_defs demo_data)

lemma demo_fresh_closed: "fresh_draws demo_closed"
proof -
  have "\<forall>i\<in>{5, 6, 7}. \<forall>k\<in>{16, 32}. BytesToHexString (demo_rand i k) \<notin> {demo_sid, demo_invitation, demo_creator, demo_joiner}"
    unfolding demo_sid_def demo_creator_def demo_invitation_def demo_joiner_def using demo_digits
    by (auto simp del: demo_keys dest!: demo_same [rotated 4])
  then show ?thesis by (simp add: fresh_draws_def demo_defs in_use_def)
qed

text \<open>In the sample run the published result is dropped after its retention of an hour.\<close>

theorem removed_sessions_ended_witness:
  "removable demo_closed (demo_session CLOSED (demo_two True ''Mon,Tue'' ''Tue,Wed'') ''Tuesday'' 8)
     (snd (CreateSession demo_bext (demo_msg\<lparr>sp_participants := 1\<rparr>) [] demo_closed))"
proof -
  let ?m = "snd (CreateSession demo_bext (demo_msg\<lparr>sp_participants := 1\<rparr>) [] demo_closed)"
  have "map_of (m_sessions demo_closed) demo_sid = Some (demo_session CLOSED (demo_two True ''Mon,Tue'' ''Tue,Wed'') ''Tuesday'' 8)"
    by (simp add: demo_closed_def demo_manager_def)
  moreover have "map_of (m_sessions ?m) demo_sid = None" by (simp add: sweep_demo demo_start_def initial_manager_def)
  ultimately show ?thesis using removed_sessions_ended [OF reach_closed Create [OF demo_fresh_closed]] by blast
qed

section \<open>Computations come to an end\<close>

text \<open>
  The steps of the thread of one session, for an engine \<open>generate\<close>: it is started, or the system refuses it; it builds the
  prompt; the model answers; it stores the outcome.  An inference that raises an exception is no step: it ends the process.
\<close>

inductive worker_step :: "bext \<Rightarrow> engine \<Rightarrow> string \<Rightarrow> manager \<Rightarrow> manager \<Rightarrow> bool" for x generate sid where
  "Spawning sid \<in> set (m_jobs m) \<Longrightarrow> worker_step x generate sid m (snd (SubmitInput_spawn sid failure m))"
| "Started sid \<in> set (m_jobs m) \<Longrightarrow> worker_step x generate sid m (snd (ProcessSession_begin x sid m))"
| "\<lbrakk>Inferring sid prompt schema \<in> set (m_jobs m);
     run_llm x (if m_engine m then Some generate else None) prompt schema = Inr result\<rbrakk> \<Longrightarrow>
   worker_step x generate sid m (replace_job (Inferring sid prompt schema) [Writing sid result] m)"
| "Writing sid result \<in> set (m_jobs m) \<Longrightarrow> worker_step x generate sid m (snd (ProcessSession_finish sid result m))"

lemma worker_step_broker: "worker_step x generate sid m m' \<Longrightarrow> broker_step x m m'"
  by (induction rule: worker_step.induct) (auto intro: broker_step.intros)

text \<open>How far the threads of a session are from their end.\<close>

fun job_rank :: "job \<Rightarrow> nat" where
  "job_rank (Spawning _) = 4"
| "job_rank (Started _) = 3"
| "job_rank (Inferring _ _ _) = 2"
| "job_rank (Writing _ _) = 1"
| "job_rank (Leaving _) = 0"

definition rank_for :: "string \<Rightarrow> job \<Rightarrow> nat" where
  "rank_for sid j = (if job_sid j = sid then job_rank j else 0)"

definition work_left :: "string \<Rightarrow> manager \<Rightarrow> nat" where
  "work_left sid m = sum_list (map (rank_for sid) (m_jobs m))"

lemma rank_for_other [simp]: "job_sid j \<noteq> sid \<Longrightarrow> rank_for sid j = 0"
  by (simp add: rank_for_def)

lemma work_left_replace:
  assumes "j \<in> set (m_jobs m)" "m_jobs m' = remove1 j (m_jobs m) @ js"
  shows "work_left sid m' + rank_for sid j = work_left sid m + sum_list (map (rank_for sid) js)"
  using sum_list_map_remove1 [OF assms(1), of "rank_for sid"] assms(2) by (simp add: work_left_def)

text \<open>A session that is past its inputs, or gone, stays so, and what is left of its work does not grow.\<close>

definition past_inputs :: "string \<Rightarrow> manager \<Rightarrow> bool" where
  "past_inputs sid m \<longleftrightarrow> (\<forall>s. map_of (m_sessions m) sid = Some s \<longrightarrow> ss_state s \<noteq> OPEN \<and> ss_state s \<noteq> SEALED)"

lemma mstep_work:
  assumes "mstep x U m m'" "sid \<in> U" "past_inputs sid m" "manager_ok x m"
  shows "past_inputs sid m' \<and> work_left sid m' \<le> work_left sid m"
  using assms
proof (induction rule: mstep.induct)
  case (Change m s s')
  have "ss_id s' = ss_id s" using session_change_frame [OF Change(2)] by (simp add: same_frame_def)
  then show ?case using Change session_change_state [OF Change(2)] by (auto simp: past_inputs_def work_left_def split: if_splits)
next
  case (Launched k m)
  then show ?case using work_left_replace [of "Spawning k" m "replace_job (Spawning k) [Started k] m" "[Started k]" sid]
    by (simp add: past_inputs_def rank_for_def split: if_splits)
next
  case (LaunchFailed k m s detail)
  let ?m = "put_session (abort_session SESSION_ERROR_UNSPECIFIED detail s) (replace_job (Spawning k) [] (m_threads_update (\<lambda>n. n - 1) m))"
  have "work_left sid ?m \<le> work_left sid m" using work_left_replace [of "Spawning k" m ?m "[]" sid] LaunchFailed(1) by simp
  then show ?case using LaunchFailed by (auto simp: past_inputs_def split: if_splits)
next
  case (LaunchFailedGone k m)
  let ?m = "replace_job (Spawning k) [] (m_threads_update (\<lambda>n. n - 1) m)"
  show ?case using work_left_replace [of "Spawning k" m ?m "[]" sid] LaunchFailedGone by (auto simp: past_inputs_def)
next
  case (Prompted k m s delim)
  let ?j = "Inferring k (aggregated_prompt x delim s) (output_schema_of s)"
  show ?case using work_left_replace [of "Started k" m "replace_job (Started k) [?j] m" "[?j]" sid] Prompted
    by (simp add: past_inputs_def rank_for_def split: if_splits)
next
  case (Inferred k prompt schema m generate result)
  let ?j = "Inferring k prompt schema"
  show ?case using work_left_replace [of ?j m "replace_job ?j [Writing k result] m" "[Writing k result]" sid] Inferred
    by (simp add: past_inputs_def rank_for_def split: if_splits)
next
  case (Stored k r m s t)
  let ?m = "put_session ((enter CLOSED t s)\<lparr>ss_result_json := r\<rparr>) (replace_job (Writing k (Inr r)) [Leaving k] m)"
  show ?case using work_left_replace [of "Writing k (Inr r)" m ?m "[Leaving k]" sid] Stored
    by (auto simp: past_inputs_def rank_for_def split: if_splits)
next
  case (Failed k e m s t)
  let ?m = "put_session ((abort_session LLM_GENERATION_FAILED (exn_str e) s)\<lparr>ss_entered_at := t\<rparr>) (replace_job (Writing k (Inl e)) [Leaving k] m)"
  show ?case using work_left_replace [of "Writing k (Inl e)" m ?m "[Leaving k]" sid] Failed
    by (auto simp: past_inputs_def rank_for_def split: if_splits)
next
  case (Overtaken j m k)
  then show ?case using work_left_replace [of j m "replace_job j [Leaving k] m" "[Leaving k]" sid]
    by (auto simp: past_inputs_def rank_for_def split: if_splits)
next
  case (Left k m)
  then show ?case using work_left_replace [of "Leaving k" m "ThreadGuard_release k m" "[]" sid]
    by (auto simp: past_inputs_def ThreadGuard_release_def)
qed (auto simp: past_inputs_def work_left_def store_input_def split: if_splits)

lemma broker_step_work:
  assumes "broker_step x m m'" "manager_ok x m" "map_of (m_sessions m) sid = Some s" "past_inputs sid m"
  shows "work_left sid m' \<le> work_left sid m"
proof -
  have "sid \<in> in_use m" using assms(3) by (auto simp: in_use_def dest: map_of_keyD)
  have "past_inputs sid m' \<and> work_left sid m' \<le> work_left sid m" using broker_step_msteps [OF assms(1,2)]
  proof (induction rule: rtranclp_induct)
    case (step m1 m2)
    then show ?case using mstep_work [OF step(2) \<open>sid \<in> in_use m\<close>] msteps_ok [OF step(1) assms(2)] by fastforce
  qed (simp add: assms(4))
  then show ?thesis by blast
qed

lemma spawn_jobs:
  "m_jobs (snd (SubmitInput_spawn sid failure m)) = remove1 (Spawning sid) (m_jobs m) @ (case failure of None \<Rightarrow> [Started sid] | Some _ \<Rightarrow> [])"
  by (cases failure; cases "map_of (m_sessions m) sid") (simp_all add: SubmitInput_spawn_def io_simps put_session_def replace_job_def)

lemma begin_jobs:
  assumes "map_of (m_sessions m) sid = Some s" "ss_state s = CALCULATING"
  shows "\<exists>prompt. m_jobs (snd (ProcessSession_begin x sid m)) = remove1 (Started sid) (m_jobs m) @ [Inferring sid prompt (output_schema_of s)]"
  using assms by (simp add: ProcessSession_begin_def GenerateRandomHex_def io_simps replace_job_def)

lemma finish_jobs:
  "m_jobs (snd (ProcessSession_finish sid result m)) = remove1 (Writing sid result) (m_jobs m) @ [Leaving sid]"
  by (cases "map_of (m_sessions m) sid"; cases result)
    (simp_all add: ProcessSession_finish_def absl_Now_def io_simps put_session_def replace_job_def)

lemma worker_step_work:
  assumes "worker_step x generate sid m m'" "map_of (m_sessions m) sid = Some s" "ss_state s = CALCULATING"
  shows "work_left sid m' < work_left sid m"
  using assms(1)
proof cases
  case (1 failure)
  then show ?thesis using work_left_replace [OF 1(2) spawn_jobs, of sid failure]
    by (cases failure) (simp_all add: rank_for_def)
next
  case 2
  obtain prompt where "m_jobs m' = remove1 (Started sid) (m_jobs m) @ [Inferring sid prompt (output_schema_of s)]"
    using begin_jobs [OF assms(2,3), of x] 2(1) by auto
  then show ?thesis using work_left_replace [OF 2(2), of m' _ sid] by (fastforce simp: rank_for_def)
next
  case (3 prompt schema result)
  then show ?thesis using work_left_replace [OF 3(2), of m' "[Writing sid result]" sid] by (simp add: rank_for_def)
next
  case (4 result)
  then show ?thesis using work_left_replace [OF 4(2) finish_jobs, of sid] by (simp add: rank_for_def)
qed

text \<open>While the session is \<^verbatim>\<open>CALCULATING\<close> its thread can take a step, unless the inference raises an exception.\<close>

lemma worker_enabled:
  assumes "manager_ok x m" "map_of (m_sessions m) sid = Some s" "ss_state s = CALCULATING"
    and llm: "\<And>prompt. \<exists>result. run_llm x (if m_engine m then Some generate else None) prompt (output_schema_of s) = Inr result"
  shows "\<exists>m'. worker_step x generate sid m m'"
proof -
  have "sid \<in> job_sid ` set (m_jobs m)" using manager_ok_jobsD [OF assms(1)] assms(2,3) by (auto simp: jobs_ok_def)
  then obtain j where j: "j \<in> set (m_jobs m)" "job_sid j = sid" by blast
  have ok: "job_ok x (map_of (m_sessions m)) j" by (rule jobD [OF assms(1) j(1)])
  show ?thesis
  proof (cases j)
    case (Inferring k prompt schema)
    then have "schema = output_schema_of s" using ok j(2) assms(2) by (simp add: job_ok_def)
    then show ?thesis using llm [of prompt] Inferring j by (auto intro: worker_step.intros(3))
  qed (use j ok assms(2,3) in \<open>auto simp: job_ok_def intro: worker_step.intros\<close>)
qed

lemma computing_next:
  assumes "(proto n)\<^sup>*\<^sup>* (Computing ms) p"
  shows "p = Computing ms \<or> (\<exists>r. p = Done r) \<or> p = Aborted"
  using assms by (induction rule: rtranclp_induct) (auto elim: proto_elims)

lemma calculating_next:
  assumes "evolves s s'" "ss_state s = CALCULATING" "phase_ok s'"
  shows "ss_state s' = CALCULATING \<or> ss_state s' = CLOSED \<or> ss_state s' = ABORTED"
  using assms computing_next [of "ss_expected s" "members s" "phase_of s'"]
  by (auto simp: evolves_def phase_of_sel(3)) (auto simp: phase_of_def phase_ok_def split: if_splits)

text \<open>A run, in which now and then nothing happens.\<close>

definition broker_run_of :: "bext \<Rightarrow> (nat \<Rightarrow> manager) \<Rightarrow> bool" where
  "broker_run_of x run \<longleftrightarrow> broker_reach x (run 0) \<and> (\<forall>i. broker_step x (run i) (run (Suc i)) \<or> run (Suc i) = run i)"

lemma run_step: "broker_run_of x run \<Longrightarrow> broker_step x (run i) (run (Suc i)) \<or> run (Suc i) = run i"
  by (simp add: broker_run_of_def)

lemma run_reach: "broker_run_of x run \<Longrightarrow> broker_reach x (run i)"
  by (induction i) (auto simp: broker_run_of_def dest: broker_reach_step)

lemma run_engine: "broker_run_of x run \<Longrightarrow> m_engine (run i) = m_engine (run 0)"
proof (induction i)
  case (Suc i)
  have "broker_step x (run i) (run (Suc i)) \<or> run (Suc i) = run i" using Suc.prems by (simp add: broker_run_of_def)
  then show ?case using Suc configured.broker_step_keeps [OF _ broker_reach_ok [OF run_reach [OF Suc.prems]]] by metis
qed simp

text \<open>A thread that is ready to take a step from some moment on takes one.\<close>

definition fair_to_worker :: "bext \<Rightarrow> engine \<Rightarrow> string \<Rightarrow> (nat \<Rightarrow> manager) \<Rightarrow> bool" where
  "fair_to_worker x generate sid run \<longleftrightarrow>
     (\<forall>i. (\<forall>j\<ge>i. \<exists>m'. worker_step x generate sid (run j) m') \<longrightarrow> (\<exists>j\<ge>i. worker_step x generate sid (run j) (run (Suc j))))"

text \<open>The session is still being computed, in the same form.\<close>

definition computing_in :: "string \<Rightarrow> session \<Rightarrow> manager \<Rightarrow> bool" where
  "computing_in sid s m \<longleftrightarrow> (\<exists>t. map_of (m_sessions m) sid = Some t \<and> ss_state t = CALCULATING \<and> evolves s t)"

lemma computing_not_forever:
  assumes run: "broker_run_of x run" "fair_to_worker x generate sid run"
    and llm: "\<And>prompt. \<exists>result. run_llm x (if m_engine (run 0) then Some generate else None) prompt (output_schema_of s) = Inr result"
  shows "\<exists>k. \<not> computing_in sid s (run k)"
proof (rule ccontr)
  assume "\<not> ?thesis"
  then have comp: "computing_in sid s (run k)" for k by blast
  have enabled: "\<exists>m'. worker_step x generate sid (run j) m'" for j
  proof -
    obtain t where t: "map_of (m_sessions (run j)) sid = Some t" "ss_state t = CALCULATING" "evolves s t"
      using comp [of j] by (auto simp: computing_in_def)
    moreover have "output_schema_of t = output_schema_of s" using t(3) by (simp add: evolves_def output_schema_of_def)
    ultimately show ?thesis using llm run_engine [OF run(1), of j]
      by (intro worker_enabled [OF broker_reach_ok [OF run_reach [OF run(1)]]]) auto
  qed
  have step: "work_left sid (run (Suc j)) \<le> work_left sid (run j)" for j
    using comp [of j] run_step [OF run(1), of j] broker_step_work [OF _ broker_reach_ok [OF run_reach [OF run(1)]], of j "run (Suc j)" sid]
    by (auto simp: computing_in_def past_inputs_def)
  have less: "\<exists>k. work_left sid (run k) + n \<le> work_left sid (run 0)" for n
  proof (induction n)
    case (Suc n)
    then obtain k where k: "work_left sid (run k) + n \<le> work_left sid (run 0)" by blast
    obtain j where j: "j \<ge> k" "worker_step x generate sid (run j) (run (Suc j))"
      using run(2) enabled unfolding fair_to_worker_def by blast
    have "work_left sid (run (Suc j)) < work_left sid (run j)"
      using worker_step_work [OF j(2)] comp [of j] by (auto simp: computing_in_def)
    moreover have "work_left sid (run j) \<le> work_left sid (run k)" by (rule lift_Suc_antimono_le [where f = "\<lambda>i. work_left sid (run i)", OF step j(1)])
    ultimately show ?case using k by (intro exI [of _ "Suc j"]) simp
  qed auto
  from less [of "Suc (work_left sid (run 0))"] show False by simp
qed

lemma run_moves: "broker_run_of x run \<Longrightarrow> computing_in sid s (run i) \<Longrightarrow> \<not> computing_in sid s (run (Suc i)) \<Longrightarrow> broker_step x (run i) (run (Suc i))"
  using run_step by metis

lemma last_moment: "P 0 \<Longrightarrow> \<not> P k \<Longrightarrow> \<exists>i. P i \<and> \<not> P (Suc i)" for k :: nat
  by (induction k) auto

text \<open>
  C14. Every computation ends.  In every run of the broker, whatever the requests and the other threads do in between, that is fair
  to the thread of a \<^verbatim>\<open>CALCULATING\<close> session (a thread that is ready from some moment on takes a step at some time), and if no
  answer of the engine makes the JSON package raise an exception during the validation, there is a step at which the session stops
  being \<^verbatim>\<open>CALCULATING\<close>: it is then \<^verbatim>\<open>CLOSED\<close> with a result that satisfies its output schema, or \<^verbatim>\<open>ABORTED\<close>, or was due to be removed.
\<close>

theorem calculation_ends:
  assumes "broker_run_of x run" "fair_to_worker x generate sid run"
    and "map_of (m_sessions (run 0)) sid = Some s" "ss_state s = CALCULATING"
    and "\<And>prompt. \<exists>result. run_llm x (if m_engine (run 0) then Some generate else None) prompt (output_schema_of s) = Inr result"
  shows "\<exists>k t. map_of (m_sessions (run k)) sid = Some t \<and> ss_state t = CALCULATING \<and> evolves s t
    \<and> (case map_of (m_sessions (run (Suc k))) sid of
        Some s' \<Rightarrow> evolves s s' \<and> (ss_state s' = CLOSED \<and> output_ok x s' (ss_result_json s') \<or> ss_state s' = ABORTED)
      | None \<Rightarrow> removable (run k) t (run (Suc k)))"
proof -
  have "computing_in sid s (run 0)" using assms(3,4) evolves_refl by (auto simp: computing_in_def)
  with computing_not_forever [OF assms(1,2,5)] obtain k where k: "computing_in sid s (run k)" "\<not> computing_in sid s (run (Suc k))"
    using last_moment [of "\<lambda>k. computing_in sid s (run k)"] by blast
  note reach = run_reach [OF assms(1), of k] and step = run_moves [OF assms(1) k]
  from k(1) obtain t where t: "map_of (m_sessions (run k)) sid = Some t" "ss_state t = CALCULATING" "evolves s t"
    by (auto simp: computing_in_def)
  show ?thesis
  proof (cases "map_of (m_sessions (run (Suc k))) sid")
    case None
    show ?thesis by (rule exI [of _ k], rule exI [of _ t]) (use t None removed_removable(2) [OF reach step t(1) None] in simp)
  next
    case (Some s')
    have ok: "session_ok x s'" using manager_okD(2) [OF broker_reach_ok [OF run_reach [OF assms(1)]] Some] .
    have "evolves t s'" by (rule step_evolves [OF broker_reach_ok [OF reach] step t(1) Some])
    moreover from this have "ss_state s' \<noteq> CALCULATING" using k(2) Some evolves_trans [OF t(3)] by (auto simp: computing_in_def)
    ultimately show ?thesis using Some ok evolves_trans [OF t(3)] calculating_next [of t s'] t
      by (intro exI [of _ k] exI [of _ t]) (auto simp: session_ok_def content_ok_def)
  qed
qed

text \<open>The sample run, which is fair because it ends with the result.\<close>

definition demo_steps :: "nat \<Rightarrow> manager" where
  "demo_steps i = (if i = 0 then demo_full else if i = 1 then demo_started else if i = 2 then demo_running
     else if i = 3 then demo_answered else demo_closed)"

lemma demo_steps_run: "broker_run_of demo_bext demo_steps"
proof -
  have "broker_step demo_bext demo_full demo_started"
    using Spawn [of demo_sid demo_full demo_bext None] by (simp add: spawn_demo) (simp add: demo_full_def demo_manager_def)
  moreover have "broker_step demo_bext demo_started demo_running"
    using Begin [of demo_sid demo_started demo_bext] by (simp add: begin_demo) (simp add: demo_started_def demo_manager_def)
  moreover have "broker_step demo_bext demo_running demo_answered"
    using Infer [of demo_sid "''Find a slot''" "''schema''" demo_running demo_bext demo_generate "Inr ''Tuesday''"] llm_demo
    by (simp add: demo_defs replace_job_def)
  moreover have "broker_step demo_bext demo_answered demo_closed"
    using Finish [of demo_sid "Inr ''Tuesday''" demo_answered demo_bext] by (simp add: finish_demo) (simp add: demo_answered_def demo_manager_def)
  ultimately have "broker_step demo_bext (demo_steps i) (demo_steps (Suc i)) \<or> demo_steps (Suc i) = demo_steps i" for i
    by (auto simp: demo_steps_def numeral_3_eq_3 numeral_2_eq_2)
  then show ?thesis using reach_full by (simp add: broker_run_of_def demo_steps_def)
qed

lemma demo_steps_fair: "fair_to_worker demo_bext demo_generate demo_sid demo_steps"
proof -
  have "\<not> worker_step demo_bext demo_generate demo_sid (demo_steps j) m'" if "j \<ge> 4" for j m'
    using that by (auto simp: demo_steps_def demo_closed_def demo_manager_def elim!: worker_step.cases)
  then show ?thesis unfolding fair_to_worker_def by (meson le_cases)
qed

lemma demo_llm: "run_llm demo_bext (Some demo_generate) prompt ''schema'' = Inr (Inr ''Tuesday'')"
proof -
  have "llm_attempts demo_bext (Some demo_generate) prompt schema i n = llm_attempts demo_bext (Some demo_generate) ''Find a slot'' schema i n" for schema i n
  proof (induction n arbitrary: i)
    case (Suc n)
    have "demo_generate i prompt = demo_generate i ''Find a slot''" by (simp add: fun_eq_iff demo_generate_def)
    then show ?case by (simp only: llm_attempts.simps option.case Suc)
  qed simp
  then show ?thesis using llm_demo by (simp only: run_llm_def)
qed

theorem calculation_ends_witness:
  "\<exists>k t. map_of (m_sessions (demo_steps k)) demo_sid = Some t \<and> ss_state t = CALCULATING
    \<and> (case map_of (m_sessions (demo_steps (Suc k))) demo_sid of
        Some s' \<Rightarrow> ss_state s' = CLOSED \<and> output_ok demo_bext s' (ss_result_json s') \<or> ss_state s' = ABORTED
      | None \<Rightarrow> removable (demo_steps k) t (demo_steps (Suc k)))"
proof -
  let ?s = "demo_session CALCULATING (demo_two True ''Mon,Tue'' ''Tue,Wed'') [] 7"
  have "output_schema_of ?s = ''schema''" "m_engine demo_full" "map_of (m_sessions demo_full) demo_sid = Some ?s" "ss_state ?s = CALCULATING"
    by (simp_all add: output_schema_of_def demo_defs)
  then have "\<exists>k t. map_of (m_sessions (demo_steps k)) demo_sid = Some t \<and> ss_state t = CALCULATING \<and> evolves ?s t
    \<and> (case map_of (m_sessions (demo_steps (Suc k))) demo_sid of
        Some s' \<Rightarrow> evolves ?s s' \<and> (ss_state s' = CLOSED \<and> output_ok demo_bext s' (ss_result_json s') \<or> ss_state s' = ABORTED)
      | None \<Rightarrow> removable (demo_steps k) t (demo_steps (Suc k)))"
    by (intro calculation_ends [OF demo_steps_run demo_steps_fair]) (simp_all add: demo_steps_def demo_llm)
  then show ?thesis by (auto split: option.splits) fastforce+
qed

section \<open>One thread alone\<close>

lemma find_last: "(\<And>y. y \<in> set ys \<Longrightarrow> \<not> P y) \<Longrightarrow> find P (ys @ [z]) = (if P z then Some z else None)"
  by (induction ys) auto

lemma find_own_job:
  assumes "distinct (map job_sid js)" "Started sid \<in> set js"
  shows "find (\<lambda>j. job_sid j = sid) (remove1 (Started sid) js @ [j']) = (if job_sid j' = sid then Some j' else None)"
  using remove1_sids [OF assms] by (intro find_last) auto

lemma remove1_last: "j \<notin> set js \<Longrightarrow> remove1 j (js @ [j]) = js"
  by (simp add: remove1_append)

text \<open>
  What a background thread does that finds its session \<^verbatim>\<open>CALCULATING\<close> and is not interrupted.  When the attempts of the model give a
  text, the session is \<^verbatim>\<open>CLOSED\<close> with that text as its result; when they fail, it is \<^verbatim>\<open>ABORTED\<close> with the reason; and in both
  cases the thread is gone and no longer counted.  When the JSON package raises an exception in the validation of an answer, it is
  not caught: the session stays \<^verbatim>\<open>CALCULATING\<close> and the exception leaves the thread, which in C++ ends the process.
\<close>

theorem uninterrupted_worker:
  assumes "broker_reach x m" "Started sid \<in> set (m_jobs m)" "map_of (m_sessions m) sid = Some s" "ss_state s = CALCULATING"
    and "run_llm x (if m_engine m then Some generate else None)
      (aggregated_prompt x (BytesToHexString (m_rand m (m_draws m) 8)) s) (output_schema_of s) = outcome"
  shows "\<exists>m' s'. map_of (m_sessions m') sid = Some s' \<and> (case outcome of
      Inr result \<Rightarrow> ProcessSessionAsync x generate sid m = (Inr (), m')
        \<and> (case result of Inr r \<Rightarrow> ss_state s' = CLOSED \<and> ss_result_json s' = r
          | Inl e \<Rightarrow> ss_state s' = ABORTED \<and> ss_error_code s' = LLM_GENERATION_FAILED \<and> ss_error_detail s' = exn_str e)
        \<and> m_jobs m' = remove1 (Started sid) (m_jobs m) \<and> m_threads m' = m_threads m - 1
    | Inl e \<Rightarrow> ProcessSessionAsync x generate sid m = (Inl e, m') \<and> s' = s)"
proof -
  note ok = broker_reach_ok [OF assms(1)]
  have d: "distinct (map job_sid (m_jobs m))" using manager_ok_jobsD [OF ok] by (simp add: jobs_ok_def)
  have id: "ss_id s = sid" by (rule manager_okD(1) [OF ok assms(3)])
  let ?js = "remove1 (Started sid) (m_jobs m)"
  have gone: "j \<notin> set ?js" if "job_sid j = sid" for j using that remove1_sids [OF d assms(2)] by auto
  have last: "remove1 (Inferring sid p o') (?js @ [Inferring sid p o']) = ?js" "remove1 (Writing sid w) (?js @ [Writing sid w]) = ?js"
      "remove1 (Leaving sid) (?js @ [Leaving sid]) = ?js" for p o' w
    by (rule remove1_last, rule gone, simp)+
  show ?thesis using assms(3-5) id find_own_job [OF d assms(2)] last
    by (cases outcome; cases "projr outcome") (simp_all add: ProcessSessionAsync_def ProcessSession_begin_def ProcessSession_finish_def ThreadGuard_release_def
        GenerateRandomHex_def absl_Now_def io_simps replace_job_def put_session_def update_conv')
qed

text \<open>An answer with a number that no double can hold is such a case.\<close>

theorem overflowing_answer_escapes:
  "run_llm demo_bext (Some (\<lambda>_ _ _. Inr ''1e999'')) prompt ''schema'' = Inl (out_of_range ''number overflow'')"
  by (simp add: run_llm_def kMaxLlmRetries_def numeral_3_eq_3 StripMarkdownCodeFences_def ValidateJsonSchema_def ParseJsonSafely_def
      out_of_range_def demo_bext_def Let_def is_ws_def)

end
