(* ===== verification/BrokerLimits.thy ===== *)
theory BrokerLimits
  imports BrokerProgress "HOL-Library.Multiset"
begin

text \<open>
  The limits of the broker: how many sessions and participants there are, how long a session may wait, what a retried
  request gives, the order of the inputs in the prompt, and what a validation error tells about the value.
\<close>

section \<open>Bounds\<close>

lemma sum_list_le: "(\<And>y. y \<in> set ys \<Longrightarrow> f y \<le> (n :: nat)) \<Longrightarrow> sum_list (map f ys) \<le> n * length ys"
  by (induction ys) fastforce+

text \<open>
  C27. The broker never holds more sessions than configured, nor a session with fewer than one or more than the expected
  number of participants, which is between 2 and 100; no timeout is longer than a day, and there are at most a hundred
  tokens for each session.
\<close>

theorem broker_bounds:
  assumes "broker_reach x m"
  shows "int (length (m_sessions m)) \<le> max_sessions (m_options m)
    \<and> (\<forall>(sid, s)\<in>set (m_sessions m). 1 \<le> joined s \<and> joined s \<le> ss_expected s \<and> 2 \<le> ss_expected s \<and> ss_expected s \<le> 100
      \<and> ss_timeout s \<le> 86400)
    \<and> card (dom (map_of (m_tokens m))) \<le> 100 * length (m_sessions m)"
proof -
  note ok = broker_reach_ok [OF assms] and m = manager_ok_parts [OF broker_reach_ok [OF assms]]
  have s: "session_ok x s" "map_of (m_sessions m) sid = Some s" if "(sid, s) \<in> set (m_sessions m)" for sid s
    using manager_okD(2) [OF ok] map_of_is_SomeI [OF m(1) that] by auto
  have each: "1 \<le> joined s \<and> joined s \<le> ss_expected s \<and> 2 \<le> ss_expected s \<and> ss_expected s \<le> 100 \<and> ss_timeout s \<le> 86400"
    if "session_ok x s" for s
    using that by (auto simp: session_ok_def bounds_ok_def shape_ok_def Let_def joined_def kMaxParticipants_def kMaxTimeoutSeconds_def Suc_le_eq)
  have "dom (map_of (m_tokens m)) \<subseteq> set (concat (map (ss_participant_tokens \<circ> snd) (m_sessions m)))"
  proof
    fix t assume "t \<in> dom (map_of (m_tokens m))"
    then obtain sid s' where "map_of (m_sessions m) sid = Some s'" "t \<in> token_keys s'" using indexedD [OF m(5)] by blast
    then show "t \<in> set (concat (map (ss_participant_tokens \<circ> snd) (m_sessions m)))"
      using tokens_of [OF ok] map_of_SomeD [of "m_sessions m" sid s'] by force
  qed
  then have "card (dom (map_of (m_tokens m))) \<le> length (concat (map (ss_participant_tokens \<circ> snd) (m_sessions m)))"
    by (meson card_length card_mono finite_set order_trans)
  also have "\<dots> \<le> 100 * length (m_sessions m)"
    unfolding length_concat map_map
    by (rule sum_list_le) (use each s(1) in \<open>fastforce simp: session_ok_def shape_ok_def Let_def joined_def\<close>)
  finally show ?thesis using m(2) each s(1) by auto
qed

theorem broker_bounds_witness: "card (dom (map_of (m_tokens demo_joined))) \<le> 100"
  using broker_bounds [OF reach_joined] by (simp add: demo_joined_def demo_manager_def)

section \<open>Timeouts\<close>

text \<open>
  A session that waits is reported as aborted, with the error of its phase, exactly when more time has passed than the
  smaller of its timeout and ten minutes: also in the state \<^verbatim>\<open>SEALED\<close> a longer timeout is not honoured.
\<close>

theorem waiting_limit:
  assumes "authenticate tok m = Inr (s, p)" "ss_state s = OPEN \<or> ss_state s = SEALED"
  shows "\<exists>r m'. GetResult x tok m = (Inr r, m') \<and>
    (if m_clock m (m_tick m) - ss_entered_at s > min (ss_timeout s) 600
     then rr_state r = ABORTED \<and> rr_error r = (if ss_state s = OPEN then JOIN_TIMEOUT else INPUT_TIMEOUT)
     else rr_state r = ss_state s \<and> rr_error r = SESSION_ERROR_UNSPECIFIED)"
  using assms
  by (auto simp: GetResult_def Authenticate_def CheckAndEnforceTimeout_def effective_timeout_def timeout_error_def absl_Now_def
      io_simps Let_def result_of_def kMaxOpenSeconds_def kMaxSealedSeconds_def)

theorem waiting_limit_witness:
  "\<exists>r m'. GetResult demo_bext demo_creator (demo_manager 9 4 ((demo_session SEALED (demo_two True [] []) [] 4)\<lparr>ss_timeout := 86400\<rparr>) []) = (Inr r, m')
    \<and> rr_state r = ABORTED \<and> rr_error r = INPUT_TIMEOUT"
  using waiting_limit [of demo_creator "demo_manager 9 4 ((demo_session SEALED (demo_two True [] []) [] 4)\<lparr>ss_timeout := 86400\<rparr>) []"
      "(demo_session SEALED (demo_two True [] []) [] 4)\<lparr>ss_timeout := 86400\<rparr>" "demo_person demo_creator True [] 0"]
  by (simp add: broker_run demo_defs demo_clock_def)

section \<open>Retries\<close>

text \<open>
  C39. Joining is idempotent: a successful request with a nonce, sent again with the same nonce, gives the same token and
  the same policy, and brings in no further participant, token or session.
\<close>

theorem join_retry:
  assumes "broker_reach x m" "JoinSession x invitation nonce m = (Inr r, m1)" "nonce \<noteq> []"
  shows "\<exists>r2 m2. JoinSession x invitation nonce m1 = (Inr r2, m2) \<and> jp_token r2 = jp_token r \<and> jp_policy r2 = jp_policy r
    \<and> only_timeouts x m1 m2"
proof -
  note ok = broker_reach_ok [OF assms(1)]
  let ?known = "\<lambda>r m'. \<exists>s. lookup_session (m_invitations m') invitation m' = Inr s \<and> map_of (m_sessions m') (ss_id s) = Some s
    \<and> map_of (ss_nonce_to_token s) nonce = Some (jp_token r) \<and> ss_policy s = jp_policy r \<and> IsValidUuidV4 nonce"
  have "wp (JoinSession x invitation nonce) ?known (\<lambda>_ _. True) m"
  proof (cases "lookup_session (m_invitations m) invitation m")
    case (Inr s0)
    note s0 = lookup_sessionD [OF Inr ok]
    have "wp (join_as nonce s) ?known (\<lambda>_ _. True) m'" if c: "checked x m s0 s m'" for s m'
    proof -
      note cD = checkedD [OF c s0(2)]
      have "map_of (m_invitations m') invitation = Some (ss_id s)" using s0(1) cD(2,4) by (simp add: same_surface_def)
      then show ?thesis using cD(3) assms(3)
        by (auto simp: join_as_def join_new_def wp_simps join_answer_def lookup_session_def put_session_def update_conv' add_participant_def
            split: option.split)
    qed
    then show ?thesis using Inr by (simp add: JoinSession_def wp_simps wp_check)
  qed (simp add: JoinSession_def wp_simps)
  from wpD [OF this assms(2)] obtain s where s: "lookup_session (m_invitations m1) invitation m1 = Inr s" "map_of (m_sessions m1) (ss_id s) = Some s"
    "map_of (ss_nonce_to_token s) nonce = Some (jp_token r)" "ss_policy s = jp_policy r" "IsValidUuidV4 nonce" by blast
  have "wp (JoinSession x invitation nonce) (\<lambda>r2 m2. jp_token r2 = jp_token r \<and> jp_policy r2 = jp_policy r \<and> only_timeouts x m1 m2) (\<lambda>_ _. False) m1"
    using s assms(3) checkedD(5) [OF _ s(2)] checked_only_timeouts [OF _ s(2)]
    by (auto simp: JoinSession_def join_as_def join_answer_def same_frame_def wp_simps intro!: wp_check)
  then show ?thesis by (auto simp: wp_def split: prod.splits sum.splits)
qed

definition demo_uuid :: string where
  "demo_uuid = ''01234567-89ab-4cde-8f01-23456789abcd''"

theorem join_retry_witness:
  "\<exists>r2 m2. JoinSession demo_bext demo_invitation demo_uuid (snd (JoinSession demo_bext demo_invitation demo_uuid demo_created)) = (Inr r2, m2)
    \<and> jp_token r2 = demo_joiner"
proof -
  let ?s = "demo_session OPEN [(demo_creator, demo_person demo_creator True [] 0)] [] 1"
  have uuid: "IsValidUuidV4 demo_uuid" "demo_uuid \<noteq> []" by code_simp+
  have "fst (JoinSession demo_bext demo_invitation demo_uuid demo_created) = Inr (join_answer ?s demo_joiner)"
    by (simp add: uuid JoinSession_def join_as_def join_new_def join_answer_def broker_run demo_defs demo_data)
  then show ?thesis using join_retry [OF reach_created, of demo_invitation demo_uuid] uuid(2)
    by (cases "JoinSession demo_bext demo_invitation demo_uuid demo_created") (auto simp: join_answer_def)
qed

lemma wp_Sweep_ok: "wp (SweepTerminalSessions x) (\<lambda>_ _. True) (\<lambda>_ _. False) m"
proof -
  have session: "wp (sweep_session x now s) (\<lambda>_ _. True) (\<lambda>_ _. False) m" for now s m
    unfolding sweep_session_def wp_bind by (rule wp_check) (simp add: wp_simps)
  have "wp (sweep x now sids) (\<lambda>_ _. True) (\<lambda>_ _. False) m" for now sids m
  proof (induction sids arbitrary: m)
    case (Cons sid sids)
    have "wp (sweep_session x now s) (\<lambda>_. wp (sweep x now sids) (\<lambda>_ _. True) (\<lambda>_ _. False)) (\<lambda>_ _. False) m" for s
      using session by (rule wp_mono) (use Cons.IH in auto)
    then show ?case using Cons.IH by (simp add: wp_simps split: option.split)
  qed (simp add: wp_simps)
  then show ?thesis by (simp add: SweepTerminalSessions_def wp_simps)
qed

text \<open>
  Creating is idempotent: after a successful request with a nonce, the same request finds the session it created, with the
  invitation and the token it was given.
\<close>

theorem create_retry:
  assumes "CreateSession x policy nonce m = (Inr r, m1)" "nonce \<noteq> []"
  shows "\<exists>r1. create_replay m1 policy nonce = Inr (Some r1) \<and> cr_invitation r1 = cr_invitation r \<and> cr_token r1 = cr_token r"
proof -
  have "wp (CreateSession x policy nonce)
      (\<lambda>r m1. \<exists>r1. create_replay m1 policy nonce = Inr (Some r1) \<and> cr_invitation r1 = cr_invitation r \<and> cr_token r1 = cr_token r) (\<lambda>_ _. True) m"
    unfolding CreateSession_def wp_bind
  proof (rule wp_mono [OF wp_Sweep_ok])
    fix u m'
    have "wp (create_new policy def nonce)
        (\<lambda>r m1. \<exists>r1. create_replay m1 policy nonce = Inr (Some r1) \<and> cr_invitation r1 = cr_invitation r \<and> cr_token r1 = cr_token r) (\<lambda>_ _. True) m'"
      if "create_replay m' policy nonce = Inr None" for def
      using that assms(2)
      by (auto simp: create_new_def wp_simps create_replay_def new_session_def update_conv' insert_session_def put_session_def split: if_splits)
    then show "wp (io_get (\<lambda>m. create_checks x m policy)) (\<lambda>checked. wp (io_lift checked) (\<lambda>def. wp (io_get (\<lambda>m. create_replay m policy nonce))
       (\<lambda>replay. wp (io_lift replay) (\<lambda>old. wp (case old of None \<Rightarrow> create_new policy def nonce | Some response \<Rightarrow> io_return response)
         (\<lambda>r m1. \<exists>r1. create_replay m1 policy nonce = Inr (Some r1) \<and> cr_invitation r1 = cr_invitation r \<and> cr_token r1 = cr_token r)
         (\<lambda>_ _. True)) (\<lambda>_ _. True)) (\<lambda>_ _. True)) (\<lambda>_ _. True)) (\<lambda>_ _. True) m'"
      by (auto simp: wp_simps split: sum.split option.split)
  qed simp
  then show ?thesis by (rule wpD) (rule assms(1))
qed

lemma create_uuid_demo:
  "fst (CreateSession demo_bext demo_msg demo_uuid demo_start) =
     Inr \<lparr>cr_invitation = demo_invitation, cr_state = OPEN, cr_token = demo_creator\<rparr>"
proof -
  have "IsValidUuidV4 demo_uuid" by code_simp
  then show ?thesis
    by (simp add: CreateSession_def SweepTerminalSessions_def create_checks_def create_replay_def GetPolicy_def check_schema_def
        create_new_def broker_run demo_defs demo_data)
qed

theorem create_retry_witness:
  "\<exists>r1. create_replay (snd (CreateSession demo_bext demo_msg demo_uuid demo_start)) demo_msg demo_uuid = Inr (Some r1) \<and> cr_token r1 = demo_creator"
  using create_retry [of demo_bext demo_msg demo_uuid demo_start] create_uuid_demo
  by (cases "CreateSession demo_bext demo_msg demo_uuid demo_start") (auto simp: demo_uuid_def)

text \<open>
  The capacity is checked first: a server that is full refuses also the retry of a request that it has served, although
  the retry would create nothing.
\<close>

theorem full_server_refuses_retry:
  assumes "SweepTerminalSessions x m = (Inr (), m1)" "max_sessions (m_options m1) \<le> int (length (m_sessions m1))"
  shows "CreateSession x policy nonce m = (Inl (ResourceExhaustedError
    (''Server at session capacity ('' @ int_str (max_sessions (m_options m1)) @ ''). Try again later.'')), m1)"
  using assms by (simp add: CreateSession_def create_checks_def io_simps)

theorem full_server_refuses_retry_witness:
  "\<exists>m. (\<exists>r. create_replay m demo_msg demo_uuid = Inr (Some r)) \<and>
     (\<exists>m' msg. CreateSession demo_bext demo_msg demo_uuid m = (Inl (ResourceExhaustedError msg), m'))"
proof -
  let ?s = "(demo_session OPEN [(demo_creator, demo_person demo_creator True [] 0)] [] 1)\<lparr>ss_creator_nonce := demo_uuid\<rparr>"
  let ?m = "(demo_manager 2 3 ?s [])\<lparr>m_nonces := [(demo_uuid, demo_sid)], m_options := default_options\<lparr>max_sessions := 1\<rparr>\<rparr>"
  have uuid: "IsValidUuidV4 demo_uuid" "demo_uuid \<noteq> []" by code_simp+
  have sweep: "SweepTerminalSessions demo_bext ?m = (Inr (), ?m\<lparr>m_tick := 4\<rparr>)"
    by (simp add: SweepTerminalSessions_def sweep_session_def should_erase_def broker_run demo_defs demo_data)
  have "\<exists>r. create_replay ?m demo_msg demo_uuid = Inr (Some r)"
    by (simp add: create_replay_def uuid demo_defs demo_data timeout_secs_def)
  moreover have "\<exists>m' msg. CreateSession demo_bext demo_msg demo_uuid ?m = (Inl (ResourceExhaustedError msg), m')"
    using full_server_refuses_retry [OF sweep] by (simp add: demo_defs)
  ultimately show ?thesis by blast
qed

section \<open>The prompt\<close>

lemma key_value: "distinct (map fst qs) \<Longrightarrow> y \<in> set qs \<Longrightarrow> map_of qs (fst y) = Some (snd y)"
  by (cases y) simp

lemma map_of_perm: "mset ps = mset qs \<Longrightarrow> distinct (map fst qs) \<Longrightarrow> map_of ps = map_of qs"
  by (metis map_of_inject_set mset_eq_imp_distinct_iff mset_eq_setD mset_map)

text \<open>
  C29. In the prompt the inputs stand in the order in which their participants joined, each between its own markers, whatever the
  order in which the hash map of the participants is iterated.
\<close>

theorem prompt_chronological:
  assumes "broker_reach x m" "map_of (m_sessions m) sid = Some s" "mset ps = mset (ss_participants s)"
  shows "inputs_block delim ps =
    concat (map (\<lambda>(n, tok, p). input_section delim n (p_input_json p)) (enumerate 1 (ss_participants s)))"
proof -
  let ?qs = "ss_participants s" let ?f = "\<lambda>tok. p_join_index (the (map_of ?qs tok))"
  have sh: "distinct (map fst ?qs)" "map (p_join_index \<circ> snd) ?qs = map int [0..<length ?qs]"
    using manager_okD(2) [OF broker_reach_ok [OF assms(1)] assms(2)] by (auto simp: session_ok_def shape_ok_def Let_def)
  have f: "map ?f (map fst ?qs) = map int [0..<length ?qs]" unfolding sh(2) [symmetric] using key_value [OF sh(1)] by simp
  have "sorted (map ?f (map fst ?qs))" unfolding f by (intro sorted_map_mono sorted_upt mono_onI) simp
  moreover have "distinct (map ?f (map fst ?qs))" unfolding f by (simp add: distinct_map)
  then have "inj_on ?f (set (map fst ?qs))" by (simp only: distinct_map simp_thms)
  moreover have "mset (map fst ps) = mset (map fst ?qs)" using assms(3) by (metis mset_map)
  moreover note mset_eq_setD [OF this]
  ultimately have toks: "sorted_tokens ps = map fst ?qs"
    unfolding sorted_tokens_def map_of_perm [OF assms(3) sh(1)] by (intro sort_key_inj_key_eq) simp_all
  have "map (\<lambda>(n, tok). input_section delim n (p_input_json (the (map_of ?qs tok)))) (enumerate 1 (map fst ?qs)) =
      map (\<lambda>(n, tok, p). input_section delim n (p_input_json p)) (enumerate 1 ?qs)"
    using key_value [OF sh(1)] by (intro nth_equalityI) (auto simp: nth_enumerate_eq case_prod_unfold)
  then show ?thesis unfolding inputs_block_def toks map_of_perm [OF assms(3) sh(1)] by simp
qed

theorem prompt_chronological_witness:
  "inputs_block ''ab'' (rev (demo_two True ''Mon,Tue'' [])) = inputs_block ''ab'' (demo_two True ''Mon,Tue'' [])"
proof -
  have "map_of (m_sessions demo_half) demo_sid = Some (demo_session SEALED (demo_two True ''Mon,Tue'' []) [] 4)"
    by (simp add: demo_half_def demo_manager_def)
  note chrono = prompt_chronological [OF reach_half this, of _ "''ab''"]
  show ?thesis
    using chrono [of "rev (demo_two True ''Mon,Tue'' [])"] chrono [of "demo_two True ''Mon,Tue'' []"] by (simp add: demo_session_def)
qed

section \<open>Errors about private values\<close>

text \<open>
  C28. For two texts that parse to values of the same shape (the same kinds at the same places, an integer being of another kind than
  a float, arrays of equal length, objects with the same keys) whose strings match the same ones of the patterns that occur in the
  schema, validation has the same outcome, its message included.  So a validation error tells nothing else about the value: not the
  digits of a number, not a boolean, not a string beyond the patterns.
\<close>

theorem validation_reveals_shape_only:
  assumes "ParseJsonSafely x json1 = Inr v" "ParseJsonSafely x json2 = Inr w" "ParseJsonSafely x schema_json = Inr schema"
    and "alike (same_matches x schema) v w"
  shows "ValidateJsonSchema x json1 schema_json = ValidateJsonSchema x json2 schema_json"
  using ValidateNode_alike [OF _ assms(4)] assms(1-3) by (simp add: ValidateJsonSchema_def)

text \<open>
  An instance with a pattern: two objects whose slots both fail to begin with a letter \<^verbatim>\<open>T\<close>, one with the secret \<^verbatim>\<open>Monday\<close>.  The
  error is about the pattern.
\<close>

definition slot_schema :: njson where
  "slot_schema = NObj [(''type'', NStr ''object''), (''properties'', NObj
     [(''n'', NObj [(''type'', NStr ''integer'')]), (''slot'', NObj [(''type'', NStr ''string''), (''pattern'', NStr ''T'')])])]"

definition slot_value :: "int \<Rightarrow> string \<Rightarrow> njson" where
  "slot_value n slot = NObj [(''n'', NInt n), (''slot'', NStr slot)]"

definition slot_bext :: bext where
  "slot_bext = demo_bext\<lparr>bx_re2 := \<lambda>p t. take (length p) t = p,
     bx_parse := \<lambda>_ s. Inr (if s = ''schema'' then slot_schema else if s = ''first'' then slot_value 7 ''Monday'' else slot_value 12 [])\<rparr>"

lemma slot_patterns: "pattern_of slot_schema p \<Longrightarrow> p = ''T''"
proof -
  have n: "\<not> pattern_of (NObj [(''type'', NStr ''integer'')]) p" for p
    by (rule notI, erule pattern_of.cases) (auto simp: subschema_def)
  have slot: "pattern_of (NObj [(''type'', NStr ''string''), (''pattern'', NStr ''T'')]) p \<Longrightarrow> p = ''T''" for p
    by (erule pattern_of.cases) (auto simp: subschema_def)
  assume "pattern_of slot_schema p"
  then show ?thesis
    by (rule pattern_of.cases) (auto simp: slot_schema_def subschema_def n, erule slot)
qed

lemma slot_refused: "ValidateNode slot_bext (slot_value 7 ''Monday'') slot_schema = Inl (InvalidArgumentError
    (''Field '' @ [quote_char] @ ''slot'' @ [quote_char] @ '': String does not match pattern '' @ [quote_char] @ ''T'' @ [quote_char]))"
  by code_simp

theorem validation_reveals_shape_only_witness:
  "ValidateJsonSchema slot_bext ''first'' ''schema'' = ValidateJsonSchema slot_bext ''second'' ''schema''
   \<and> (\<exists>msg. ValidateJsonSchema slot_bext ''first'' ''schema'' = Inl (InvalidArgumentError msg))"
proof
  have parse: "ParseJsonSafely slot_bext ''first'' = Inr (slot_value 7 ''Monday'')" "ParseJsonSafely slot_bext ''second'' = Inr (slot_value 12 [])"
    "ParseJsonSafely slot_bext ''schema'' = Inr slot_schema" by (simp_all add: ParseJsonSafely_def slot_bext_def)
  have "same_matches slot_bext slot_schema ''Monday'' []"
    by (auto simp: same_matches_def slot_bext_def dest!: slot_patterns)
  then have "alike (same_matches slot_bext slot_schema) (slot_value 7 ''Monday'') (slot_value 12 [])"
    by (auto simp: slot_value_def alike_simps intro: alike.Int)
  from validation_reveals_shape_only [OF parse this]
  show "ValidateJsonSchema slot_bext ''first'' ''schema'' = ValidateJsonSchema slot_bext ''second'' ''schema''" .
  show "\<exists>msg. ValidateJsonSchema slot_bext ''first'' ''schema'' = Inl (InvalidArgumentError msg)"
    unfolding ValidateJsonSchema_def parse using slot_refused by simp
qed

end
