(* ===== verification/BrokerService.thy ===== *)
theory BrokerService
  imports BrokerLimits
begin

text \<open>
  Around the session manager: the gRPC service of \<^verbatim>\<open>tee/main.cc\<close>, which gates the creation of sessions and turns statuses
  into gRPC codes, and the registry of policies of \<^verbatim>\<open>tee/policy_registry.cc\<close>, which is filled from a directory at startup.
\<close>

section \<open>The gRPC service\<close>

fun AbslToGrpc :: "exn \<Rightarrow> exn" where
  "AbslToGrpc (Exn (RpcError c) msg) = Exn (RpcError
     (if c \<in> {PERMISSION_DENIED, FAILED_PRECONDITION, INVALID_ARGUMENT, NOT_FOUND, RESOURCE_EXHAUSTED, INTERNAL} then c else UNKNOWN)) msg"
| "AbslToGrpc e = e"

definition to_grpc :: "('w, 'a) io \<Rightarrow> ('w, 'a) io" where
  "to_grpc handler = io_catch handler (\<lambda>e. io_raise (AbslToGrpc e))"

text \<open>The flag \<^verbatim>\<open>--creator_token\<close>, or else the environment variable \<^verbatim>\<open>CREATOR_TOKEN\<close>.\<close>

definition required_token :: "string \<Rightarrow> string option \<Rightarrow> string" where
  "required_token flag env = (if flag = [] then (case env of None \<Rightarrow> [] | Some t \<Rightarrow> t) else flag)"

definition creator_refused :: "string \<Rightarrow> (string \<times> string) list \<Rightarrow> bool" where
  "creator_refused required md \<longleftrightarrow> required \<noteq> [] \<and> (case map_of md ''x-ztab-creator-token'' of
      None \<Rightarrow> True
    | Some provided \<Rightarrow> length provided \<noteq> length required \<or> provided \<noteq> required)"

definition service_CreateSession ::
  "bext \<Rightarrow> string \<Rightarrow> string option \<Rightarrow> (string \<times> string) list \<Rightarrow> policy_msg \<Rightarrow> string \<Rightarrow> (manager, create_response) io" where
  "service_CreateSession x flag env md policy nonce =
     (if creator_refused (required_token flag env) md then io_raise invalid_token
      else to_grpc (CreateSession x policy nonce))"

definition service_JoinSession :: "bext \<Rightarrow> string \<Rightarrow> string \<Rightarrow> (manager, join_reply) io" where
  "service_JoinSession x invitation nonce = to_grpc (JoinSession x invitation nonce)"

definition service_AcceptPolicy :: "bext \<Rightarrow> string \<Rightarrow> (manager, int) io" where
  "service_AcceptPolicy x tok = to_grpc (AcceptPolicy x tok)"

definition service_SubmitInput :: "bext \<Rightarrow> string option \<Rightarrow> string \<Rightarrow> string \<Rightarrow> (manager, submit_response) io" where
  "service_SubmitInput x failure tok input_json = to_grpc (SubmitInput x failure tok input_json)"

definition service_GetResult :: "bext \<Rightarrow> string \<Rightarrow> (manager, result_response) io" where
  "service_GetResult x tok = to_grpc (GetResult x tok)"

definition service_GetSessionStatus :: "bext \<Rightarrow> string \<Rightarrow> (manager, status_response) io" where
  "service_GetSessionStatus x tok = to_grpc (GetSessionStatus x tok)"

text \<open>\<^verbatim>\<open>Echo\<close>, with and without an engine; the text of a status is that of \<^verbatim>\<open>Status::ToString\<close>.\<close>

definition service_Echo :: "(string \<Rightarrow> string res) option \<Rightarrow> (exn \<Rightarrow> string) \<Rightarrow> string \<Rightarrow> string res" where
  "service_Echo engine to_string message = (case engine of
      Some generate \<Rightarrow> (case generate message of Inr text \<Rightarrow> Inr text | Inl e \<Rightarrow> Inl (InternalError (to_string e)))
    | None \<Rightarrow> Inr (''Echo: '' @ message))"

lemma status_kept: "c \<in> {PERMISSION_DENIED, FAILED_PRECONDITION, INVALID_ARGUMENT, RESOURCE_EXHAUSTED, INTERNAL} \<Longrightarrow>
    AbslToGrpc (Exn (RpcError c) msg) = Exn (RpcError c) msg"
  by auto

lemma on_error_status: "on_error f r = Inl e \<Longrightarrow> (\<And>msg. AbslToGrpc (f msg) = f msg) \<Longrightarrow> AbslToGrpc e = e"
  by (cases "(f, r)" rule: on_error.cases) auto

lemma create_statuses:
  "create_checks x m policy = Inl e \<Longrightarrow> AbslToGrpc e = e" "create_replay m policy nonce = Inl e \<Longrightarrow> AbslToGrpc e = e"
  by (auto simp: create_checks_def create_replay_def check_schema_def rbind_eq_Inl split: if_splits option.splits dest!: on_error_status)

lemma CreateSession_statuses: "wp (CreateSession x policy nonce) (\<lambda>_ _. True) (\<lambda>e _. AbslToGrpc e = e) m"
  unfolding CreateSession_def wp_bind
  by (rule wp_mono [OF wp_Sweep_ok]) (auto simp: wp_simps create_new_def create_statuses split: sum.split option.split)

lemma to_grpc_same:
  assumes "wp handler (\<lambda>_ _. True) (\<lambda>e _. AbslToGrpc e = e) m"
  shows "to_grpc handler m = handler m"
  using assms by (auto simp: to_grpc_def io_simps wp_def split: prod.splits sum.splits)

text \<open>
  C40. With a creator token configured no request without exactly that token reaches the session manager: it is refused like an
  invalid token and changes nothing.  Any other request is answered by the session manager, and the statuses that this
  gives reach the client with their codes and messages.
\<close>

theorem creation_gated:
  "service_CreateSession x flag env md policy nonce m =
     (if required_token flag env \<noteq> [] \<and> map_of md ''x-ztab-creator-token'' \<noteq> Some (required_token flag env)
      then (Inl invalid_token, m) else CreateSession x policy nonce m)"
proof -
  have "creator_refused (required_token flag env) md \<longleftrightarrow>
      required_token flag env \<noteq> [] \<and> map_of md ''x-ztab-creator-token'' \<noteq> Some (required_token flag env)"
    by (auto simp: creator_refused_def split: option.splits)
  then show ?thesis using to_grpc_same [OF CreateSession_statuses] by (simp add: service_CreateSession_def io_simps)
qed

section \<open>The policy registry\<close>

text \<open>
  \<^verbatim>\<open>LoadFromDirectory\<close> on a directory given by its path and its entries in the order of \<^verbatim>\<open>readdir\<close>, each with its content if
  the file can be opened; \<open>parse\<close> is \<^verbatim>\<open>json::parse\<close> without a callback, of whose exceptions only the \<^verbatim>\<open>parse_error\<close> is caught.  The state is the map of policies: what was
  registered before an error stays.
\<close>

type_synonym registry = "(string \<times> policy_definition) list"

definition is_policy_file :: "string \<Rightarrow> bool" where
  "is_policy_file filename \<longleftrightarrow> \<not> (length filename < 5 \<or> drop (length filename - 5) filename \<noteq> ''.json'')"

fun is_string :: "njson \<Rightarrow> bool" where "is_string (NStr _) = True" | "is_string _ = False"
fun is_object :: "njson \<Rightarrow> bool" where "is_object (NObj _) = True" | "is_object _ = False"

definition has_field :: "njson \<Rightarrow> string \<Rightarrow> (njson \<Rightarrow> bool) \<Rightarrow> bool" where
  "has_field doc key ok \<longleftrightarrow> (case nj_get doc key of None \<Rightarrow> False | Some v \<Rightarrow> ok v)"

definition invalid_field :: "string \<Rightarrow> string \<Rightarrow> exn" where
  "invalid_field key filepath = InvalidArgumentError (''Missing or invalid '' @ quoted key @ '' in '' @ quoted filepath)"

definition text_field :: "njson \<Rightarrow> string \<Rightarrow> string res" where
  "text_field doc key = (case nj_get doc key of None \<Rightarrow> Inr [] | Some v \<Rightarrow> get_string v)"

definition definition_of :: "bext \<Rightarrow> njson \<Rightarrow> policy_definition res" where
  "definition_of x doc = rbind (text_field doc ''prompt_template'') (\<lambda>template. Inr
     \<lparr>prompt_template = template,
      default_input_schema_json = (case nj_get doc ''input_schema'' of None \<Rightarrow> [] | Some v \<Rightarrow> bx_dump x v),
      default_output_schema_json = (if has_field doc ''output_schema'' is_object
        then (case nj_get doc ''output_schema'' of None \<Rightarrow> [] | Some v \<Rightarrow> bx_dump x v) else [])\<rparr>)"

definition load_file :: "bext \<Rightarrow> (string \<Rightarrow> parse_failure + njson) \<Rightarrow> string \<Rightarrow> string option \<Rightarrow> (registry, unit) io" where
  "load_file x parse filepath content = (case content of
      None \<Rightarrow> io_raise (InternalError (''Cannot open policy file: '' @ quoted filepath))
    | Some text' \<Rightarrow> (case parse text' of
        Inl (OutOfRange what) \<Rightarrow> io_raise (out_of_range what)
      | Inl (ParseError what) \<Rightarrow> io_raise (InvalidArgumentError (''Malformed JSON in '' @ quoted filepath @ '': '' @ what))
      | Inr doc \<Rightarrow>
          if \<not> has_field doc ''policy_class'' is_string then io_raise (invalid_field ''policy_class'' filepath)
          else if \<not> has_field doc ''prompt_template'' is_string then io_raise (invalid_field ''prompt_template'' filepath)
          else if \<not> has_field doc ''input_schema'' is_object then io_raise (invalid_field ''input_schema'' filepath)
          else io_bind (io_lift (text_field doc ''policy_class'')) (\<lambda>cls.
            io_bind (io_get (\<lambda>policies. map_of policies cls)) (\<lambda>known.
            if known \<noteq> None
            then io_raise (AlreadyExistsError (''Duplicate policy_class '' @ quoted cls @ '' found in '' @ quoted filepath
              @ ''. Each policy_class must be unique.''))
            else io_bind (io_lift (definition_of x doc)) (\<lambda>def. io_modify (AList.update cls def))))))"

fun load_entries :: "bext \<Rightarrow> (string \<Rightarrow> parse_failure + njson) \<Rightarrow> string \<Rightarrow> (string \<times> string option) list \<Rightarrow> (registry, nat) io" where
  "load_entries x parse dir_path [] = io_return 0"
| "load_entries x parse dir_path ((filename, content) # entries) =
     (if is_policy_file filename
      then io_bind (load_file x parse (dir_path @ ''/'' @ filename) content) (\<lambda>_.
        io_bind (load_entries x parse dir_path entries) (\<lambda>n. io_return (Suc n)))
      else load_entries x parse dir_path entries)"

definition LoadFromDirectory ::
  "bext \<Rightarrow> (string \<Rightarrow> parse_failure + njson) \<Rightarrow> string \<Rightarrow> (string \<times> string option) list option \<Rightarrow> (registry, unit) io" where
  "LoadFromDirectory x parse dir_path entries = (case entries of
      None \<Rightarrow> io_raise (NotFoundError (''Policy directory not found: '' @ quoted dir_path))
    | Some es \<Rightarrow> io_bind (load_entries x parse dir_path es) (\<lambda>loaded.
        if loaded = 0 then io_raise (NotFoundError (''No *.json policy files found in '' @ quoted dir_path)) else io_return ()))"

text \<open>What a policy file gives, where it is well formed.\<close>

definition policy_of :: "bext \<Rightarrow> (string \<Rightarrow> parse_failure + njson) \<Rightarrow> string option \<Rightarrow> (string \<times> policy_definition) option" where
  "policy_of x parse content = (case content of None \<Rightarrow> None | Some text' \<Rightarrow> (case parse text' of Inl _ \<Rightarrow> None
    | Inr doc \<Rightarrow> (case (nj_get doc ''policy_class'', nj_get doc ''prompt_template'', nj_get doc ''input_schema'') of
        (Some (NStr cls), Some (NStr template), Some (NObj i)) \<Rightarrow> Some (cls, \<lparr>prompt_template = template,
          default_input_schema_json = bx_dump x (NObj i),
          default_output_schema_json = (case nj_get doc ''output_schema'' of Some (NObj o') \<Rightarrow> bx_dump x (NObj o') | _ \<Rightarrow> [])\<rparr>)
      | _ \<Rightarrow> None)))"

lemma has_field_string: "has_field doc k is_string \<longleftrightarrow> (\<exists>t. nj_get doc k = Some (NStr t))"
  by (auto simp: has_field_def split: option.splits elim: is_string.elims)

lemma has_field_object: "has_field doc k is_object \<longleftrightarrow> (\<exists>t. nj_get doc k = Some (NObj t))"
  by (auto simp: has_field_def split: option.splits elim: is_object.elims)

lemma load_file_effect:
  "wp (load_file x parse path content)
     (\<lambda>_ ps'. \<exists>cls def. policy_of x parse content = Some (cls, def) \<and> cls \<notin> fst ` set ps \<and> ps' = ps @ [(cls, def)])
     (\<lambda>_ ps'. (policy_of x parse content = None \<or> (\<exists>cls def. policy_of x parse content = Some (cls, def) \<and> cls \<in> fst ` set ps)) \<and> ps' = ps) ps"
proof (cases content)
  case (Some t)
  show ?thesis
  proof (cases "parse t")
    case (Inr doc)
    show ?thesis
    proof (cases "has_field doc ''policy_class'' is_string \<and> has_field doc ''prompt_template'' is_string \<and> has_field doc ''input_schema'' is_object")
      case True
      then obtain cls tmpl i where d: "nj_get doc ''policy_class'' = Some (NStr cls)" "nj_get doc ''prompt_template'' = Some (NStr tmpl)"
          "nj_get doc ''input_schema'' = Some (NObj i)" by (auto simp: has_field_string has_field_object)
      show ?thesis using Some Inr d
        by (auto simp: load_file_def policy_of_def wp_simps text_field_def definition_of_def has_field_def map_of_eq_None_iff update_new
            split: option.splits njson.splits dest: map_of_keyD)
    next
      case False
      then show ?thesis using Some Inr
        by (auto simp: load_file_def policy_of_def wp_simps has_field_string has_field_object split: option.splits njson.splits)
    qed
  qed (use Some in \<open>simp add: load_file_def policy_of_def wp_simps split: parse_failure.split\<close>)
qed (simp add: load_file_def policy_of_def wp_simps)

definition files_of :: "bext \<Rightarrow> (string \<Rightarrow> parse_failure + njson) \<Rightarrow> (string \<times> string option) list \<Rightarrow> (string \<times> policy_definition) option list" where
  "files_of x parse entries = map (policy_of x parse \<circ> snd) (filter (is_policy_file \<circ> fst) entries)"

definition loadable :: "(string \<times> policy_definition) option list \<Rightarrow> registry \<Rightarrow> registry \<Rightarrow> bool" where
  "loadable files ps qs \<longleftrightarrow> files = map Some qs \<and> distinct (map fst qs) \<and> fst ` set ps \<inter> fst ` set qs = {}"

lemma loadable_Cons:
  "loadable (f # files) ps qs \<longleftrightarrow> (\<exists>c d qs'. f = Some (c, d) \<and> c \<notin> fst ` set ps \<and> qs = (c, d) # qs' \<and> loadable files (ps @ [(c, d)]) qs')"
  by (cases qs) (auto simp: loadable_def image_iff)

lemma load_entries_effect:
  "wp (load_entries x parse dir es) (\<lambda>n ps'. \<exists>qs. loadable (files_of x parse es) ps qs \<and> n = length qs \<and> ps' = ps @ qs)
     (\<lambda>_ _. \<nexists>qs. loadable (files_of x parse es) ps qs) ps"
proof (induction es arbitrary: ps)
  case Nil
  show ?case by (simp add: wp_simps files_of_def loadable_def)
next
  case (Cons e es)
  obtain name content where e: "e = (name, content)" by (cases e)
  show ?case
  proof (cases "is_policy_file name")
    case True
    then have files: "files_of x parse (e # es) = policy_of x parse content # files_of x parse es" by (simp add: files_of_def e)
    have rest: "wp (io_bind (load_entries x parse dir es) (\<lambda>n. io_return (Suc n)))
        (\<lambda>n ps''. \<exists>qs. loadable (files_of x parse (e # es)) ps qs \<and> n = length qs \<and> ps'' = ps @ qs)
        (\<lambda>_ _. \<nexists>qs. loadable (files_of x parse (e # es)) ps qs) ps'"
      if "\<exists>cls def. policy_of x parse content = Some (cls, def) \<and> cls \<notin> fst ` set ps \<and> ps' = ps @ [(cls, def)]" for ps'
      using that by (auto simp: files loadable_Cons wp_bind wp_return intro!: wp_mono [OF Cons.IH])
    have "wp (io_bind (load_file x parse (dir @ ''/'' @ name) content) (\<lambda>_. io_bind (load_entries x parse dir es) (\<lambda>n. io_return (Suc n))))
        (\<lambda>n ps'. \<exists>qs. loadable (files_of x parse (e # es)) ps qs \<and> n = length qs \<and> ps' = ps @ qs)
        (\<lambda>_ _. \<nexists>qs. loadable (files_of x parse (e # es)) ps qs) ps"
      unfolding wp_bind [of "load_file x parse (dir @ ''/'' @ name) content"]
      by (rule wp_mono [OF load_file_effect rest]) (auto simp: files loadable_Cons, force)
    then show ?thesis using True by (simp add: e)
  qed (use Cons.IH [of ps] in \<open>simp add: e files_of_def\<close>)
qed

text \<open>
  Loading a directory into an empty registry succeeds exactly when it exists, has a policy file, and its policy files are all well
  formed with distinct classes; the registry then holds the policies of the files, and nothing else.
\<close>

theorem registry_loaded:
  "LoadFromDirectory x parse dir entries [] = (Inr (), ps) \<longleftrightarrow>
     (\<exists>es. entries = Some es \<and> files_of x parse es = map Some ps \<and> ps \<noteq> [] \<and> distinct (map fst ps))"
proof (cases entries)
  case (Some es)
  have unique: "qs = qs'" if "loadable fs [] qs" "loadable fs [] qs'" for fs qs qs'
    using that by (auto simp: loadable_def inj_map_eq_map)
  show ?thesis
  proof (cases "load_entries x parse dir es []")
    case (Pair r ps')
    show ?thesis
    proof (cases r)
      case (Inl e)
      then have "\<nexists>qs. loadable (files_of x parse es) [] qs" using wpD_exn [OF load_entries_effect] Pair by blast
      then show ?thesis using Some Pair Inl by (auto simp: LoadFromDirectory_def io_simps loadable_def)
    next
      case (Inr n)
      then obtain qs where "loadable (files_of x parse es) [] qs" "n = length qs" "ps' = qs"
        using wpD [OF load_entries_effect, of x parse dir es "[]"] Pair by fastforce
      then show ?thesis using Some Pair Inr unique [of "files_of x parse es" qs ps]
        by (auto simp: LoadFromDirectory_def io_simps loadable_def)
    qed
  qed
qed (simp add: LoadFromDirectory_def io_simps)

end
