(* ===== verification/BrokerClient.thy ===== *)
theory BrokerClient
  imports BrokerService McpLoop McpCache
begin

text \<open>
  The two sides of the wire together: the handlers of the gRPC service as the broker that the agent's programs talk to,
  and what a result that the MCP server reports says about the session it came from.
\<close>

section \<open>A broker that is the TEE program\<close>

text \<open>
  The answers of the service when its manager is in a given state.  Metadata is a list of texts; gRPC refuses other
  values before sending.  A policy is sent without the two signature fields, and the agent does not read them from a response.
\<close>

definition wire_metadata :: "metadata \<Rightarrow> (string \<times> string) list option" where
  "wire_metadata md = (case md of None \<Rightarrow> Some []
    | Some kvs \<Rightarrow> those (map (\<lambda>(k, v). case v of PStr s \<Rightarrow> Some (k, s) | _ \<Rightarrow> None) kvs))"

definition wire_policy :: "session_policy \<Rightarrow> policy_msg" where
  "wire_policy policy = session_policy.extend policy \<lparr>sp_signature = [], sp_key_id = []\<rparr>"

definition wire_join :: "join_reply \<Rightarrow> join_response" where
  "wire_join r = \<lparr>jr_state = jp_state r, jr_policy = session_policy.truncate (jp_policy r), jr_token = jp_token r\<rparr>"

definition broker_at :: "bext \<Rightarrow> exn \<Rightarrow> string \<Rightarrow> (string \<Rightarrow> string res) \<Rightarrow> string option \<Rightarrow> manager \<Rightarrow> broker" where
  "broker_at x no_text creator_token echo failure m = \<lparr>b_echo = echo,
     b_create = \<lambda>md policy nonce. (case wire_metadata md of
        None \<Rightarrow> Inl no_text
      | Some kvs \<Rightarrow> fst (service_CreateSession x creator_token None kvs (wire_policy policy) nonce m)),
     b_join = \<lambda>invitation role nonce. map_sum id wire_join (fst (service_JoinSession x invitation nonce m)),
     b_accept = \<lambda>tok. fst (service_AcceptPolicy x tok m),
     b_submit = \<lambda>tok input. fst (service_SubmitInput x failure tok input m),
     b_result = \<lambda>tok. fst (service_GetResult x tok m),
     b_status = \<lambda>tok. fst (service_GetSessionStatus x tok m)\<rparr>"

text \<open>
  Every answer comes from a program that runs this code: \<open>M n ch\<close> is the state of the manager behind the channel \<open>ch\<close> when it
  answers a call made at the moment \<open>n\<close>.  Between two calls of one client any number of other requests and worker steps may
  have been made, so nothing relates the states beyond reachability.
\<close>

definition served_by :: "bext \<Rightarrow> (nat \<Rightarrow> grpc_chan \<Rightarrow> manager) \<Rightarrow> (nat \<Rightarrow> grpc_chan \<Rightarrow> broker) \<Rightarrow> bool" where
  "served_by x M brokers \<longleftrightarrow> (\<forall>n ch. broker_reach x (M n ch) \<and>
     (\<exists>no_text token echo failure. brokers n ch = broker_at x no_text token echo failure (M n ch)))"

section \<open>Results on the agent's side\<close>

lemma quiet_broker: "quiet w w' \<Longrightarrow> w_broker w' = w_broker w"
  unfolding quiet_def by (elim conjE) (drule arg_cong [where f = w_broker], simp)

interpretation fixed_broker: quiet_invariant "\<lambda>w. w_broker w = B" for B
  by unfold_locales (simp_all add: quiet_broker)

lemma service_GetResult_Inr: "fst (service_GetResult x tok m) = Inr r \<Longrightarrow> \<exists>m'. GetResult x tok m = (Inr r, m')"
  by (auto simp: service_GetResult_def to_grpc_def io_simps split: prod.splits sum.splits)

text \<open>A session in which everyone took part.\<close>

definition consented :: "session \<Rightarrow> bool" where
  "consented s \<longleftrightarrow> ss_state s = CLOSED \<and> joined s = ss_expected s \<and> accepted_count s = ss_expected s \<and> submitted_count s = ss_expected s"

text \<open>The text is the result that a manager in this very state holds for the session of the token.\<close>

definition publishes :: "bext \<Rightarrow> manager \<Rightarrow> string \<Rightarrow> string \<Rightarrow> bool" where
  "publishes x m tok result \<longleftrightarrow> (\<exists>s. map_of (m_sessions m) (ss_id s) = Some s \<and> map_of (m_tokens m) tok = Some (ss_id s) \<and>
     tok \<in> set (ss_participant_tokens s) \<and> consented s \<and> result = ss_result_json s \<and> output_ok x s result)"

lemma served_result:
  assumes "served_by x M brokers" "b_result (brokers n ch) tok = Inr r" "rr_state r = CLOSED"
  shows "publishes x (M n ch) tok (rr_json r)"
proof -
  from assms(1) obtain no_text token echo failure where
    m: "broker_reach x (M n ch)" "brokers n ch = broker_at x no_text token echo failure (M n ch)"
    unfolding served_by_def by meson
  with assms(2) obtain m' where get: "GetResult x tok (M n ch) = (Inr r, m')"
    by (auto simp: broker_at_def dest!: service_GetResult_Inr)
  note ok = broker_reach_ok [OF m(1)]
  from GetResult_closed [OF m(1) get assms(3)] obtain s where s: "map_of (m_sessions (M n ch)) (ss_id s) = Some s"
    "tok \<in> set (ss_participant_tokens s)" "consented s" "rr_json r = ss_result_json s" "output_ok x s (rr_json r)"
    by (auto simp: consented_def)
  then have "map_of (m_tokens (M n ch)) tok = Some (ss_id s)"
    using indexedI [OF manager_ok_parts(5) [OF ok] s(1)] tokens_of [OF ok s(1)] by blast
  with s show ?thesis unfolding publishes_def by blast
qed

text \<open>What the answer of a tool says of a result.\<close>

definition reports :: "pyval \<Rightarrow> string \<Rightarrow> bool" where
  "reports answer result \<longleftrightarrow> (case answer of PDict d \<Rightarrow>
      (case json_loads result of Inr v \<Rightarrow> map_of d ''result'' = Some v \<and> map_of d ''result_raw'' = None
       | Inl _ \<Rightarrow> map_of d ''result'' = None \<and> map_of d ''result_raw'' = Some (PStr result))
    | _ \<Rightarrow> False)"

definition has_result :: "pyval \<Rightarrow> bool" where
  "has_result answer \<longleftrightarrow> (case answer of PDict d \<Rightarrow> map_of d ''result'' \<noteq> None \<or> map_of d ''result_raw'' \<noteq> None | _ \<Rightarrow> False)"

lemma result_fields_report:
  assumes "result_fields r name = Inr fs" "has_result (PDict ([(''status'', PStr ''success''), (''state'', PStr name)] @ fs))"
  shows "rr_state r = CLOSED \<and> reports (PDict ([(''status'', PStr ''success''), (''state'', PStr name)] @ fs)) (rr_json r)"
  using assms by (auto simp: result_fields_def has_result_def reports_def split: if_splits sum.splits)

lemma no_result_on_error: "\<not> has_result (grpc_error_result code msg)"
  by (simp add: has_result_def grpc_error_result_def error_result_def)

text \<open>The token a tool call carries, as the message constructor accepts it.\<close>

definition token_argument :: "ext \<Rightarrow> pyval \<Rightarrow> string \<Rightarrow> bool" where
  "token_argument ext arguments tok \<longleftrightarrow> rbind (py_item arguments ''participant_token'') (pb_string ext) = Inr tok"

lemma wp_catch_rpc:
  assumes "wp body (\<lambda>r w. has_result r \<longrightarrow> P r w) (\<lambda>_ _. True) w"
  shows "wp (catch_rpc arguments body) (\<lambda>r w. has_result r \<longrightarrow> P r w) (\<lambda>_ _. True) w"
  using assms unfolding catch_rpc_def
  by (auto simp: wp_def io_simps no_result_on_error split: prod.splits sum.splits exn_kind.splits)

text \<open>The last call in the trace of a state is the request for the result of the token, sent at the last moment over a channel.\<close>

definition asked_last :: "mcp \<Rightarrow> string \<Rightarrow> nat \<Rightarrow> grpc_chan \<Rightarrow> bool" where
  "asked_last w tok n ch \<longleftrightarrow> w_tick w = Suc n \<and>
     (\<exists>c es. w_events w = es @ [RpcSent c (GetResultRequest tok) None] \<and> c < length (w_chans w) \<and> ch = w_chans w ! c)"

lemma run_get_result_published:
  assumes "served_by x M (w_broker w)"
  shows "wp (run_get_result ext arguments)
    (\<lambda>r w'. has_result r \<longrightarrow> (\<exists>tok n ch result. token_argument ext arguments tok \<and> asked_last w' tok n ch
      \<and> publishes x (M n ch) tok result \<and> reports r result))
    (\<lambda>_ _. True) w"
  unfolding run_get_result_def wp_bind
proof (rule wp_mono [OF wp_keeps [OF fixed_broker.cached, of w "w_broker w"]], goal_cases)
  case (2 r w')
  obtain ch stub b where r: "r = (ch, stub, b)" by (cases r)
  define G where "G answer w' \<longleftrightarrow> (\<exists>tok n ch result. token_argument ext arguments tok \<and> asked_last w' tok n ch
    \<and> publishes x (M n ch) tok result \<and> reports answer result)" for answer w'
  have found: "G answer w''"
    if "token_argument ext arguments tok" "stub < length (w_chans w')" "b_result (w_broker w (w_tick w') (w_chans w' ! stub)) tok = Inr a"
      "result_fields a name = Inr fs" "answer = PDict ([(''status'', PStr ''success''), (''state'', PStr name)] @ fs)" "has_result answer"
      "w'' = w_events_update (\<lambda>es. es @ [RpcSent stub (GetResultRequest tok) None]) (w_tick_update Suc w')" for tok a name fs answer w''
  proof -
    have "rr_state a = CLOSED \<and> reports answer (rr_json a)" using result_fields_report that(4-6) by simp
    moreover have "asked_last w'' tok (w_tick w') (w_chans w' ! stub)" using that(2,7) by (auto simp: asked_last_def)
    ultimately show ?thesis using that(1) served_result [OF assms that(3)] unfolding G_def by blast
  qed
  show ?case unfolding r prod.case G_def [symmetric]
    by (rule wp_catch_rpc)
      (use 2 in \<open>auto simp: wp_simps participant_token_def pb_str_def token_argument_def split: sum.split intro!: found\<close>)
qed simp_all

text \<open>
  C5. Across the wire: when the brokers that the MCP server reaches run the modelled TEE program and the tool \<^verbatim>\<open>ztab_get_result\<close>
  answers with a result, then its last call asked for the result of the caller's token, and the manager behind that channel, in
  the state in which it answered, holds the session of this token, closed, in which everyone expected joined, accepted the
  policy and gave an input; the answer holds the text that this session published, parsed when it is JSON and verbatim
  otherwise, and that text satisfies the output schema of its policy.
\<close>

theorem agent_result_published:
  assumes "served_by x M (w_broker w)" and "run_get_result ext arguments w = (Inr answer, w')" and "has_result answer"
  shows "\<exists>tok n ch result. token_argument ext arguments tok \<and> asked_last w' tok n ch
    \<and> publishes x (M n ch) tok result \<and> reports answer result"
  using wpD [OF run_get_result_published [OF assms(1)] assms(2)] assms(3) by simp

text \<open>A server with an open channel to the broker of the sample run, after its result is published.\<close>

definition wired_state :: mcp where
  "wired_state = demo_state\<lparr>w_broker := \<lambda>_ _. broker_at demo_bext (Exn TypeError []) [] Inr None demo_closed\<rparr>"

definition wired_arguments :: pyval where
  "wired_arguments = PDict [(''participant_token'', PStr demo_joiner)]"

lemma wired_served: "served_by demo_bext (\<lambda>_ _. demo_closed) (w_broker wired_state)"
  unfolding served_by_def using reach_closed by (simp add: wired_state_def) blast

lemma wired_stub:
  "get_cached_stub demo_ext wired_arguments wired_state = (Inr (demo_chan, 0, demo_backend), w_tick_update Suc wired_state)"
  by (rule cached_stub_reused [where b = PNone and k = "''b''"])
    (simp_all add: demo_state_fields demo_resolve demo_backend_id cache_lookup_def wired_state_def wired_arguments_def)

definition wired_answer :: pyval where
  "wired_answer = PDict [(''status'', PStr ''success''), (''state'', PStr ''CLOSED''), (''result_raw'', PStr ''Tuesday'')]"

lemma wired_result: "fst (run_get_result demo_ext wired_arguments wired_state) = Inr wired_answer"
proof -
  have "json_loads ''Tuesday'' = Inl (Exn JSONDecodeError (exn_str (projl (json_loads ''Tuesday''))))" by code_simp
  then obtain msg where "json_loads ''Tuesday'' = Inl (Exn JSONDecodeError msg)" by blast
  then have f: "result_fields \<lparr>rr_state = CLOSED, rr_json = ''Tuesday'', rr_error = 0, rr_detail = []\<rparr> n = Inr [(''result_raw'', PStr ''Tuesday'')]" for n
    by (simp add: result_fields_def)
  have r: "service_GetResult demo_bext demo_joiner demo_closed = (Inr \<lparr>rr_state = CLOSED, rr_json = ''Tuesday'', rr_error = 0, rr_detail = []\<rparr>, demo_closed)"
    by (simp add: service_GetResult_def to_grpc_def io_simps result_demo)
  have n: "SessionState_Name CLOSED = Inr ''CLOSED''" by code_simp
  have "wp (run_get_result demo_ext wired_arguments) (\<lambda>a _. a = wired_answer) (\<lambda>_ _. False) wired_state"
    unfolding run_get_result_def wp_bind wp_def [of "get_cached_stub _ _"] wired_stub
    by (simp add: catch_rpc_def wp_simps participant_token_def pb_str_def Let_def wired_arguments_def
        wired_state_def demo_state_def demo_ext_def broker_at_def py_item_def r n f wired_answer_def)
  then show ?thesis by (auto simp: wp_def split: prod.splits sum.splits)
qed

theorem agent_result_published_witness:
  "\<exists>tok result. token_argument demo_ext wired_arguments tok \<and> publishes demo_bext demo_closed tok result \<and> reports wired_answer result"
proof -
  have "run_get_result demo_ext wired_arguments wired_state = (Inr wired_answer, snd (run_get_result demo_ext wired_arguments wired_state))"
    using wired_result by (simp add: prod_eq_iff)
  moreover have "has_result wired_answer" by (simp add: has_result_def wired_answer_def)
  ultimately show ?thesis using agent_result_published [OF wired_served] by blast
qed

end
