(* ===== verification/BrokerTls.thy ===== *)
theory BrokerTls
  imports BrokerSchema ItaVerifier Json
begin

text \<open>
  The broker's end of the TLS connection: \<^verbatim>\<open>tee/tls_cert_generator.cc\<close>, \<^verbatim>\<open>tee/encoding_utils.h\<close>,
  \<^verbatim>\<open>tee/gcp_attestation_token_provider.cc\<close>, and of \<^verbatim>\<open>tee/tls_proxy.cc\<close> the credential cache and the protocol
  selection.  The certificate made here is the one the agent fetches and verifies; the last section puts the two together.

  BoringSSL and the string escaping of Abseil are the fields of \<open>cext\<close>.  A library call that may fail is named by its function
  (and its number, where it occurs twice); \<open>cx_works\<close> tells whether it succeeds in the nth generation of credentials.
\<close>

section \<open>Certificates and packages\<close>

record x509 =
  x_version :: int
  x_serial :: int
  x_not_before :: int
  x_not_after :: int
  x_spki :: bytes
  x_subject :: "(string \<times> string) list"
  x_issuer :: "(string \<times> string) list"
  x_extensions :: "(string \<times> bool \<times> bytes) list"

text \<open>A key pair, opaque; its public half in the form \<^verbatim>\<open>SubjectPublicKeyInfo\<close> is \<open>cx_spki\<close>.\<close>

type_synonym pkey = bytes

record cext =
  cx_works :: "nat \<Rightarrow> string \<Rightarrow> bool"
  cx_keygen :: "nat \<Rightarrow> pkey option"
  cx_spki :: "pkey \<Rightarrow> bytes"
  cx_SHA256 :: "bytes \<Rightarrow> bytes"
  cx_websafe :: "bytes \<Rightarrow> string"
  cx_octets :: "bytes \<Rightarrow> bytes"
  cx_write_key :: "pkey \<Rightarrow> bytes"
  cx_write_cert :: "pkey \<Rightarrow> x509 \<Rightarrow> bytes"
  cx_read_key :: "bytes \<Rightarrow> pkey option"
  cx_read_cert :: "bytes \<Rightarrow> x509 option"
  cx_use_cert :: "x509 \<Rightarrow> bool"
  cx_use_key :: "x509 \<Rightarrow> pkey \<Rightarrow> bool"

text \<open>What a TLS context was loaded with.\<close>

record ssl_ctx =
  ctx_cert :: x509
  ctx_key :: pkey

text \<open>
  The proxy's cache, the clock, and the attestation agent behind its Unix socket: the answer to the nth request, given the
  address, the socket and the body.  \<open>tp_calls\<close> counts the generations of credentials.
\<close>

record tls_proxy =
  tp_clock :: "nat \<Rightarrow> rat"
  tp_tick :: nat
  tp_post :: "nat \<Rightarrow> string \<Rightarrow> string \<Rightarrow> string \<Rightarrow> string res"
  tp_posts :: nat
  tp_calls :: nat
  tp_cert_pem :: bytes
  tp_key_pem :: bytes
  tp_time :: rat
  tp_ctx :: "ssl_ctx option"

definition proxy_Now :: "(tls_proxy, rat) io" where
  "proxy_Now = io_bind (io_get (\<lambda>p. tp_clock p (tp_tick p))) (\<lambda>t. io_bind (io_modify (tp_tick_update Suc)) (\<lambda>_. io_return t))"

definition lib_call :: "cext \<Rightarrow> string \<Rightarrow> string \<Rightarrow> (tls_proxy, unit) io" where
  "lib_call x call msg = io_bind (io_get (\<lambda>p. cx_works x (tp_calls p) call)) (\<lambda>ok.
     if ok then io_return () else io_raise (InternalError msg))"

section \<open>Key, nonce, token\<close>

text \<open>\<^verbatim>\<open>while (!encoded.empty() && encoded.back() == '=') encoded.pop_back();\<close>\<close>

definition Base64UrlEncode :: "cext \<Rightarrow> bytes \<Rightarrow> string" where
  "Base64UrlEncode x input = rstrip_char (CHR ''='') (cx_websafe x input)"

definition GenerateKeyAndGetHash :: "cext \<Rightarrow> (tls_proxy, pkey \<times> bytes) io" where
  "GenerateKeyAndGetHash x =
     io_bind (lib_call x ''EVP_PKEY_CTX_new_id'' ''Failed to create key generator context.'') (\<lambda>_.
     io_bind (lib_call x ''EVP_PKEY_keygen_init'' ''Failed to initialize key generator.'') (\<lambda>_.
     io_bind (lib_call x ''EVP_PKEY_CTX_set_ec_paramgen_curve_nid'' ''Failed to set curve SECP256R1.'') (\<lambda>_.
     io_bind (io_get (\<lambda>p. cx_keygen x (tp_calls p))) (\<lambda>generated. case generated of
       None \<Rightarrow> io_raise (InternalError ''Failed to generate EC key pair.'')
     | Some pkey \<Rightarrow>
         io_bind (lib_call x ''i2d_PUBKEY'' ''Failed to serialize public key to DER.'') (\<lambda>_.
         io_return (pkey, cx_SHA256 x (cx_spki x pkey)))))))"

definition kAgentSocketPath :: string where "kAgentSocketPath = ''/run/container_launcher/teeserver.sock''"
definition kItaTokenUrl :: string where "kItaTokenUrl = ''http://localhost/v1/intel/token''"
definition kAudience :: string where "kAudience = ''ztab_tls''"

definition in_dquotes :: "string \<Rightarrow> string" where
  "in_dquotes s = dquote_char # s @ [dquote_char]"

definition token_request :: "string \<Rightarrow> string" where
  "token_request nonce = ''{'' @ in_dquotes ''audience'' @ '': '' @ in_dquotes kAudience @ '', '' @ in_dquotes ''token_type'' @ '': ''
     @ in_dquotes ''PRINCIPAL_TAGS'' @ '', '' @ in_dquotes ''nonces'' @ '': ['' @ in_dquotes nonce @ '']}''"

definition GetAttestationToken :: "string \<Rightarrow> (tls_proxy, string) io" where
  "GetAttestationToken nonce =
     io_bind (io_get (\<lambda>p. tp_post p (tp_posts p) kItaTokenUrl kAgentSocketPath (token_request nonce))) (\<lambda>response.
     io_bind (io_modify (tp_posts_update Suc)) (\<lambda>_. case response of
       Inl e \<Rightarrow> io_raise (Exn (exn_kind e) (''Failed to fetch ITA attestation token: '' @ exn_str e))
     | Inr token \<Rightarrow> io_return token))"

section \<open>The certificate\<close>

definition kAttestationOid :: string where "kAttestationOid = ''1.3.6.1.4.1.99999.1''"

text \<open>\<^verbatim>\<open>X509_gmtime_adj\<close>: the current second, shifted.\<close>

definition gmtime_adj :: "int \<Rightarrow> (tls_proxy, int) io" where
  "gmtime_adj offset = io_bind proxy_Now (\<lambda>t. io_return (\<lfloor>t\<rfloor> + offset))"

definition ztab_name :: "(string \<times> string) list" where
  "ztab_name = [(''CN'', ''ztab-tee'')]"

text \<open>The calls after the name of the certificate is set, with the messages of their failures.\<close>

definition extension_calls :: "(string \<times> string) list" where
  "extension_calls = [
     (''OBJ_txt2obj'', ''Failed to create ASN1_OBJECT for OID '' @ kAttestationOid),
     (''ASN1_OCTET_STRING_new'', ''Failed to create ASN1_OCTET_STRING.''),
     (''ASN1_OCTET_STRING_set'', ''Failed to set value for ASN1_OCTET_STRING.''),
     (''i2d_ASN1_OCTET_STRING'', ''Failed to DER encode ASN1_OCTET_STRING.''),
     (''ASN1_OCTET_STRING_new 2'', ''Failed to create extension value container.''),
     (''ASN1_OCTET_STRING_set 2'', ''Failed to set extension value bytes.''),
     (''X509_EXTENSION_create_by_OBJ'', ''Failed to create X509_EXTENSION.''),
     (''X509_add_ext'', ''Failed to add extension to certificate.''),
     (''X509_sign'', ''Failed to sign certificate.''),
     (''BIO_new'', ''Failed to create BIO for private key.''),
     (''PEM_write_bio_PrivateKey'', ''Failed to write private key to PEM.''),
     (''BIO_new 2'', ''Failed to create BIO for certificate.''),
     (''PEM_write_bio_X509'', ''Failed to write certificate to PEM.'')]"

fun lib_calls :: "cext \<Rightarrow> (string \<times> string) list \<Rightarrow> (tls_proxy, unit) io" where
  "lib_calls x [] = io_return ()"
| "lib_calls x ((call, msg) # cs) = io_bind (lib_call x call msg) (\<lambda>_. lib_calls x cs)"

definition certificate :: "cext \<Rightarrow> int \<Rightarrow> int \<Rightarrow> pkey \<Rightarrow> string \<Rightarrow> x509" where
  "certificate x not_before not_after pkey token =
     \<lparr>x_version = 2, x_serial = 1, x_not_before = not_before, x_not_after = not_after, x_spki = cx_spki x pkey,
      x_subject = ztab_name, x_issuer = ztab_name, x_extensions = [(kAttestationOid, False, cx_octets x (map char_byte token))]\<rparr>"

definition GenerateCertificate :: "cext \<Rightarrow> pkey option \<Rightarrow> string \<Rightarrow> (tls_proxy, bytes \<times> bytes) io" where
  "GenerateCertificate x own_key attestation_token = (case own_key of
      None \<Rightarrow> io_raise (FailedPreconditionError ''Key pair not generated. Call GenerateKeyAndGetHash() first.'')
    | Some pkey \<Rightarrow>
        io_bind (lib_call x ''X509_new'' ''Failed to create X509 structure.'') (\<lambda>_.
        io_bind (lib_call x ''X509_set_version'' ''Failed to set certificate version.'') (\<lambda>_.
        io_bind (gmtime_adj 0) (\<lambda>not_before.
        io_bind (gmtime_adj (24 * 3600)) (\<lambda>not_after.
        io_bind (lib_call x ''X509_set_pubkey'' ''Failed to associate public key with certificate.'') (\<lambda>_.
        io_bind (lib_call x ''X509_get_subject_name'' ''Failed to get subject name structure.'') (\<lambda>_.
        io_bind (lib_call x ''X509_NAME_add_entry_by_txt'' ''Failed to set subject CN.'') (\<lambda>_.
        io_bind (lib_call x ''X509_set_issuer_name'' ''Failed to set issuer name.'') (\<lambda>_.
        io_bind (lib_calls x extension_calls) (\<lambda>_.
        io_return (cx_write_cert x pkey (certificate x not_before not_after pkey attestation_token), cx_write_key x pkey)))))))))))"

section \<open>The credential cache\<close>

definition fresh_credentials :: "cext \<Rightarrow> (string \<Rightarrow> (tls_proxy, string) io) \<Rightarrow> (tls_proxy, bytes \<times> bytes) io" where
  "fresh_credentials x provider =
     io_bind (io_modify (tp_calls_update Suc)) (\<lambda>_.
     io_bind (GenerateKeyAndGetHash x) (\<lambda>(pkey, hash).
     io_bind (provider (Base64UrlEncode x hash)) (\<lambda>token.
     GenerateCertificate x (Some pkey) token)))"

text \<open>The rebuilt context; every failure leaves none.\<close>

definition loaded_ctx :: "cext \<Rightarrow> nat \<Rightarrow> bytes \<Rightarrow> bytes \<Rightarrow> ssl_ctx option" where
  "loaded_ctx x n cert_pem key_pem =
     (if \<not> cx_works x n ''SSL_CTX_new'' then None
      else case cx_read_cert x cert_pem of
        None \<Rightarrow> None
      | Some cert \<Rightarrow> if \<not> cx_use_cert x cert then None
          else (case cx_read_key x key_pem of
              None \<Rightarrow> None
            | Some pkey \<Rightarrow> if \<not> cx_use_key x cert pkey then None else Some \<lparr>ctx_cert = cert, ctx_key = pkey\<rparr>))"

definition store_credentials :: "cext \<Rightarrow> bytes \<times> bytes \<Rightarrow> (tls_proxy, ssl_ctx option) io" where
  "store_credentials x = (\<lambda>(cert_pem, key_pem).
     io_bind (io_modify (\<lambda>p. p\<lparr>tp_cert_pem := cert_pem, tp_key_pem := key_pem\<rparr>)) (\<lambda>_.
     io_bind proxy_Now (\<lambda>now.
     io_bind (io_modify (\<lambda>p. p\<lparr>tp_time := now, tp_ctx := loaded_ctx x (tp_calls p) cert_pem key_pem\<rparr>)) (\<lambda>_.
     io_get tp_ctx))))"

text \<open>\<^verbatim>\<open>nullptr\<close> is \<open>None\<close>; a status on the way is logged and gives it too.\<close>

definition GetOrCreateSSLCtx :: "cext \<Rightarrow> (string \<Rightarrow> (tls_proxy, string) io) \<Rightarrow> (tls_proxy, ssl_ctx option) io" where
  "GetOrCreateSSLCtx x provider =
     io_bind proxy_Now (\<lambda>now. io_bind (io_get id) (\<lambda>p.
     if now - tp_time p < 10 \<and> tp_cert_pem p \<noteq> [] then io_return (tp_ctx p)
     else io_catch (io_bind (fresh_credentials x provider) (store_credentials x)) (\<lambda>_. io_return None)))"

definition initial_proxy :: "(nat \<Rightarrow> rat) \<Rightarrow> (nat \<Rightarrow> string \<Rightarrow> string \<Rightarrow> string \<Rightarrow> string res) \<Rightarrow> tls_proxy" where
  "initial_proxy clock post = \<lparr>tp_clock = clock, tp_tick = 0, tp_post = post, tp_posts = 0, tp_calls = 0,
     tp_cert_pem = [], tp_key_pem = [], tp_time = 0, tp_ctx = None\<rparr>"

text \<open>The proxy of a broker with the ITA provider, after some number of connections.\<close>

fun proxy_after :: "cext \<Rightarrow> nat \<Rightarrow> tls_proxy \<Rightarrow> tls_proxy" where
  "proxy_after x 0 p = p"
| "proxy_after x (Suc n) p = proxy_after x n (snd (GetOrCreateSSLCtx x GetAttestationToken p))"

section \<open>Protocol selection\<close>

text \<open>
  \<^verbatim>\<open>ALPNSelectCallback\<close> on the client's list of protocols, each with its length in front: where \<^verbatim>\<open>*out\<close> points to and \<^verbatim>\<open>*outlen\<close>, or
  nothing when the callback answers \<^verbatim>\<open>SSL_TLSEXT_ERR_NOACK\<close>.  The list of a handshake is shorter than 65536 bytes, so that the
  sums stay far below the bounds of an unsigned int.
\<close>

definition H2 :: bytes where "H2 = map char_byte ''h2''"

function ALPNSelectCallback :: "bytes \<Rightarrow> nat \<Rightarrow> (nat \<times> nat) option" where
  "ALPNSelectCallback input i =
     (if i < length input then
        let len = unat (input ! i) in
        if i + 1 + len > length input then None
        else if len = 2 \<and> input ! (i + 1) = H2 ! 0 \<and> input ! (i + 2) = H2 ! 1 then Some (i + 1, 2)
        else ALPNSelectCallback input (i + (1 + len))
      else None)"
  by pat_completeness auto
termination
  by (relation "measure (\<lambda>(input, i). length input - i)") auto

declare ALPNSelectCallback.simps [simp del]

definition alpn_list :: "bytes list \<Rightarrow> bytes" where
  "alpn_list protocols = concat (map (\<lambda>q. of_nat (length q) # q) protocols)"

lemma ALPN_in_range: "ALPNSelectCallback input i = Some (off, n) \<Longrightarrow> off + n \<le> length input"
  by (induction input i rule: ALPNSelectCallback.induct) (auto simp: ALPNSelectCallback.simps [of _ i for i] Let_def split: if_splits)

lemma ALPN_list:
  assumes "list_all (\<lambda>q. length q < 256) ps" "input = pre @ alpn_list ps"
  shows "case ALPNSelectCallback input (length pre) of None \<Rightarrow> H2 \<notin> set ps
    | Some (off, n) \<Rightarrow> H2 \<in> set ps \<and> take n (drop off input) = H2"
  using assms
proof (induction ps arbitrary: pre)
  case Nil
  then show ?case by (subst ALPNSelectCallback.simps) (simp add: alpn_list_def)
next
  case (Cons q ps)
  have input: "input = pre @ of_nat (length q) # q @ alpn_list ps" using Cons.prems(2) by (simp add: alpn_list_def)
  have len: "unat (input ! length pre) = length q"
    using Cons.prems(1) by (simp add: input nth_append unat_of_nat take_bit_nat_eq_self)
  have h2: "q = H2 \<longleftrightarrow> length q = 2 \<and> input ! (length pre + 1) = H2 ! 0 \<and> input ! (length pre + 2) = H2 ! 1"
    by (auto simp: input nth_append H2_def numeral_2_eq_2 length_Suc_conv)
  have bounds: "length pre < length input" "\<not> length pre + 1 + length q > length input" by (simp_all add: input)
  have step: "ALPNSelectCallback input (length pre) =
      (if q = H2 then Some (length pre + 1, 2) else ALPNSelectCallback input (length pre + (1 + length q)))"
    unfolding h2 using bounds by (subst ALPNSelectCallback.simps) (simp add: Let_def len)
  show ?case
  proof (cases "q = H2")
    case True
    then have "take 2 (drop (length pre + 1) input) = H2" by (simp add: input H2_def)
    with True show ?thesis by (simp add: step)
  next
    case False
    with step have "ALPNSelectCallback input (length pre) = ALPNSelectCallback input (length (pre @ of_nat (length q) # q))" by simp
    then show ?thesis using Cons.IH [of "pre @ of_nat (length q) # q"] Cons.prems False input by (auto split: option.splits)
  qed
qed

section \<open>Contexts are bound to their keys\<close>

text \<open>
  What a context of the proxy is: its certificate is for its key, and in its only extension carries a token that the
  attestation agent gave for the hash of that very key.
\<close>

definition requested_nonce :: "cext \<Rightarrow> ssl_ctx \<Rightarrow> string" where
  "requested_nonce x ctx = Base64UrlEncode x (cx_SHA256 x (x_spki (ctx_cert ctx)))"

definition bound_context :: "cext \<Rightarrow> (nat \<Rightarrow> string \<Rightarrow> string \<Rightarrow> string \<Rightarrow> string res) \<Rightarrow> ssl_ctx \<Rightarrow> string \<Rightarrow> bool" where
  "bound_context x post ctx token \<longleftrightarrow>
     x_spki (ctx_cert ctx) = cx_spki x (ctx_key ctx) \<and>
     (\<exists>n. post n kItaTokenUrl kAgentSocketPath (token_request (requested_nonce x ctx)) = Inr token) \<and>
     x_extensions (ctx_cert ctx) = [(kAttestationOid, False, cx_octets x (map char_byte token))]"

text \<open>What the PEM functions of the library read back is what they wrote, if they read it at all.\<close>

definition pem_faithful :: "cext \<Rightarrow> bool" where
  "pem_faithful x \<longleftrightarrow> (\<forall>k c c'. cx_read_cert x (cx_write_cert x k c) = Some c' \<longrightarrow> c' = c)
     \<and> (\<forall>k k'. cx_read_key x (cx_write_key x k) = Some k' \<longrightarrow> k' = k)"

text \<open>What generating credentials leaves alone.\<close>

definition same_cache :: "tls_proxy \<Rightarrow> tls_proxy \<Rightarrow> bool" where
  "same_cache p p' \<longleftrightarrow> tp_clock p' = tp_clock p \<and> tp_post p' = tp_post p \<and> tp_cert_pem p' = tp_cert_pem p \<and>
     tp_key_pem p' = tp_key_pem p \<and> tp_time p' = tp_time p \<and> tp_ctx p' = tp_ctx p"

lemma same_cache_counters [simp]:
  "same_cache p p" "same_cache p (tp_tick_update f q) = same_cache p q" "same_cache p (tp_posts_update f q) = same_cache p q"
  "same_cache p (tp_calls_update f q) = same_cache p q" "same_cache (tp_tick_update f p) q = same_cache p q"
  by (simp_all add: same_cache_def)

lemma wp_proxy_Now [wp_simps]: "wp proxy_Now Q E p = Q (tp_clock p (tp_tick p)) (tp_tick_update Suc p)"
  by (simp add: proxy_Now_def wp_simps)

lemma wp_lib_call [wp_simps]:
  "wp (lib_call x call msg) Q E p = (if cx_works x (tp_calls p) call then Q () p else E (InternalError msg) p)"
  by (simp add: lib_call_def wp_simps)

lemma wp_lib_calls:
  assumes "Q () p" "\<And>e. E e p"
  shows "wp (lib_calls x cs) Q E p"
  using assms by (induction cs rule: lib_calls.induct [of _ x]) (simp_all add: wp_simps)

lemma wp_GenerateKeyAndGetHash:
  "wp (GenerateKeyAndGetHash x) (\<lambda>(k, h) p'. h = cx_SHA256 x (cx_spki x k) \<and> p' = p) (\<lambda>_ p'. p' = p) p"
  by (simp add: GenerateKeyAndGetHash_def wp_simps split: option.split)

lemma wp_GetAttestationToken:
  "wp (GetAttestationToken nonce)
     (\<lambda>token p'. tp_post p (tp_posts p) kItaTokenUrl kAgentSocketPath (token_request nonce) = Inr token \<and> p' = tp_posts_update Suc p)
     (\<lambda>_ p'. p' = tp_posts_update Suc p) p"
  by (simp add: GetAttestationToken_def wp_simps split: sum.split)

lemma wp_GenerateCertificate:
  "wp (GenerateCertificate x (Some k) token)
     (\<lambda>pems p'. (\<exists>nb na. pems = (cx_write_cert x k (certificate x nb na k token), cx_write_key x k)) \<and>
        same_cache p p' \<and> tp_calls p' = tp_calls p)
     (\<lambda>_ p'. same_cache p p') p"
  unfolding GenerateCertificate_def gmtime_adj_def
  by (auto simp: wp_simps same_cache_def intro!: wp_lib_calls) blast

lemma certificate_bound:
  "post n kItaTokenUrl kAgentSocketPath (token_request (Base64UrlEncode x (cx_SHA256 x (cx_spki x k)))) = Inr token \<Longrightarrow>
   bound_context x post \<lparr>ctx_cert = certificate x nb na k token, ctx_key = k\<rparr> token"
  by (auto simp: bound_context_def requested_nonce_def certificate_def)

definition made_by :: "cext \<Rightarrow> tls_proxy \<Rightarrow> bytes \<times> bytes \<Rightarrow> bool" where
  "made_by x p pems \<longleftrightarrow> (\<exists>ctx token. bound_context x (tp_post p) ctx token \<and>
     pems = (cx_write_cert x (ctx_key ctx) (ctx_cert ctx), cx_write_key x (ctx_key ctx)))"

lemma made_by_tick [simp]: "made_by x (tp_tick_update f p) = made_by x p"
  by (simp add: made_by_def fun_eq_iff)

lemma made_byI:
  "post n kItaTokenUrl kAgentSocketPath (token_request (Base64UrlEncode x (cx_SHA256 x (cx_spki x k)))) = Inr token \<Longrightarrow> tp_post p = post \<Longrightarrow>
   made_by x p (cx_write_cert x k (certificate x nb na k token), cx_write_key x k)"
  unfolding made_by_def using certificate_bound [of post n x k token nb na] by (metis ssl_ctx.select_convs)

lemma wp_fresh_credentials:
  "wp (fresh_credentials x GetAttestationToken)
     (\<lambda>pems p'. made_by x p pems \<and> same_cache p p' \<and> tp_calls p' = Suc (tp_calls p)) (\<lambda>_ p'. same_cache p p') p"
proof -
  have cert: "wp (GenerateCertificate x (Some k) token)
      (\<lambda>pems p'. made_by x p pems \<and> same_cache p p' \<and> tp_calls p' = Suc (tp_calls p)) (\<lambda>_ p'. same_cache p p') q"
    if "tp_post p n kItaTokenUrl kAgentSocketPath (token_request (Base64UrlEncode x (cx_SHA256 x (cx_spki x k)))) = Inr token"
      "same_cache p q" "tp_calls q = Suc (tp_calls p)" for k n token q
    by (rule wp_mono [OF wp_GenerateCertificate]) (use that made_byI [OF that(1) refl] in \<open>auto simp: same_cache_def\<close>)
  have "wp (GetAttestationToken (Base64UrlEncode x (cx_SHA256 x (cx_spki x k)))) (\<lambda>token. wp (GenerateCertificate x (Some k) token)
      (\<lambda>pems p'. made_by x p pems \<and> same_cache p p' \<and> tp_calls p' = Suc (tp_calls p)) (\<lambda>_ p'. same_cache p p'))
      (\<lambda>_ p'. same_cache p p') (tp_calls_update Suc p)" for k
    by (rule wp_mono [OF wp_GetAttestationToken]) (auto intro: cert)
  then show ?thesis unfolding fresh_credentials_def wp_bind wp_modify
    by (intro wp_mono [OF wp_GenerateKeyAndGetHash]) (auto simp: wp_bind)
qed

lemma loaded_ctx_made:
  assumes "pem_faithful x" "made_by x p pems" "loaded_ctx x n (fst pems) (snd pems) = Some ctx"
  shows "\<exists>token. bound_context x (tp_post p) ctx token"
  using assms by (force simp: made_by_def loaded_ctx_def pem_faithful_def bound_context_def requested_nonce_def split: if_splits option.splits)

text \<open>The outcome of one connection: none, or a context that is bound, from a cache younger than ten seconds or just made.\<close>

definition ctx_cache_ok :: "cext \<Rightarrow> tls_proxy \<Rightarrow> bool" where
  "ctx_cache_ok x p \<longleftrightarrow> (\<forall>ctx. tp_ctx p = Some ctx \<longrightarrow> (\<exists>token. bound_context x (tp_post p) ctx token))"

lemma wp_GetOrCreateSSLCtx:
  assumes "pem_faithful x" "ctx_cache_ok x p"
  shows "wp (GetOrCreateSSLCtx x GetAttestationToken)
     (\<lambda>r p'. ctx_cache_ok x p' \<and> tp_post p' = tp_post p \<and> (\<forall>ctx. r = Some ctx \<longrightarrow> tp_ctx p' = Some ctx \<and>
        (tp_clock p (tp_tick p) - tp_time p < 10 \<or> tp_calls p' = Suc (tp_calls p)))) (\<lambda>_ _. False) p" (is "wp _ ?Q _ p")
proof -
  have store: "wp (store_credentials x pems) (\<lambda>r p'. ctx_cache_ok x p' \<and> tp_post p' = tp_post p \<and> r = tp_ctx p' \<and> tp_calls p' = Suc (tp_calls p))
      (\<lambda>_ _. False) q" if "made_by x p pems" "same_cache p q" "tp_calls q = Suc (tp_calls p)" for pems q
    using that loaded_ctx_made [OF assms(1) that(1)]
    by (auto simp: store_credentials_def wp_simps ctx_cache_ok_def same_cache_def split: prod.splits)
  have "wp (io_catch (io_bind (fresh_credentials x GetAttestationToken) (store_credentials x)) (\<lambda>_. io_return None)) ?Q
      (\<lambda>_ _. False) (tp_tick_update Suc p)"
    unfolding wp_catch wp_bind
    by (rule wp_mono [OF wp_fresh_credentials])
      (use assms(2) in \<open>auto simp: same_cache_def ctx_cache_ok_def wp_simps intro!: wp_mono [OF store]\<close>)
  then show ?thesis unfolding GetOrCreateSSLCtx_def wp_bind [of proxy_Now] wp_bind [of "io_get id"]
    using assms(2) by (simp add: wp_proxy_Now wp_get wp_return ctx_cache_ok_def)
qed

lemma proxy_after_ok:
  assumes "pem_faithful x" "ctx_cache_ok x p"
  shows "ctx_cache_ok x (proxy_after x n p) \<and> tp_post (proxy_after x n p) = tp_post p"
  using assms(2)
proof (induction n arbitrary: p)
  case (Suc n)
  obtain r p' where r: "GetOrCreateSSLCtx x GetAttestationToken p = (r, p')" by fastforce
  with wp_GetOrCreateSSLCtx [OF assms(1) Suc.prems] have "ctx_cache_ok x p'" "tp_post p' = tp_post p"
    by (auto simp: wp_def split: sum.splits)
  with Suc.IH show ?case by (simp add: r)
qed simp

lemma initial_proxy_ok: "ctx_cache_ok x (initial_proxy clock post)" "tp_post (initial_proxy clock post) = post"
  by (simp_all add: ctx_cache_ok_def initial_proxy_def)

lemma context_bound:
  assumes "pem_faithful x" "p = proxy_after x n (initial_proxy clock post)" "GetOrCreateSSLCtx x GetAttestationToken p = (r, p')"
  shows "\<exists>ctx. r = Inr ctx \<and> (\<forall>c. ctx = Some c \<longrightarrow> (\<exists>token. bound_context x post c token) \<and>
    (tp_clock p (tp_tick p) - tp_time p < 10 \<or> tp_calls p' = Suc (tp_calls p)))"
proof -
  have p: "ctx_cache_ok x p" "tp_post p = post" using proxy_after_ok [OF assms(1) initial_proxy_ok(1)] by (simp_all add: assms(2) initial_proxy_ok)
  have "wp (GetOrCreateSSLCtx x GetAttestationToken) (\<lambda>r p'. \<forall>c. r = Some c \<longrightarrow> (\<exists>token. bound_context x post c token) \<and>
      (tp_clock p (tp_tick p) - tp_time p < 10 \<or> tp_calls p' = Suc (tp_calls p))) (\<lambda>_ _. False) p"
    by (rule wp_mono [OF wp_GetOrCreateSSLCtx [OF assms(1) p(1)]]) (auto simp: ctx_cache_ok_def p(2))
  with assms(3) show ?thesis by (auto simp: wp_def split: sum.splits)
qed

section \<open>The agent on the other side\<close>

text \<open>What the code takes from the packages: SHA-256, base64 with the URL-safe alphabet, padded or not, and the DER form of an OCTET STRING.\<close>

definition standard_crypto :: "cext \<Rightarrow> bool" where
  "standard_crypto x \<longleftrightarrow> cx_SHA256 x = sha256 \<and> cx_octets x = der_octet_string \<and>
     (\<forall>bs. cx_websafe x bs = urlsafe_b64encode bs \<or> cx_websafe x bs = base64url_encode_nopad bs)"

text \<open>The agent's X.509 package reads this certificate out of these bytes.\<close>

definition reads_cert :: "ext \<Rightarrow> bytes \<Rightarrow> x509 \<Rightarrow> bool" where
  "reads_cert ext pem cert \<longleftrightarrow> pem_spki ext pem = Inr (x_spki cert) \<and>
     (\<forall>oid. pem_extension ext pem oid = Inr (map_option snd (map_of (x_extensions cert) oid)))"

text \<open>
  The attestation service: a token is text, and its claims have the documented shape and carry the nonce of the
  request it was given for.
\<close>

definition attests :: "(nat \<Rightarrow> string \<Rightarrow> string \<Rightarrow> string \<Rightarrow> string res) \<Rightarrow> (string \<Rightarrow> pyval) \<Rightarrow> (string \<Rightarrow> cs_token) \<Rightarrow> bool" where
  "attests post claims_of token_of \<longleftrightarrow> (\<forall>n nonce token. post n kItaTokenUrl kAgentSocketPath (token_request nonce) = Inr token \<longrightarrow>
     wf_text token \<and> token \<noteq> [] \<and> length token < 256 ^ 127 \<and> cs_shaped (claims_of token) (token_of token) \<and>
     t_nonce (token_of token) = nonce)"

lemma Base64UrlEncode_standard: "standard_crypto x \<Longrightarrow> Base64UrlEncode x bs = base64url_encode_nopad bs"
proof -
  assume x: "standard_crypto x"
  have "CHR ''='' \<notin> set (base64url_encode_nopad bs)" by (rule nopad_shape [of bs]) simp
  then have "rstrip_char (CHR ''='') (base64url_encode_nopad bs) = base64url_encode_nopad bs"
    using rstrip_replicate [of "CHR ''=''" _ 0] by simp
  with x show ?thesis unfolding Base64UrlEncode_def standard_crypto_def
    using base64url_encode_nopad_def [of bs] by (metis (no_types))
qed

lemma bound_token:
  assumes "standard_crypto x" "attests post claims_of token_of" "bound_context x post ctx token" "reads_cert ext pem (ctx_cert ctx)"
  shows "extract_attestation_token ext pem = Inr (Some token)"
    and "compute_pubkey_hash_b64url ext pem = Inr (t_nonce (token_of token))"
    and "cs_shaped (claims_of token) (token_of token)"
proof -
  from assms(2,3) have t: "wf_text token" "token \<noteq> []" "length token < 256 ^ 127" "cs_shaped (claims_of token) (token_of token)"
    "t_nonce (token_of token) = requested_nonce x ctx"
    unfolding attests_def bound_context_def by blast+
  have "pem_extension ext pem ATTESTATION_OID = Inr (Some (der_octet_string (map char_byte token)))"
    using assms(1,3,4) by (simp add: reads_cert_def bound_context_def standard_crypto_def kAttestationOid_def ATTESTATION_OID_def)
  then show "extract_attestation_token ext pem = Inr (Some token)"
    using t token_of_der [of "map char_byte token"] by (simp add: extract_attestation_token_def wf_text_def)
  show "compute_pubkey_hash_b64url ext pem = Inr (t_nonce (token_of token))"
    using assms(1,4) by (simp add: t(5) requested_nonce_def Base64UrlEncode_standard compute_pubkey_hash_b64url_def
        extract_pubkey_from_cert_def reads_cert_def standard_crypto_def)
  show "cs_shaped (claims_of token) (token_of token)" by (rule t(4))
qed

section \<open>A sample broker\<close>

definition sample_cert :: x509 where
  "sample_cert = \<lparr>x_version = 2, x_serial = 1, x_not_before = 0, x_not_after = 86400, x_spki = [1, 2, 3],
     x_subject = ztab_name, x_issuer = ztab_name, x_extensions = [(kAttestationOid, False, der_octet_string (map char_byte ''t''))]\<rparr>"

definition sample_cext :: cext where
  "sample_cext = \<lparr>cx_works = \<lambda>_ _. True, cx_keygen = \<lambda>_. Some [7], cx_spki = \<lambda>_. [1, 2, 3], cx_SHA256 = sha256,
     cx_websafe = base64url_encode_nopad, cx_octets = der_octet_string, cx_write_key = \<lambda>k. k,
     cx_write_cert = \<lambda>_ c. if c = sample_cert then [1] else [2], cx_read_key = Some,
     cx_read_cert = \<lambda>pem. if pem = [1] then Some sample_cert else None, cx_use_cert = \<lambda>_. True, cx_use_key = \<lambda>_ _. True\<rparr>"

definition sample_post :: "nat \<Rightarrow> string \<Rightarrow> string \<Rightarrow> string \<Rightarrow> string res" where
  "sample_post n url socket body = (if body = token_request sample_nonce then Inr ''t'' else Inl refused)"

definition sample_proxy :: tls_proxy where
  "sample_proxy = initial_proxy (\<lambda>_. 0) sample_post"

definition sample_ctx :: ssl_ctx where
  "sample_ctx = \<lparr>ctx_cert = sample_cert, ctx_key = [7]\<rparr>"

definition sample_reader :: ext where
  "sample_reader = sample_ext\<lparr>pem_extension := \<lambda>_ oid. Inr (map_option snd (map_of (x_extensions sample_cert) oid))\<rparr>"

lemma sample_cext_ok: "pem_faithful sample_cext" "standard_crypto sample_cext"
  by (simp_all add: pem_faithful_def standard_crypto_def sample_cext_def)

lemma sample_served: "\<exists>p'. GetOrCreateSSLCtx sample_cext GetAttestationToken sample_proxy = (Inr (Some sample_ctx), p')"
proof -
  have n: "Base64UrlEncode sample_cext (sha256 [1, 2, 3]) = sample_nonce"
    by (simp add: Base64UrlEncode_standard [OF sample_cext_ok(2)] sample_nonce_def)
  have c: "certificate sample_cext 0 86400 [7] ''t'' = sample_cert"
    by (simp add: certificate_def sample_cext_def sample_cert_def)
  have calls: "wp (lib_calls sample_cext cs) Q E p = Q () p" for cs Q E p
    by (induction cs) (auto simp: wp_simps sample_cext_def)
  have f: "cx_works sample_cext k call" "cx_keygen sample_cext k = Some [7]" "cx_spki sample_cext key = [1, 2, 3]" "cx_SHA256 sample_cext = sha256"
    "cx_write_cert sample_cext key sample_cert = [1]" "cx_write_key sample_cext key = key" "loaded_ctx sample_cext k [1] [7] = Some sample_ctx"
    for k call key by (simp_all add: sample_cext_def loaded_ctx_def sample_ctx_def)
  have "wp (GetOrCreateSSLCtx sample_cext GetAttestationToken) (\<lambda>r _. r = Some sample_ctx) (\<lambda>_ _. False) sample_proxy"
    by (simp add: GetOrCreateSSLCtx_def fresh_credentials_def GenerateKeyAndGetHash_def GetAttestationToken_def GenerateCertificate_def
        gmtime_adj_def store_credentials_def wp_simps sample_proxy_def initial_proxy_def f n c calls sample_post_def)
  then show ?thesis by (auto simp: wp_def split: prod.splits sum.splits)
qed

lemma token_request_inject [simp]: "token_request a = token_request b \<longleftrightarrow> a = b"
  by (simp add: token_request_def in_dquotes_def)

lemma sample_attests: "attests sample_post (\<lambda>_. sample_claims) (\<lambda>_. sample_token)"
proof -
  have "wf_text ''t''" by (intro ascii_wf_text) (simp add: is_ascii_def)
  moreover have "(1 :: nat) < 256 ^ 127" by (rule one_less_power) simp_all
  moreover have "t_nonce sample_token = sample_nonce" by (simp add: sample_token_def)
  ultimately show ?thesis using sample_shaped by (simp add: attests_def sample_post_def)
qed

lemma sample_reads: "reads_cert sample_reader pem (ctx_cert sample_ctx)"
  by (simp add: reads_cert_def sample_reader_def sample_ctx_def sample_ext_def sample_cert_def)

lemma url_safe_code:
  assumes "url_safe c"
  shows "45 \<le> (of_char c :: nat) \<and> (of_char c :: nat) < 127 \<and> of_char c \<noteq> (92 :: nat)"
proof -
  have "list_all (\<lambda>c. 45 \<le> (of_char c :: nat) \<and> (of_char c :: nat) < 127 \<and> of_char c \<noteq> (92 :: nat))
      ''ABCDEFGHIJKLMNOPQRSTUVWXYZabcdefghijklmnopqrstuvwxyz0123456789-_''" by code_simp
  then show ?thesis using assms unfolding url_safe_def list_all_iff by blast
qed

lemma json_str_url_safe: "list_all url_safe s \<Longrightarrow> json_str s = in_dquotes s \<and> scalar_text s"
proof (induction s)
  case (Cons c s)
  note c = url_safe_code [of c]
  have "json_esc (of_char c) = [c]" using c Cons.prems by (simp add: json_esc_def)
  then show ?case using Cons c
    by (simp add: json_str_def in_dquotes_def scalar_text_def utf8_text_def utf8_enc_def is_scalar_def)
qed (simp add: json_str_def in_dquotes_def scalar_text_def utf8_text_def)

section \<open>Properties\<close>

text \<open>
  C8. After any number of connections, at any times and whatever the clock, the libraries and the attestation agent answer, a connection
  to the proxy gets no TLS context or one whose certificate is for the key it is used with and carries a token the
  attestation agent gave for the hash of that key; the context comes from a cache less than ten seconds old or was just made.
\<close>

theorem proxy_context_bound:
  assumes "pem_faithful x" and "p = proxy_after x n (initial_proxy clock post)"
    and "GetOrCreateSSLCtx x GetAttestationToken p = (r, p')"
  shows "\<exists>ctx. r = Inr ctx \<and> (\<forall>c. ctx = Some c \<longrightarrow> (\<exists>token. bound_context x post c token) \<and>
    (tp_clock p (tp_tick p) - tp_time p < 10 \<or> tp_calls p' = Suc (tp_calls p)))"
  by (rule context_bound [OF assms])

theorem proxy_context_bound_witness: "\<exists>token. bound_context sample_cext sample_post sample_ctx token"
proof -
  obtain p' where "GetOrCreateSSLCtx sample_cext GetAttestationToken sample_proxy = (Inr (Some sample_ctx), p')"
    using sample_served by blast
  from proxy_context_bound [OF sample_cext_ok(1) _ this, of 0 "\<lambda>_. 0" sample_post]
  show ?thesis by (auto simp: sample_proxy_def)
qed

text \<open>
  C38. The protocol callback picks \<^verbatim>\<open>h2\<close> exactly when the client offers it: on every well-formed list of protocol names it answers with the
  place of an entry \<^verbatim>\<open>h2\<close> in the list if there is one, and refuses otherwise.
\<close>

theorem alpn_selects_h2:
  assumes "list_all (\<lambda>q. length q < 256) protocols"
  shows "case ALPNSelectCallback (alpn_list protocols) 0 of None \<Rightarrow> H2 \<notin> set protocols
    | Some (off, n) \<Rightarrow> H2 \<in> set protocols \<and> take n (drop off (alpn_list protocols)) = H2"
  using ALPN_list [OF assms, of "alpn_list protocols" "[]"] by simp

theorem alpn_selects_h2_witness:
  "case ALPNSelectCallback (alpn_list [map char_byte ''http/1.1'', H2]) 0 of None \<Rightarrow> H2 \<notin> set [map char_byte ''http/1.1'', H2]
    | Some (off, n) \<Rightarrow> H2 \<in> set [map char_byte ''http/1.1'', H2] \<and> take n (drop off (alpn_list [map char_byte ''http/1.1'', H2])) = H2"
  by (rule alpn_selects_h2) (simp add: H2_def)

text \<open>
  The body of a token request is a JSON object for every nonce of the URL-safe alphabet:
  it asks for one nonce, the given one, and for the audience that the agent's verifier expects.
\<close>

theorem token_request_json:
  assumes "list_all url_safe nonce"
  shows "json_loads (token_request nonce) = Inr (PDict [(''audience'', PStr EXPECTED_AUDIENCE),
    (''token_type'', PStr ''PRINCIPAL_TAGS''), (''nonces'', PList [PStr nonce])])"
proof -
  have s: "list_all url_safe ''audience''" "list_all url_safe ''token_type''" "list_all url_safe ''PRINCIPAL_TAGS''"
    "list_all url_safe ''nonces''" "list_all url_safe kAudience" by (simp_all add: url_safe_def kAudience_def)
  note strs = s [THEN json_str_url_safe, THEN conjunct1] json_str_url_safe [OF assms, THEN conjunct1]
  note texts = s [THEN json_str_url_safe, THEN conjunct2] json_str_url_safe [OF assms, THEN conjunct2]
  let ?v = "PDict [(''audience'', PStr kAudience), (''token_type'', PStr ''PRINCIPAL_TAGS''), (''nonces'', PList [PStr nonce])]"
  have "token_request nonce = json_dumps ?v"
    by (simp only: token_request_def json_dumps_def json_dump.simps json_dump_list.simps json_dump_dict.simps strs join_str.simps
        json_nl_def json_sep_def if_False append.simps append_assoc append_Nil2)
  moreover have "json_plain ?v"
    by (simp only: json_plain.simps list.pred_inject texts fst_conv snd_conv list.map simp_thms) simp
  ultimately show ?thesis using json_roundtrip(1) [of ?v] by (simp only: EXPECTED_AUDIENCE_def kAudience_def)
qed

theorem token_request_json_witness:
  "json_loads (token_request ''aZ0-_'') = Inr (PDict [(''audience'', PStr EXPECTED_AUDIENCE),
    (''token_type'', PStr ''PRINCIPAL_TAGS''), (''nonces'', PList [PStr ''aZ0-_''])])"
  by (rule token_request_json) (simp add: url_safe_def)

text \<open>
  C7. Broker and agent agree on the binding.  Let the agent read the certificate that an honest proxy serves, let the attestation service put
  the requested nonce into its tokens, and let the cryptographic functions be the standard ones.  Then the agent extracts the token
  the broker embedded, and once that token decodes, the ITA verifier answers exactly whether its claims
  meet the policy: the nonce check, which compares against the hash of the presented key, never refuses an honest broker.
\<close>

theorem agent_accepts_honest_broker:
  assumes "pem_faithful x" and "standard_crypto x" and "p = proxy_after x n (initial_proxy clock post)"
    and "GetOrCreateSSLCtx x GetAttestationToken p = (Inr (Some ctx), p')"
    and "attests post claims_of token_of" and "reads_cert ext pem (ctx_cert ctx)" and "ita_typed q" and "min_cs_version q \<noteq> 0"
  shows "\<exists>token. extract_attestation_token ext pem = Inr (Some token) \<and>
    (\<forall>w w'. decode_token ext q token w = (Inr (Some (claims_of token)), w') \<longrightarrow>
      ita_verifier ext q token pem w = (Inr (cs_trusted q (t_nonce (token_of token)) (token_of token)), w'))"
proof -
  from context_bound [OF assms(1,3,4)] obtain token where "bound_context x post ctx token" by blast
  note t = bound_token [OF assms(2,5) this assms(6)]
  have "verify_claims ext q (claims_of token) pem = Inr (cs_trusted q (t_nonce (token_of token)) (token_of token))"
    by (rule verify_claims_cs [OF t(3) assms(7,8) t(2)])
  with t(1) show ?thesis by (auto simp: ita_verifier_def io_simps)
qed

theorem agent_accepts_honest_broker_witness:
  "\<exists>token. extract_attestation_token sample_reader [0] = Inr (Some token) \<and>
    (\<forall>(w :: world) w'. decode_token sample_reader sample_policy token w = (Inr (Some sample_claims), w') \<longrightarrow>
      ita_verifier sample_reader sample_policy token [0] w = (Inr (cs_trusted sample_policy (t_nonce sample_token) sample_token), w'))"
proof -
  obtain p' where "GetOrCreateSSLCtx sample_cext GetAttestationToken sample_proxy = (Inr (Some sample_ctx), p')"
    using sample_served by blast
  from agent_accepts_honest_broker [OF sample_cext_ok _ this sample_attests sample_reads sample_policy_ok(1,2), of 0 "\<lambda>_. 0"]
  show ?thesis by (simp add: sample_proxy_def)
qed

section \<open>The ten seconds\<close>

text \<open>
  A broker that is asked three times: the first connection makes the credentials, the second comes 9.5 seconds later,
  the third one second after the second.  Keys are numbered.
\<close>

definition race_cext :: cext where
  "race_cext = sample_cext\<lparr>cx_keygen := \<lambda>n. Some [of_nat n], cx_spki := \<lambda>k. k, cx_write_cert := \<lambda>k _. k,
     cx_read_cert := \<lambda>k. Some (sample_cert\<lparr>x_spki := k\<rparr>)\<rparr>"

definition race_clock :: "nat \<Rightarrow> rat" where
  "race_clock n = (if n < 4 then 0 else if n = 4 then 19 / 2 else 21 / 2)"

definition race_proxy :: "nat \<Rightarrow> nat \<Rightarrow> bytes \<Rightarrow> rat \<Rightarrow> tls_proxy" where
  "race_proxy i calls k t = \<lparr>tp_clock = race_clock, tp_tick = i, tp_post = \<lambda>_ _ _ _. Inr ''t'', tp_posts = calls, tp_calls = calls,
     tp_cert_pem = k, tp_key_pem = k, tp_time = t,
     tp_ctx = (if k = [] then None else Some \<lparr>ctx_cert = sample_cert\<lparr>x_spki := k\<rparr>, ctx_key = k\<rparr>)\<rparr>"

lemma race_made:
  assumes "race_clock i - t \<ge> 10 \<or> k = []"
  shows "GetOrCreateSSLCtx race_cext GetAttestationToken (race_proxy i n k t) =
    (Inr (Some \<lparr>ctx_cert = sample_cert\<lparr>x_spki := [of_nat (Suc n)]\<rparr>, ctx_key = [of_nat (Suc n)]\<rparr>),
     race_proxy (i + 4) (Suc n) [of_nat (Suc n)] (race_clock (i + 3)))"
proof -
  have calls: "lib_calls race_cext cs p = (Inr (), p)" for cs p
    by (induction cs) (auto simp: io_simps lib_call_def race_cext_def sample_cext_def)
  have f: "cx_works race_cext j call" "cx_keygen race_cext j = Some [of_nat j]" "cx_spki race_cext key = key"
    "cx_write_cert race_cext key c = key" "cx_write_key race_cext key = key"
    "loaded_ctx race_cext j key key = Some \<lparr>ctx_cert = sample_cert\<lparr>x_spki := key\<rparr>, ctx_key = key\<rparr>"
    for j call key c by (simp_all add: race_cext_def sample_cext_def loaded_ctx_def)
  show ?thesis using assms
    by (auto simp: GetOrCreateSSLCtx_def fresh_credentials_def GenerateKeyAndGetHash_def GetAttestationToken_def GenerateCertificate_def
        gmtime_adj_def store_credentials_def proxy_Now_def lib_call_def io_simps f calls race_proxy_def numeral_3_eq_3)
qed

text \<open>
  The age of the cache counts from the generation of the credentials and not from the connection that fetched them.  So a fetch
  that is served from an old cache can be followed, a second later, by a connection with another key: the agent's channel, which
  trusts the fetched certificate only, is then refused although the broker is honest.
\<close>

theorem preflight_race:
  "\<exists>c2 c3 p2 p3. GetOrCreateSSLCtx race_cext GetAttestationToken (proxy_after race_cext 1 (race_proxy 0 0 [] 0)) = (Inr (Some c2), p2)
     \<and> GetOrCreateSSLCtx race_cext GetAttestationToken p2 = (Inr (Some c3), p3)
     \<and> tp_clock p2 (tp_tick p2) = race_clock 4 + 1 \<and> x_spki (ctx_cert c2) \<noteq> x_spki (ctx_cert c3)"
proof -
  have one: "proxy_after race_cext 1 (race_proxy 0 0 [] 0) = race_proxy 4 1 [1] 0"
    using race_made [of 0 0 "[]" 0] by (simp add: race_clock_def)
  have two: "GetOrCreateSSLCtx race_cext GetAttestationToken (race_proxy 4 1 [1] 0) =
      (Inr (Some \<lparr>ctx_cert = sample_cert\<lparr>x_spki := [1]\<rparr>, ctx_key = [1]\<rparr>), race_proxy 5 1 [1] 0)"
    by (simp add: GetOrCreateSSLCtx_def proxy_Now_def io_simps race_proxy_def race_clock_def)
  have three: "GetOrCreateSSLCtx race_cext GetAttestationToken (race_proxy 5 1 [1] 0) =
      (Inr (Some \<lparr>ctx_cert = sample_cert\<lparr>x_spki := [2]\<rparr>, ctx_key = [2]\<rparr>), race_proxy 9 2 [2] (race_clock 8))"
    using race_made [of 5 0 "[1]" 1] by (simp add: race_clock_def numeral_2_eq_2)
  show ?thesis unfolding one two
    by (rule exI, rule exI, rule exI, rule exI, intro conjI, rule refl, rule three) (simp_all add: race_proxy_def race_clock_def)
qed

end
