(* ===== verification/Spec2Isabelle.thy ===== *)
theory Spec2Isabelle
  imports JwksThreads McpRefine McpResources McpDispatch Cli DiagnoseTls Calendar GenerateProtos LiveDemo BrokerClient BrokerTls
begin

text \<open>
  A verification development for ZTAB: the Python programs under \<^verbatim>\<open>src/agent\<close> with which an agent talks to a broker that
  runs inside a trusted execution environment, and the core of that broker, written in C++ under \<^verbatim>\<open>src/tee\<close>.  The agent
  fetches the broker's self-signed TLS certificate, reads an attestation token out of it, checks
  the token against a policy, and only then opens a gRPC channel that trusts exactly that
  certificate.  Two programs sit on top: an MCP server for agent frameworks and a command line
  client.  The broker keeps sessions: participants join, accept a policy and submit inputs; when all inputs are there, a
  background thread asks a language model and publishes the result to the participants.

  \<^bold>\<open>Parts and theories\<close>
  \<^item> \<open>Prelude\<close>: exceptions and results, computations with state and exceptions (\<open>io\<close>), invariants of
    computations (\<open>keeps\<close>) and weakest preconditions (\<open>wp\<close>); the rule collections the other theories fill.
  \<^item> \<open>PyValue\<close>, \<open>Codec\<close>, \<open>Sha256\<close>, \<open>Json\<close>: the Python values and library functions the code uses:
    dynamic values with equality, truth, iteration, \<^verbatim>\<open>int()\<close> and printing; UTF-8 and base64; SHA-256; \<^verbatim>\<open>json.loads\<close> and
    \<^verbatim>\<open>json.dumps\<close>.  A text is the list of bytes of its UTF-8 encoding.
  \<^item> \<open>VerifierPolicy\<close>: \<^verbatim>\<open>verifier_policy.py\<close> and \<^verbatim>\<open>verifier_factory.py\<close>; the policy classes as one datatype, \<open>validate\<close>,
    \<open>create_verifier\<close>, \<open>to_dict\<close>, \<open>policy_from_dict\<close>, \<open>get_verifier\<close>.
  \<^item> \<open>World\<close>: the state of the process and its surroundings: environment, clock, web, TLS peers,
    files, broker, output, channels, trace of events; the protocol messages of
    \<^verbatim>\<open>session_manager.proto\<close>; the third-party packages as the fields of \<open>ext\<close>.
  \<^item> \<open>Attestation\<close>: \<^verbatim>\<open>attestation.py\<close>, the token in the certificate extension.
  \<^item> \<open>ItaVerifier\<close>: \<^verbatim>\<open>ita_verifier.py\<close>: the key cache (\<open>get_jwks\<close>), key lookup with forced refresh
    (\<open>signing_key\<close>), token decoding (\<open>decode_token\<close>), the five checks (\<open>verify_issuer\<close>, \<open>verify_hw_claims\<close>,
    \<open>verify_platform_identity\<close>, \<open>verify_key_binding\<close>, \<open>verify_container_identity\<close>) and \<open>ita_verifier\<close>.
  \<^item> \<open>JwksThreads\<close>: the key cache again, as a transition system of threads with one step per access to the
    shared dictionary or the lock.
  \<^item> \<open>Client\<close>: \<^verbatim>\<open>client.py\<close>: \<open>connect\<close>, \<open>zc_close\<close>, the no-op verifier; the locale \<open>connector\<close> is the
    contract of a connection attempt.
  \<^item> \<open>McpTools\<close>, \<open>McpBackends\<close>, \<open>McpServer\<close>: \<^verbatim>\<open>mcp_server.py\<close>: the tool table and argument validation;
    loading \<^verbatim>\<open>backends.json\<close>, the channel cache, policies from backends; the handlers, \<open>handle_request\<close> and the
    loop \<open>serve\<close> over the lines of standard input.  The module variables are the fields that \<open>mcp\<close>
    adds to the world.
  \<^item> \<open>McpInvariant\<close>: the locales \<open>loader_invariant\<close>, \<open>config_invariant\<close>, \<open>server_invariant\<close> and \<open>loop_invariant\<close>: what a
    predicate must survive to hold after every request, with preservation proved once per layer;
    \<open>channel_invariant\<close> states the same for predicates of the channels, in terms of opening and closing one.
  \<^item> \<open>McpSafety\<close>: the instance for attested channels; \<open>McpLoop\<close>: the instances for output and environment,
    and the protocol stream; \<open>McpCache\<close>: reload, reuse and eviction; \<open>McpRefine\<close>: the server as
    a refinement of an abstract channel cache, whose runs (\<open>cache_run\<close>) carry the trace of openings and closings; \<open>McpResources\<close>: which channels are
    open; \<open>McpDispatch\<close>: tool calls and
    methods; \<open>McpDemo\<close>, \<open>LiveDemo\<close>: concrete surroundings for evaluation, in a test environment and in production.
  \<^item> \<open>Cli\<close>: \<^verbatim>\<open>cli.py\<close>: option tables, policy from options, the commands and \<^verbatim>\<open>main\<close>.
  \<^item> \<open>DiagnoseTls\<close>: \<^verbatim>\<open>diagnose_tls.py\<close>.  \<open>GenerateProtos\<close>: \<^verbatim>\<open>generate_protos.py\<close>, over a small file system.
    \<open>Calendar\<close>: \<^verbatim>\<open>examples/calendar/scenario.py\<close>, the validation of results.  \<open>PyPath\<close>: the path functions they use.
  \<^item> \<open>BrokerSchema\<close>, \<open>Broker\<close>: \<^verbatim>\<open>tee/session_manager.cc\<close>: JSON schema validation; the manager's maps as the record \<open>manager\<close>, the six
    RPC handlers, timeouts, sweep and background thread, each locked section one computation; \<open>broker_step\<close> lets the
    sections interleave in every order and \<open>broker_reach\<close> are the states this reaches.  \<open>SubmitInput\<close> (\<open>SubmitInput_store\<close>, then
    \<open>SubmitInput_spawn\<close>) and \<open>ProcessSessionAsync\<close> compose the sections of the handler and of the thread when nothing comes between them.
  \<^item> \<open>BrokerInvariant\<close>: when sessions and manager are well formed (\<open>session_ok\<close>, \<open>manager_ok\<close>); \<open>BrokerSteps\<close>: the small changes of state
    (\<open>mstep\<close>) and that each keeps it; \<open>BrokerRuns\<close>: every handler is a sequence of them, with the locale \<open>manager_invariant\<close> for
    what survives them; \<open>BrokerProtocol\<close>: the abstract protocol of a session (\<open>proto\<close>) and the refinement; \<open>BrokerDemo\<close>: a complete
    run on concrete surroundings.
  \<^item> \<open>BrokerSafety\<close>, \<open>BrokerProgress\<close>, \<open>BrokerLimits\<close>: the properties of the session manager; \<open>BrokerProgress\<close> has those on how
    sessions end, by removal or by the end of the computation, over infinite runs (\<open>broker_run_of\<close>).  \<open>BrokerService\<close>: \<^verbatim>\<open>tee/main.cc\<close>, the gRPC service, and
    \<^verbatim>\<open>tee/policy_registry.cc\<close>.
  \<^item> \<open>BrokerTls\<close>: \<^verbatim>\<open>tee/tls_cert_generator.cc\<close>, \<^verbatim>\<open>tee/encoding_utils.h\<close>, \<^verbatim>\<open>tee/gcp_attestation_token_provider.cc\<close> and the credential cache and ALPN
    callback of \<^verbatim>\<open>tee/tls_proxy.cc\<close>, together with the agent's verifier.
  \<^item> \<open>BrokerClient\<close>: the service as the broker of the agent's world, and the MCP server on top of it.

  \<^bold>\<open>How effects are modelled.\<close>  A function with effects is a computation from a state to a result and
  a state; an exception is a value and keeps the state reached.  Answers of the outside (clock, web,
  peers, files, broker) are functions of the number of interactions so far, so nothing is assumed
  about them: the same question may be answered differently each time.  Every theorem holds for all
  such functions and for all packages \<open>ext\<close>, unless a hypothesis says otherwise.

  \<^bold>\<open>What is shown.\<close>  Policies: exactly which validate, and that production admits no bypass.  The
  verifier: a True answer implies a decoded token whose claims meet the policy and are bound to the
  certificate's key; on well-shaped tokens the checks decide exactly the specification; it fails
  closed; the key cache is fresh, also when threads share it.  Connections: no channel without an accepting verdict for its
  certificate.  The MCP server: every RPC of every run goes over an attested channel; one response
  per request, readable and in order, and nothing else on the protocol stream; reload, reuse,
  eviction and argument checks; the inputs on which the loop stops; every run is a run of the
  abstract channel cache, and no connection is leaked.  The command line client: at
  most one channel, attested, closed on all paths; no exception escapes; no input that is not JSON
  is sent; every accepted command line gives a well-typed policy, the
  one the MCP server would build from the same settings.  The stub generator reports success only
  after the compiler's.  The calendar scenario judges every list of strings, and right.  Round trips for policies, base64url, the certificate extension and JSON.
  The broker, in every reachable state of every interleaving: a result is handed out only to a participant of a session in which
  everyone expected joined, accepted and gave an input, and it satisfies the output schema; every session follows the protocol with the
  policy of the registry; tokens decide who is answered, and requests do not touch other sessions; a session that is computed has its
  thread, and every computation ends in every run that is fair to it; sessions are removed only when they are due; sizes are bounded;
  refused requests have no effect, but for a session whose thread cannot be started; retried joins are idempotent; validation errors
  reveal no more of a value than its shape and the patterns it matches; prompts are chronological; creation is gated.  The TLS proxy serves only certificates bound to
  their key by a token.  Across the wire: what the MCP server reports as a result was published by such a session, and an honest broker's
  certificate passes the agent's key binding.

  \<^bold>\<open>Assumptions on the broker's surroundings.\<close>  A step that creates a session or a participant is considered only when the strings it draws
  from the random generator are not in use (\<open>fresh_draws\<close>).  Clock, engine, packages (\<open>bext\<close>, \<open>cext\<close>) and thread creation are
  arbitrary.  Hash maps are association lists; nothing depends on their order.  A C++ exception that the code does not catch
  is an exception of the model; in the background thread, where it would end the process, the thread makes no further step.  That a thread which can run
  does so at some time is a hypothesis (\<open>fair_to_worker\<close>), as is, for the end of a computation, that no such exception occurs.

  \<^bold>\<open>Bounds.\<close>  Loops are structural recursions or have a termination proof.  \<open>json_value\<close> uses fuel, one
  more than the length of the text; \<open>json_value_enough\<close> shows that this never runs out.  Integer
  literals of more than 4300 digits are refused as CPython does.

  \<^bold>\<open>Not modelled.\<close>  Log output, tracebacks and the help texts of argparse; how argparse splits the words of
  a command line; Python's recursion limit (deeply nested JSON raises \<^verbatim>\<open>RecursionError\<close>), memory and interrupts; digits and white space
  outside ASCII, which \<^verbatim>\<open>int()\<close> and \<^verbatim>\<open>strip()\<close> accept too; the shortest form in which Python prints a float: a float is kept and written as the
  literal that was read; a clock that is set back, in \<open>JwksThreads\<close> only; PyJWT, the X.509 and protobuf
  packages and gRPC itself, which are parameters; the test harness, of which the record of a test case
  is all that appears.  Of the broker: the start-up in \<^verbatim>\<open>RunServer\<close>, the sockets and threads of the TLS proxy, the wrapper of the
  inference engine, the HTTP client of the attestation agent and the mock provider of tokens; BoringSSL, the JSON package and RE2 are
  parameters.
\<close>

section \<open>Attested in production\<close>

text \<open>What stands behind a certificate that the client trusts in production.\<close>

definition production_attested :: "ext \<Rightarrow> ita_policy \<Rightarrow> bytes \<Rightarrow> bool" where
  "production_attested ext q cert \<longleftrightarrow>
     expected_image_digests q \<noteq> [] \<and> 0 < min_cs_version q \<and> \<not> truthy (allow_debug q) \<and> \<not> truthy (allow_memory_monitoring q) \<and>
     (\<exists>token jwks claims nonce. extract_attestation_token ext cert = Inr (Some token) \<and>
        token_checked ext q token jwks claims \<and> compute_pubkey_hash_b64url ext cert = Inr nonce \<and> attested_claims q nonce claims)"

lemma production_accepted:
  assumes "get_verifier env p = Inr v" "\<not> is_test_env env" "accepted_by ext v env es cert"
  shows "\<exists>q. p = ItaPolicy q \<and> v = ita_verifier_fn q \<and> production_attested ext q cert"
proof (cases p)
  case NoopPolicy
  with assms(1,2) show ?thesis by (simp add: get_verifier_Inr noop_validate_def is_test_env_def split: if_splits)
next
  case (ItaPolicy q)
  with assms(1) have v: "v = ita_verifier_fn q" "ita_validate env q = Inr ()"
    by (simp_all add: get_verifier_Inr)
  then have q: "list_all is_str (expected_image_digests q)" "0 < min_cs_version q" "expected_image_digests q \<noteq> []"
    "\<not> truthy (allow_debug q)" "\<not> truthy (allow_memory_monitoring q)"
    using assms(2) by (auto simp: ita_validate_iff list_all_iff ita_bypasses_def)
  from assms(3) v(1) obtain token jwks claims where t: "extract_attestation_token ext cert = Inr (Some token)"
    "token_checked ext q token jwks claims" "verify_claims ext q claims cert = Inr True"
    by (auto simp: accepted_by_def trusted_by_def)
  with verify_claims_sound [OF t(3) q(1,2)] q ItaPolicy v show ?thesis
    unfolding production_attested_def by blast
qed

text \<open>A production connection that succeeds, in the surroundings of the production run.\<close>

definition live_chan :: ztab_channel where
  "live_chan = \<lparr>zc_host = PStr ''h'', zc_port = 1, zc_verifier = ita_verifier_fn sample_policy, zc_grpc = None,
     zc_token = None, zc_cert = None\<rparr>"

lemma live_connects: "\<exists>ch. fst (connect live_ext live_chan live_world) = Inr ch"
proof -
  have "wp (connect live_ext live_chan) (\<lambda>_ _. True) (\<lambda>_ _. False) live_world"
    by (simp add: live_connection live_chan_def live_world_def sample_world_def null_world_def)
  then show ?thesis by (auto simp: wp_def split: prod.splits sum.splits)
qed

text \<open>
  C1.  End to end, one connection.  Outside a test environment, when the factory gives a verifier for
  a policy and a channel built with it connects, then the policy is an ITA policy with pinned
  digests, a version floor and no bypass; the channel's only trust root carries a token that
  decoded under a published key; and the claims in it meet the policy, with the nonce equal to the
  hash of the very public key the TLS connection will authenticate.
\<close>

theorem production_connection_attested:
  assumes "\<not> is_test_env (w_env w)" and "get_verifier (w_env w) policy = Inr v"
    and "ZtabChannel host port (Some v) = Inr self" and "connect ext self w = (Inr ch, w')"
  shows "\<exists>q gc. policy = ItaPolicy q \<and> w_chans w' = w_chans w @ [gc] \<and> zc_grpc ch = Some (length (w_chans w)) \<and>
    gc_open gc \<and> production_attested ext q (gc_root gc)"
proof -
  have v: "zc_verifier self = v" using assms(3) by (auto simp: ZtabChannel_def)
  from wpD [OF connect_effect assms(4)] have q: "quiet w w'" and c: "Client.connected ext self w ch w'" by simp_all
  from c obtain cert where "zc_grpc ch = Some (length (w_chans w))"
    "w_chans w' = w_chans w @ [\<lparr>gc_target = zc_target self, gc_root = cert, gc_override = ''ztab-tee'', gc_open = True\<rparr>]"
    "accepted_by ext v (w_env w) (w_events w') cert"
    by (auto simp: Client.connected_def accepted_by_def v quiet_fields(1) [OF q])
  with production_accepted [OF assms(2,1)] show ?thesis by fastforce
qed

theorem production_connection_attested_witness:
  "\<exists>q gc. ItaPolicy sample_policy = ItaPolicy q \<and>
    w_chans (snd (connect live_ext live_chan live_world)) = w_chans live_world @ [gc] \<and>
    zc_grpc (projr (fst (connect live_ext live_chan live_world))) = Some (length (w_chans live_world)) \<and>
    gc_open gc \<and> production_attested live_ext q (gc_root gc)"
proof (rule production_connection_attested)
  show "\<not> is_test_env (w_env live_world)"
    by (simp add: live_world_def sample_world_def null_world_def is_test_env_def)
  show "get_verifier (w_env live_world) (ItaPolicy sample_policy) = Inr (ita_verifier_fn sample_policy)"
    using sample_policy_ok(3) by (simp add: get_verifier_Inr)
  show "ZtabChannel (PStr ''h'') 1 (Some (ita_verifier_fn sample_policy)) = Inr live_chan"
    by (simp add: ZtabChannel_def live_chan_def)
  show "connect live_ext live_chan live_world =
      (Inr (projr (fst (connect live_ext live_chan live_world))), snd (connect live_ext live_chan live_world))"
    using live_connects by (auto simp: prod_eq_iff)
qed

text \<open>
  C15.  End to end, the whole server.  Outside a test environment, whatever lines the MCP server reads
  and whatever its files, the network and the brokers answer, every channel it ever opened trusts
  a certificate that is attested under an ITA policy with pinned digests and no bypass.
\<close>

theorem mcp_production_channels:
  assumes "w_chans w = []" and "w_events w = []" and "\<not> is_test_env (w_env w)"
  shows "list_all (\<lambda>gc. \<exists>q. production_attested ext q (gc_root gc)) (w_chans (snd (mcp_main ext lines (mcp_start w home))))"
proof -
  let ?w = "snd (mcp_main ext lines (mcp_start w home))"
  have "mcp_ok ext ?w" by (rule keepsD [OF mcp_ok.main mcp_ok_start [OF assms(1,2)]])
  moreover have "w_env ?w = w_env w"
    by (rule keepsD [OF fixed_env.main]) (simp add: mcp_start_def world.extend_def)
  ultimately show ?thesis
    using production_accepted assms(3)
    by (fastforce simp: mcp_ok_def chans_ok_def factory_accepted_def list_all_iff)
qed

text \<open>The production run, which opens a channel.\<close>

theorem mcp_production_channels_witness:
  "\<exists>gc gcs q. w_chans (snd (mcp_main live_ext [demo_line] (mcp_start live_world ''/''))) = gc # gcs \<and> production_attested live_ext q (gc_root gc)"
proof -
  have "list_all (\<lambda>gc. \<exists>q. production_attested live_ext q (gc_root gc)) (w_chans (snd (mcp_main live_ext [demo_line] (mcp_start live_world ''/''))))"
    by (rule mcp_production_channels) (simp_all add: live_world_def sample_world_def null_world_def is_test_env_def)
  with live_run show ?thesis by (cases "w_chans (snd (mcp_main live_ext [demo_line] (mcp_start live_world ''/'')))") auto
qed

section \<open>One policy, two front ends\<close>

text \<open>Digests that survive being joined by commas and split again.\<close>

definition plain_digest :: "string \<Rightarrow> bool" where
  "plain_digest d \<longleftrightarrow> d \<noteq> [] \<and> strip d = d \<and> CHR '','' \<notin> set d"

lemma split_join:
  "ds \<noteq> [] \<Longrightarrow> list_all (\<lambda>d. c \<notin> set d) ds \<Longrightarrow> split_on c (join_str [c] ds) = ds"
  by (induction ds rule: induct_list012) (simp_all add: split_on_no_sep split_on_append)

lemma digest_list_join:
  assumes "list_all plain_digest ds" "ds \<noteq> []"
  shows "digest_list (join_str '','' ds) = ds" "join_str '','' ds \<noteq> []"
proof -
  have d: "strip d = d" "d \<noteq> []" "CHR '','' \<notin> set d" if "d \<in> set ds" for d
    using assms(1) that by (simp_all add: list_all_iff plain_digest_def)
  have "split_on (CHR '','') (join_str '','' ds) = ds"
    using assms(2) d(3) by (intro split_join) (simp_all add: list_all_iff)
  moreover have "map strip ds = ds" using d(1) by (simp add: map_idI)
  moreover have "filter (\<lambda>d. d \<noteq> []) ds = ds" using d(2) by (simp add: filter_id_conv)
  ultimately show "digest_list (join_str '','' ds) = ds" by (simp add: digest_list_def)
  show "join_str '','' ds \<noteq> []" using assms(2) d(2) by (induction ds rule: induct_list012) simp_all
qed

lemma joined_digests:
  assumes "list_all plain_digest ds" "map_of args ''expected_digest'' = Some (PStr (join_str '','' ds))"
  shows "(case getattr args ''expected_digest'' PNone of
      PStr (c # s) \<Rightarrow> py_frozenset (map PStr (digest_list (c # s)))
    | v \<Rightarrow> if truthy v then Inl (attribute_error v ''split'') else Inr []) = py_frozenset (map PStr ds)"
proof (cases "ds = []")
  case False
  from digest_list_join [OF assms(1) this] assms(2) show ?thesis
    by (cases "join_str '','' ds") (simp_all add: getattr_def)
qed (simp add: getattr_def assms(2) py_frozenset_def)

text \<open>
  C24.  The two front ends agree.  For every command line that the parser accepts with \<^verbatim>\<open>--verifier ita\<close> and a comma-separated list of
  digests, the command line client builds exactly the policy that the MCP server builds from a backend entry with the same digests
  as a list and the same values for the other settings, where a setting that is left out in the file counts as its default.
\<close>

theorem front_ends_agree:
  assumes "parse_args env (Some c) given = Inr (cmd, args)"
    and "map_of args ''verifier'' = Some (PStr ''ita'')" and "map_of args ''expected_digest'' = Some (PStr (join_str '','' ds))"
    and "map_of backend ''verifier'' = Some (PStr ''ita'')" and "map_of backend ''expected_digest'' = Some (PList (map PStr ds))"
    and "list_all plain_digest ds"
    and "list_all (\<lambda>(k, d). getattr backend k d = getattr args k d)
      [(''allow_debug_tee'', PBool False), (''expected_project_id'', PStr []), (''expected_service_account'', PStr []), (''min_cs_version'', PNone)]"
    and "map_of backend ''allow_memory_monitoring'' = None" and "map_of backend ''expected_image_digest'' = None"
  shows "build_policy args w = (build_policy_from_backend (PDict backend), w)"
proof -
  have get: "py_get (PDict backend) k d = Inr (getattr backend k d)" for k d
    by (simp add: getattr_def)
  have same: "getattr backend ''allow_debug_tee'' (PBool False) = getattr args ''allow_debug_tee'' (PBool False)"
    "getattr backend ''expected_project_id'' (PStr []) = getattr args ''expected_project_id'' (PStr [])"
    "getattr backend ''expected_service_account'' (PStr []) = getattr args ''expected_service_account'' (PStr [])"
    "getattr backend ''min_cs_version'' PNone = getattr args ''min_cs_version'' PNone"
    using assms(7) by simp_all
  have version: "getattr args ''min_cs_version'' PNone = PNone \<or> (\<exists>n. getattr args ''min_cs_version'' PNone = PInt n)"
    using connection_value [OF assms(1), of "opt ''min_cs_version'' OptInt PNone"]
    by (auto simp: connection_args_def opt_value_def opt_def required_opt_def getattr_def)
  have b: "getattr backend ''verifier'' (PStr []) = PStr ''ita''"
    "getattr backend ''expected_digest'' (PStr []) = PList (map PStr ds)"
    "getattr backend ''allow_memory_monitoring'' (PBool False) = PBool False"
    "getattr backend ''expected_image_digest'' PNone = PNone"
    by (simp_all add: assms getattr_def)
  obtain us where us: "py_frozenset (map PStr ds) = Inr us" by (rule py_frozenset_strs)
  let ?mv = "case getattr args ''min_cs_version'' PNone of PNone \<Rightarrow> Inr MIN_CS_VERSION_DEFAULT | v \<Rightarrow> int_value v"
  let ?q = "\<lambda>n. ItaPolicy (ita_default\<lparr>expected_image_digests := us,
       allow_debug := getattr args ''allow_debug_tee'' (PBool False),
       expected_project_id := getattr args ''expected_project_id'' (PStr []),
       expected_service_account := getattr args ''expected_service_account'' (PStr []), min_cs_version := n\<rparr>)"
  have "build_policy_from_backend (PDict backend) = rbind ?mv (\<lambda>n. Inr (?q n))"
    unfolding build_policy_from_backend_def get b same using version
    by (auto simp: us ita_default_def)
  moreover have "build_policy args w = (rbind ?mv (\<lambda>n. Inr (?q n)), w)"
    using joined_digests [OF assms(6,3)] us assms(2) unfolding build_policy_def
    by (cases ?mv) (simp_all add: attr_def io_simps)
  ultimately show ?thesis by simp
qed

theorem front_ends_agree_witness:
  "build_policy [(''host'', PStr ''localhost''), (''port'', PInt 8000), (''verifier'', PStr ''ita''), (''expected_digest'', PStr ''a,b''),
       (''allow_debug_tee'', PBool False), (''expected_project_id'', PStr []), (''expected_service_account'', PStr []),
       (''min_cs_version'', PInt 3), (''quiet'', PBool False), (''message'', PStr ''hi'')] null_world =
    (build_policy_from_backend (PDict [(''verifier'', PStr ''ita''), (''expected_digest'', PList (map PStr [''a'', ''b''])),
       (''min_cs_version'', PInt 3)]), null_world)"
proof (rule front_ends_agree)
  show "parse_args (\<lambda>_. None) (Some ''echo'')
      [(''verifier'', ''ita''), (''expected_digest'', ''a,b''), (''min_cs_version'', ''3''), (''message'', ''hi'')] = Inr (Some ''echo'',
      [(''host'', PStr ''localhost''), (''port'', PInt 8000), (''verifier'', PStr ''ita''), (''expected_digest'', PStr ''a,b''),
       (''allow_debug_tee'', PBool False), (''expected_project_id'', PStr []), (''expected_service_account'', PStr []),
       (''min_cs_version'', PInt 3), (''quiet'', PBool False), (''message'', PStr ''hi'')])"
    by code_simp
  show "list_all plain_digest [''a'', ''b'']" by code_simp
qed (simp_all add: getattr_def)

end
